theory Spec2Isabelle
  imports Complex_Main
begin

section \<open>Fixed-point decimals of the ledger\<close>

text \<open>
  The keeper computes with the decimal type \<open>LegacyDec\<close> of the \<open>cosmossdk.io/math\<close>
  library: an arbitrary-precision integer holding the value scaled by \<open>10^18\<close>. A decimal
  is modelled by that raw integer, an \<open>Int\<close> of the library by a HOL \<open>int\<close>. A division by
  zero panics in Go and is \<open>None\<close> here. A multiplication of the library panics
  (\<open>Int overflow\<close>) when its rounded result needs more bits than the library's
  \<open>maxDecBitLen\<close>: \<open>MulMut\<close> and \<open>PowerMut\<close> below are the multiplication and the power with
  that check, \<open>None\<close> being the panic; \<open>Mul\<close> and \<open>Power\<close> give the value that is computed
  when no check fails, and stand for the library's functions where the factors are ledger
  amounts and rates of at most 1. The library is not part of this repository, so the bound
  \<open>maxDecBitLen\<close> is a parameter (\<open>bits\<close>).
\<close>

type_synonym LegacyDec = int

definition precisionReuse :: int where
  "precisionReuse = 10 ^ 18"

definition fivePrecision :: int where
  "fivePrecision = precisionReuse div 2"

definition LegacyNewDecFromInt :: "int \<Rightarrow> LegacyDec" where
  "LegacyNewDecFromInt i = i * precisionReuse"

definition LegacyNewDec :: "int \<Rightarrow> LegacyDec" where
  "LegacyNewDec i = i * precisionReuse"

definition LegacyOneDec :: LegacyDec where
  "LegacyOneDec = precisionReuse"

definition LegacyZeroDec :: LegacyDec where
  "LegacyZeroDec = 0"

text \<open>\<open>LegacyNewDecWithPrec i prec\<close> is \<open>i / 10^prec\<close>, for \<open>prec \<le> 18\<close>.\<close>

definition LegacyNewDecWithPrec :: "int \<Rightarrow> nat \<Rightarrow> LegacyDec" where
  "LegacyNewDecWithPrec i prec = i * 10 ^ (18 - prec)"

text \<open>Rounding of a non-negative raw product to 18 digits, half to even.\<close>

definition chopRoundPos :: "int \<Rightarrow> int" where
  "chopRoundPos d =
     (let quo = d div precisionReuse; rem = d mod precisionReuse in
      if rem = 0 then quo
      else if rem < fivePrecision then quo
      else if rem > fivePrecision then quo + 1
      else if even quo then quo else quo + 1)"

definition chopPrecisionAndRound :: "int \<Rightarrow> int" where
  "chopPrecisionAndRound d = (if d < 0 then - chopRoundPos (- d) else chopRoundPos d)"

text \<open>Quotient of \<open>big.Int.Quo\<close>: truncated towards zero.\<close>

definition bigQuo :: "int \<Rightarrow> int \<Rightarrow> int" where
  "bigQuo a b = sgn a * sgn b * (\<bar>a\<bar> div \<bar>b\<bar>)"

definition Mul :: "LegacyDec \<Rightarrow> LegacyDec \<Rightarrow> LegacyDec" where
  "Mul d d2 = chopPrecisionAndRound (d * d2)"

definition MulInt :: "LegacyDec \<Rightarrow> int \<Rightarrow> LegacyDec" where
  "MulInt d i = d * i"

definition QuoRaw :: "LegacyDec \<Rightarrow> LegacyDec \<Rightarrow> LegacyDec" where
  "QuoRaw d d2 = chopPrecisionAndRound (bigQuo (d * (precisionReuse * precisionReuse)) d2)"

definition Quo :: "LegacyDec \<Rightarrow> LegacyDec \<Rightarrow> LegacyDec option" where
  "Quo d d2 = (if d2 = 0 then None else Some (QuoRaw d d2))"

definition TruncateInt :: "LegacyDec \<Rightarrow> int" where
  "TruncateInt d = bigQuo d precisionReuse"

text \<open>
  \<open>Power\<close> squares and multiplies, rounding after every multiplication:
  \<^verbatim>\<open>tmp := 1; for i := power; i > 1; { if i%2 != 0 { tmp *= d }; i /= 2; d *= d }; return d * tmp\<close>.
\<close>

function PowerLoop :: "nat \<Rightarrow> LegacyDec \<Rightarrow> LegacyDec \<Rightarrow> LegacyDec" where
  "PowerLoop i d tmp =
     (if i > 1 then PowerLoop (i div 2) (Mul d d) (if i mod 2 \<noteq> 0 then Mul tmp d else tmp)
      else Mul d tmp)"
  by pat_completeness auto
termination
  by (relation "measure (\<lambda>(i, d, tmp). i)") auto

declare PowerLoop.simps [simp del]

definition Power :: "LegacyDec \<Rightarrow> nat \<Rightarrow> LegacyDec" where
  "Power d n = (if n = 0 then LegacyOneDec else PowerLoop n d LegacyOneDec)"

text \<open>
  The same with the capacity check of \<open>MulMut\<close>:
  \<^verbatim>\<open>chopped := chopPrecisionAndRound(d.i * d2.i); if chopped.BitLen() > maxDecBitLen { panic("Int overflow") }\<close>.
  The bit length of an integer exceeds \<open>bits\<close> when its absolute value is at least
  \<open>2 ^ bits\<close>. In the loop of \<open>PowerMut\<close> the product \<open>tmp * d\<close> is taken before the square
  \<open>d * d\<close>.
\<close>

definition MulMut :: "nat \<Rightarrow> LegacyDec \<Rightarrow> LegacyDec \<Rightarrow> LegacyDec option" where
  "MulMut bits d d2 =
     (let chopped = chopPrecisionAndRound (d * d2) in
      if \<bar>chopped\<bar> \<ge> 2 ^ bits then None else Some chopped)"

function PowerMutLoop :: "nat \<Rightarrow> nat \<Rightarrow> LegacyDec \<Rightarrow> LegacyDec \<Rightarrow> LegacyDec option" where
  "PowerMutLoop bits i d tmp =
     (if i > 1 then
        (case (if i mod 2 \<noteq> 0 then MulMut bits tmp d else Some tmp) of
           None \<Rightarrow> None
         | Some tmp' \<Rightarrow>
             (case MulMut bits d d of
                None \<Rightarrow> None
              | Some d' \<Rightarrow> PowerMutLoop bits (i div 2) d' tmp'))
      else MulMut bits d tmp)"
  by pat_completeness auto
termination
  by (relation "measure (\<lambda>(bits, i, d, tmp). i)") auto

declare PowerMutLoop.simps [simp del]

definition PowerMut :: "nat \<Rightarrow> LegacyDec \<Rightarrow> nat \<Rightarrow> LegacyDec option" where
  "PowerMut bits d n = (if n = 0 then Some LegacyOneDec else PowerMutLoop bits n d LegacyOneDec)"

section \<open>Share and token conversion (types/asset.go)\<close>

definition ConvertNewTokenToShares :: "LegacyDec \<Rightarrow> LegacyDec \<Rightarrow> int \<Rightarrow> LegacyDec option" where
  "ConvertNewTokenToShares totalTokens totalShares newTokens =
     (if totalShares = 0 then Some (LegacyNewDecFromInt newTokens)
      else map_option (\<lambda>q. MulInt q newTokens) (Quo totalShares totalTokens))"

definition ConvertNewShareToDecToken :: "LegacyDec \<Rightarrow> LegacyDec \<Rightarrow> LegacyDec \<Rightarrow> LegacyDec option" where
  "ConvertNewShareToDecToken totalTokens totalShares shares =
     (if totalShares = 0 then Some totalTokens
      else map_option (\<lambda>q. Mul q totalTokens) (Quo shares totalShares))"

text \<open>
  \<open>GetDelegationTokens\<close> and \<open>GetDelegationTokensWithShares\<close> have the same body. The
  validator's token total for the asset (\<open>val.TotalTokensWithAsset(asset)\<close>) and its
  delegator share total (\<open>val.TotalDelegationSharesWithDenom(asset.Denom)\<close>) come from
  accessors outside the files at hand and are the arguments \<open>valTokens\<close> and
  \<open>totalDelegationShares\<close>; the result is the amount of the coin returned.
\<close>

definition GetDelegationTokensWithShares :: "LegacyDec \<Rightarrow> LegacyDec \<Rightarrow> LegacyDec \<Rightarrow> int option" where
  "GetDelegationTokensWithShares delegatorShares valTokens totalDelegationShares =
     map_option (\<lambda>delTokens. TruncateInt (delTokens + LegacyNewDecWithPrec 1 6))
       (ConvertNewShareToDecToken valTokens totalDelegationShares delegatorShares)"

definition GetDelegationTokens :: "LegacyDec \<Rightarrow> LegacyDec \<Rightarrow> LegacyDec \<Rightarrow> int option" where
  "GetDelegationTokens delShares valTokens totalDelegationShares =
     GetDelegationTokensWithShares delShares valTokens totalDelegationShares"

section \<open>Time, durations and the module store\<close>

text \<open>
  A \<open>time.Time\<close> is an instant, counted in nanoseconds from the zero value \<open>time.Time{}\<close>;
  a \<open>time.Duration\<close> is an \<open>int64\<close> of nanoseconds. \<open>Sub\<close> saturates at the bounds of
  \<open>int64\<close>, the arithmetic of durations wraps, \<open>/\<close> truncates towards zero and panics on
  a zero divisor.
\<close>

type_synonym Time = int
type_synonym Duration = int

definition int64 :: "int \<Rightarrow> int" where
  "int64 x = (x + 2 ^ 63) mod 2 ^ 64 - 2 ^ 63"

definition uint64 :: "int \<Rightarrow> int" where
  "uint64 x = x mod 2 ^ 64"

definition maxDuration :: int where
  "maxDuration = 2 ^ 63 - 1"

definition minDuration :: int where
  "minDuration = - (2 ^ 63)"

definition TimeSub :: "Time \<Rightarrow> Time \<Rightarrow> Duration" where
  "TimeSub t u = (if t - u > maxDuration then maxDuration
                  else if t - u < minDuration then minDuration else t - u)"

definition TimeAdd :: "Time \<Rightarrow> Duration \<Rightarrow> Time" where
  "TimeAdd t d = t + d"

definition zeroTime :: Time where
  "zeroTime = 0"

datatype Error =
    ErrUnknownAsset
  | ErrRewardWeightOutOfBound
  | ErrValidatorNotFound
  | ErrInvalidDuration
  | ErrInsufficientFunds
  | ErrNoDelegation
  | ErrNotEnoughDelegationShares
  | ErrExternal
  | GoPanic

record RewardWeightRange =
  Min_w :: LegacyDec
  Max_w :: LegacyDec

record AllianceAsset =
  Denom :: string
  RewardWeight :: LegacyDec
  RewardWeightRange :: RewardWeightRange
  TakeRate :: LegacyDec
  TotalTokens :: int
  TotalValidatorShares :: LegacyDec
  RewardStartTime :: Time
  RewardChangeRate :: LegacyDec
  RewardChangeInterval :: Duration
  LastRewardChangeTime :: Time
  IsInitialized :: bool

definition NewAllianceAsset ::
  "string \<Rightarrow> LegacyDec \<Rightarrow> LegacyDec \<Rightarrow> LegacyDec \<Rightarrow> LegacyDec \<Rightarrow> Time \<Rightarrow> AllianceAsset" where
  "NewAllianceAsset denom rewardWeight minRewardWeight maxRewardWeight takeRate rewardStartTime =
     \<lparr> Denom = denom,
       RewardWeight = rewardWeight,
       RewardWeightRange = \<lparr> Min_w = minRewardWeight, Max_w = maxRewardWeight \<rparr>,
       TakeRate = takeRate,
       TotalTokens = 0,
       TotalValidatorShares = LegacyZeroDec,
       RewardStartTime = rewardStartTime,
       RewardChangeRate = LegacyOneDec,
       RewardChangeInterval = 0,
       LastRewardChangeTime = rewardStartTime,
       IsInitialized = False \<rparr>"

definition RewardsStarted :: "AllianceAsset \<Rightarrow> Time \<Rightarrow> bool" where
  "RewardsStarted a blockTime = (blockTime > RewardStartTime a \<or> blockTime = RewardStartTime a)"

definition HasPositiveDecay :: "AllianceAsset \<Rightarrow> bool" where
  "HasPositiveDecay a = (RewardChangeInterval a > 0 \<and> RewardChangeRate a > 0)"

type_synonym ValAddress = string
type_synonym Coins = "(string \<times> int) list"
type_synonym DecCoins = "(string \<times> LegacyDec) list"
type_synonym RewardHistories = "(string \<times> LegacyDec) list"

record AllianceValidatorInfo =
  GlobalRewardHistory :: RewardHistories
  TotalDelegatorShares :: DecCoins
  ValidatorShares :: DecCoins

record RewardWeightChangeSnapshot =
  PrevRewardWeight :: LegacyDec
  RewardHistories :: RewardHistories

record Params =
  RewardDelayTime :: Duration
  TakeRateClaimInterval :: Duration
  LastTakeRateClaimTime :: Time

record Context =
  BlockTime :: Time
  BlockHeight :: int

text \<open>
  The store of the module, with the part of the bonding and custody subsystems the keeper
  reads and writes. \<open>ValidatorInfos\<close> is kept in iteration order. \<open>Bonded\<close> is the status
  of each validator known to the bonding subsystem (no entry: no such validator).
  \<open>ModuleDelegated\<close> is the native amount the module has delegated to a validator (0: no
  delegation), \<open>TotalBonded\<close> the balance of the bonded pool, \<open>ModuleBalance\<close> and
  \<open>FeeCollector\<close> the balances of the module account and of the shared distribution pool,
  \<open>Minted\<close> and \<open>Burned\<close> the native coins minted and burned so far.
\<close>

record Store =
  Assets :: "string \<rightharpoonup> AllianceAsset"
  ParamsOf :: Params
  ValidatorInfos :: "(ValAddress \<times> AllianceValidatorInfo) list"
  Snapshots :: "(string \<times> ValAddress \<times> int) \<rightharpoonup> RewardWeightChangeSnapshot"
  RebalanceQueued :: bool
  Bonded :: "ValAddress \<rightharpoonup> bool"
  ModuleDelegated :: "ValAddress \<Rightarrow> int"
  TotalBonded :: int
  ModuleBalance :: "string \<Rightarrow> int"
  FeeCollector :: "string \<Rightarrow> int"
  Minted :: int
  Burned :: int

text \<open>
  Code of the module that is called by the keeper functions below and is not among the
  files at hand, taken as parameters:
  \<^item> \<open>ValidatePositiveDuration d\<close> holds when the check of that name in \<open>types\<close> accepts \<open>d\<close>;
  \<^item> \<open>SettleRewards ctx s valAddr info\<close> is what \<open>ClaimValidatorRewards\<close>, run on the
    store \<open>s\<close>, makes of a validator's global index vector (or the error it returns): the
    index moves by the rewards withdrawn over the validator's total weighted value, which is
    read from the asset records of the store at that instant;
  \<^item> \<open>MaxDecBitLen\<close> is the constant \<open>maxDecBitLen\<close> of the decimal library the keeper is
    built with, the number of bits beyond which a multiplication panics.
\<close>

record Keeper =
  MaxDecBitLen :: nat
  ValidatePositiveDuration :: "Duration \<Rightarrow> bool"
  SettleRewards :: "Context \<Rightarrow> Store \<Rightarrow> ValAddress \<Rightarrow> AllianceValidatorInfo \<Rightarrow> Error + RewardHistories"

subsection \<open>keeper/params.go\<close>

definition RewardClaimInterval :: "Store \<Rightarrow> Duration" where
  "RewardClaimInterval s = TakeRateClaimInterval (ParamsOf s)"

definition LastRewardClaimTime :: "Store \<Rightarrow> Time" where
  "LastRewardClaimTime s = LastTakeRateClaimTime (ParamsOf s)"

definition SetParams :: "Keeper \<Rightarrow> Params \<Rightarrow> Store \<Rightarrow> Error option \<times> Store" where
  "SetParams k params s =
     (if \<not> ValidatePositiveDuration k (RewardDelayTime params) then (Some ErrInvalidDuration, s)
      else if \<not> ValidatePositiveDuration k (TakeRateClaimInterval params) then (Some ErrInvalidDuration, s)
      else (None, s\<lparr>ParamsOf := params\<rparr>))"

definition SetLastRewardClaimTime :: "Keeper \<Rightarrow> Time \<Rightarrow> Store \<Rightarrow> Error option \<times> Store" where
  "SetLastRewardClaimTime k lastTime s =
     SetParams k ((ParamsOf s)\<lparr>LastTakeRateClaimTime := lastTime\<rparr>) s"

subsection \<open>Assets, rebalance flag and snapshots (keeper/asset.go)\<close>

definition SetAsset :: "AllianceAsset \<Rightarrow> Store \<Rightarrow> Store" where
  "SetAsset asset s = s\<lparr>Assets := (Assets s)(Denom asset \<mapsto> asset)\<rparr>"

definition GetAssetByDenom :: "Store \<Rightarrow> string \<Rightarrow> AllianceAsset option" where
  "GetAssetByDenom s denom = Assets s denom"

definition QueueAssetRebalanceEvent :: "Store \<Rightarrow> Store" where
  "QueueAssetRebalanceEvent s = s\<lparr>RebalanceQueued := True\<rparr>"

definition ConsumeAssetRebalanceEvent :: "Store \<Rightarrow> bool \<times> Store" where
  "ConsumeAssetRebalanceEvent s =
     (if RebalanceQueued s then (True, s\<lparr>RebalanceQueued := False\<rparr>) else (False, s))"

definition setRewardWeightChangeSnapshot ::
  "string \<Rightarrow> ValAddress \<Rightarrow> int \<Rightarrow> RewardWeightChangeSnapshot \<Rightarrow> Store \<Rightarrow> Store" where
  "setRewardWeightChangeSnapshot denom valAddr height snapshot s =
     s\<lparr>Snapshots := (Snapshots s)((denom, valAddr, height) \<mapsto> snapshot)\<rparr>"

text \<open>
  Modelled from the spec: the constructor \<open>types.NewRewardWeightChangeSnapshot\<close> is not among
  the files at hand; a snapshot records "the pre-change weight and index vector" (section 4.2),
  that is the reward weight of the asset it is given and the validator's global index vector.
\<close>

definition NewRewardWeightChangeSnapshot ::
  "AllianceAsset \<Rightarrow> AllianceValidatorInfo \<Rightarrow> RewardWeightChangeSnapshot" where
  "NewRewardWeightChangeSnapshot asset val =
     \<lparr> PrevRewardWeight = RewardWeight asset, RewardHistories = GlobalRewardHistory val \<rparr>"

definition SetRewardWeightChangeSnapshot ::
  "Context \<Rightarrow> AllianceAsset \<Rightarrow> ValAddress \<Rightarrow> AllianceValidatorInfo \<Rightarrow> Store \<Rightarrow> Store" where
  "SetRewardWeightChangeSnapshot ctx asset valAddr val s =
     setRewardWeightChangeSnapshot (Denom asset) valAddr (uint64 (BlockHeight ctx))
       (NewRewardWeightChangeSnapshot asset val) s"

definition CreateInitialRewardWeightChangeSnapshot ::
  "Context \<Rightarrow> string \<Rightarrow> ValAddress \<Rightarrow> AllianceValidatorInfo \<Rightarrow> Store \<Rightarrow> Store" where
  "CreateInitialRewardWeightChangeSnapshot ctx denom valAddr info s =
     setRewardWeightChangeSnapshot denom valAddr (uint64 (BlockHeight ctx))
       \<lparr> PrevRewardWeight = LegacyZeroDec, RewardHistories = GlobalRewardHistory info \<rparr> s"

subsection \<open>Validators\<close>

fun SetValidatorInfo ::
  "ValAddress \<Rightarrow> AllianceValidatorInfo \<Rightarrow> (ValAddress \<times> AllianceValidatorInfo) list
     \<Rightarrow> (ValAddress \<times> AllianceValidatorInfo) list" where
  "SetValidatorInfo a info [] = [(a, info)]"
| "SetValidatorInfo a info ((b, i) # rest) =
     (if a = b then (a, info) # rest else (b, i) # SetValidatorInfo a info rest)"

text \<open>
  Modelled from the spec: \<open>GetAllianceValidator\<close> and \<open>ClaimValidatorRewards\<close> are not among
  the files at hand. The first joins the bonding subsystem's validator (an error when it has
  none at that address) with the module's record for it (an empty record when there is none
  yet); the second flushes the validator's outstanding rewards into its index vector
  (section 4.2): of this store it rewrites that validator's record only.
\<close>

definition emptyValidatorInfo :: AllianceValidatorInfo where
  "emptyValidatorInfo = \<lparr> GlobalRewardHistory = [], TotalDelegatorShares = [], ValidatorShares = [] \<rparr>"

definition GetAllianceValidator :: "Store \<Rightarrow> ValAddress \<Rightarrow> Error + (bool \<times> AllianceValidatorInfo)" where
  "GetAllianceValidator s valAddr =
     (case Bonded s valAddr of
        None \<Rightarrow> Inl ErrValidatorNotFound
      | Some b \<Rightarrow>
          (case map_of (ValidatorInfos s) valAddr of
             None \<Rightarrow> Inr (b, emptyValidatorInfo)
           | Some info \<Rightarrow> Inr (b, info)))"

definition ClaimValidatorRewards ::
  "Keeper \<Rightarrow> Context \<Rightarrow> ValAddress \<Rightarrow> AllianceValidatorInfo \<Rightarrow> Store
     \<Rightarrow> (Error + AllianceValidatorInfo) \<times> Store" where
  "ClaimValidatorRewards k ctx valAddr info s =
     (case SettleRewards k ctx s valAddr info of
        Inl e \<Rightarrow> (Inl e, s)
      | Inr h \<Rightarrow>
          (let info' = info\<lparr>GlobalRewardHistory := h\<rparr> in
           (Inr info', s\<lparr>ValidatorInfos := SetValidatorInfo valAddr info' (ValidatorInfos s)\<rparr>)))"

subsection \<open>UpdateAllianceAsset\<close>

text \<open>
  The callback of the iteration over the validators, run on the addresses in store order
  until it reports an error: fetch, settle, snapshot at the current height with the weight
  of \<open>asset\<close>, the record read before the update.
\<close>

fun UpdateSnapshotLoop ::
  "Keeper \<Rightarrow> Context \<Rightarrow> AllianceAsset \<Rightarrow> ValAddress list \<Rightarrow> Store \<Rightarrow> Error option \<times> Store" where
  "UpdateSnapshotLoop k ctx asset [] s = (None, s)"
| "UpdateSnapshotLoop k ctx asset (valAddr # rest) s =
     (case GetAllianceValidator s valAddr of
        Inl e \<Rightarrow> (Some e, s)
      | Inr (b, info) \<Rightarrow>
          (case ClaimValidatorRewards k ctx valAddr info s of
             (Inl e, s1) \<Rightarrow> (Some e, s1)
           | (Inr info', s1) \<Rightarrow>
               UpdateSnapshotLoop k ctx asset rest
                 (SetRewardWeightChangeSnapshot ctx asset valAddr info' s1)))"

definition UpdateAllianceAsset ::
  "Keeper \<Rightarrow> Context \<Rightarrow> AllianceAsset \<Rightarrow> Store \<Rightarrow> Error option \<times> Store" where
  "UpdateAllianceAsset k ctx newAsset s =
     (case GetAssetByDenom s (Denom newAsset) of
        None \<Rightarrow> (Some ErrUnknownAsset, s)
      | Some asset \<Rightarrow>
          if Min_w (RewardWeightRange newAsset) > RewardWeight newAsset
             \<or> Max_w (RewardWeightRange newAsset) < RewardWeight newAsset
          then (Some ErrRewardWeightOutOfBound, s)
          else
            (let (err, s1) =
                   (if RewardWeight newAsset \<noteq> RewardWeight asset
                    then (case UpdateSnapshotLoop k ctx asset (map fst (ValidatorInfos s)) s of
                            (Some e, s') \<Rightarrow> (Some e, s')
                          | (None, s') \<Rightarrow> (None, QueueAssetRebalanceEvent s'))
                    else (None, s))
             in case err of
                  Some e \<Rightarrow> (Some e, s1)
                | None \<Rightarrow>
                    (let newAsset' =
                           (if (RewardChangeRate newAsset \<noteq> RewardChangeRate asset
                                \<or> RewardChangeInterval newAsset \<noteq> RewardChangeInterval asset)
                               \<and> (RewardChangeRate asset = LegacyOneDec \<or> RewardChangeInterval asset = 0)
                            then newAsset\<lparr>LastRewardChangeTime := BlockTime ctx\<rparr>
                            else newAsset)
                     in (None, SetAsset (asset\<lparr> TakeRate := TakeRate newAsset',
                                                RewardWeight := RewardWeight newAsset',
                                                RewardChangeRate := RewardChangeRate newAsset',
                                                RewardChangeInterval := RewardChangeInterval newAsset',
                                                LastRewardChangeTime := LastRewardChangeTime newAsset' \<rparr>) s1))))"

text \<open>
  The record \<open>UpdateAllianceAsset\<close> writes: the stored record with the take rate, reward
  weight, change rate and change interval of the update, and with the update's last change
  time, or the block time when the update gives a decay schedule to an asset that had none.
\<close>

definition UpdatedAsset :: "Context \<Rightarrow> AllianceAsset \<Rightarrow> AllianceAsset \<Rightarrow> AllianceAsset" where
  "UpdatedAsset ctx asset newAsset =
     asset\<lparr> TakeRate := TakeRate newAsset,
            RewardWeight := RewardWeight newAsset,
            RewardChangeRate := RewardChangeRate newAsset,
            RewardChangeInterval := RewardChangeInterval newAsset,
            LastRewardChangeTime :=
              (if (RewardChangeRate newAsset \<noteq> RewardChangeRate asset
                   \<or> RewardChangeInterval newAsset \<noteq> RewardChangeInterval asset)
                  \<and> (RewardChangeRate asset = LegacyOneDec \<or> RewardChangeInterval asset = 0)
               then BlockTime ctx else LastRewardChangeTime newAsset) \<rparr>"

subsection \<open>RewardWeightChangeHook\<close>

text \<open>
  The hook works on the records the caller holds (pointers in Go): the list is returned
  with the changes made to it. The divisor of the interval count is not zero where
  \<open>DecayAsset\<close> is called. \<open>DecayAsset\<close> is the body of the loop from the interval count
  to the new last change time; it is \<open>None\<close> when \<open>Power\<close> or \<open>Mul\<close> panics, which happens
  before the record is written to and before the rebalance is queued.
\<close>

definition DecayAsset :: "Keeper \<Rightarrow> Context \<Rightarrow> AllianceAsset \<Rightarrow> AllianceAsset option" where
  "DecayAsset k ctx asset =
     (let durationSinceLastClaim = TimeSub (BlockTime ctx) (LastRewardChangeTime asset);
          intervalsSinceLastClaim =
            uint64 (int64 (bigQuo durationSinceLastClaim (RewardChangeInterval asset)))
      in case PowerMut (MaxDecBitLen k) (RewardChangeRate asset) (nat intervalsSinceLastClaim) of
           None \<Rightarrow> None
         | Some multiplier \<Rightarrow>
             (case MulMut (MaxDecBitLen k) (RewardWeight asset) multiplier of
                None \<Rightarrow> None
              | Some w \<Rightarrow>
                  (let w1 = (if w < Min_w (RewardWeightRange asset)
                             then Min_w (RewardWeightRange asset) else w);
                       w2 = (if w1 > Max_w (RewardWeightRange asset)
                             then Max_w (RewardWeightRange asset) else w1)
                   in Some (asset\<lparr> RewardWeight := w2,
                                LastRewardChangeTime :=
                                  TimeAdd (LastRewardChangeTime asset)
                                    (int64 (RewardChangeInterval asset
                                            * int64 intervalsSinceLastClaim)) \<rparr>))))"

fun RewardWeightChangeHook ::
  "Keeper \<Rightarrow> Context \<Rightarrow> AllianceAsset list \<Rightarrow> Store \<Rightarrow> Error option \<times> AllianceAsset list \<times> Store" where
  "RewardWeightChangeHook k ctx [] s = (None, [], s)"
| "RewardWeightChangeHook k ctx (asset # rest) s =
     (if RewardChangeInterval asset = 0 \<or> RewardChangeRate asset = LegacyOneDec
      then (case RewardWeightChangeHook k ctx rest s of (e, rest', s') \<Rightarrow> (e, asset # rest', s'))
      else if TimeAdd (LastRewardChangeTime asset) (RewardChangeInterval asset) > BlockTime ctx
      then (case RewardWeightChangeHook k ctx rest s of (e, rest', s') \<Rightarrow> (e, asset # rest', s'))
      else
        (case DecayAsset k ctx asset of
           None \<Rightarrow> (Some GoPanic, asset # rest, s)
         | Some asset' \<Rightarrow>
             (case UpdateAllianceAsset k ctx asset' (QueueAssetRebalanceEvent s) of
                (Some e, s1) \<Rightarrow> (Some e, asset' # rest, s1)
              | (None, s1) \<Rightarrow>
                  (case RewardWeightChangeHook k ctx rest s1 of
                     (e, rest', s') \<Rightarrow> (e, asset' # rest', s')))))"

subsection \<open>Coins\<close>

text \<open>
  \<open>sdk.Coins\<close> and \<open>sdk.DecCoins\<close> hold one entry for each denom and no zero amount;
  \<open>Add\<close> keeps them so. Their sorting by denom is not modelled. \<open>sdk.NewCoin\<close> panics on a
  negative amount.
\<close>

fun CoinsAdd :: "(string \<times> int) list \<Rightarrow> string \<times> int \<Rightarrow> (string \<times> int) list" where
  "CoinsAdd [] (d, a) = (if a = 0 then [] else [(d, a)])"
| "CoinsAdd ((d', a') # cs) (d, a) =
     (if d' = d then (if a' + a = 0 then cs else (d', a' + a) # cs)
      else (d', a') # CoinsAdd cs (d, a))"

definition CoinsAddAll :: "(string \<times> int) list \<Rightarrow> (string \<times> int) list \<Rightarrow> (string \<times> int) list" where
  "CoinsAddAll cs ds = foldl CoinsAdd cs ds"

definition AmountOf :: "(string \<times> int) list \<Rightarrow> string \<Rightarrow> int" where
  "AmountOf cs d = (case map_of cs d of None \<Rightarrow> 0 | Some a \<Rightarrow> a)"

definition CoinsIsZero :: "Coins \<Rightarrow> bool" where
  "CoinsIsZero cs = list_all (\<lambda>c. snd c = 0) cs"

text \<open>
  The transfer between module accounts of the custody subsystem, here from the module
  account to the shared distribution pool: refused when the sender holds too little.
\<close>

definition SendCoinsFromModuleToModule :: "Coins \<Rightarrow> Store \<Rightarrow> Error + Store" where
  "SendCoinsFromModuleToModule coins s =
     (if list_ex (\<lambda>c. ModuleBalance s (fst c) < snd c) coins then Inl ErrInsufficientFunds
      else Inr (s\<lparr> ModuleBalance := (\<lambda>d. ModuleBalance s d - AmountOf coins d),
                   FeeCollector := (\<lambda>d. FeeCollector s d + AmountOf coins d) \<rparr>))"

subsection \<open>Take rate: DeductAssetsHook and DeductAssetsWithTakeRate\<close>

text \<open>
  The loop over the assets, with its counter \<open>assetsWithPositiveTakeRate\<close>, the coins
  collected and the store; it returns the records as the loop left them.
\<close>

fun DeductLoop ::
  "Context \<Rightarrow> nat \<Rightarrow> AllianceAsset list \<Rightarrow> nat \<Rightarrow> Coins \<Rightarrow> Store
     \<Rightarrow> Error + (AllianceAsset list \<times> nat \<times> Coins \<times> Store)" where
  "DeductLoop ctx intervals [] cnt coins s = Inr ([], cnt, coins, s)"
| "DeductLoop ctx intervals (asset # rest) cnt coins s =
     (if TotalTokens asset > 0 \<and> TakeRate asset > 0 \<and> RewardsStarted asset (BlockTime ctx)
      then
        (let multiplier = Power (LegacyOneDec - TakeRate asset) intervals;
             oldAmount = TotalTokens asset;
             newAmount = MulInt multiplier (TotalTokens asset)
         in if newAmount \<le> LegacyOneDec
            then (case DeductLoop ctx intervals rest (cnt + 1) coins s of
                    Inl e \<Rightarrow> Inl e
                  | Inr (rest', r) \<Rightarrow> Inr (asset # rest', r))
            else
              (let asset' = asset\<lparr>TotalTokens := TruncateInt newAmount\<rparr>;
                   deductedAmount = oldAmount - TotalTokens asset'
               in if deductedAmount < 0 then Inl GoPanic
                  else (case DeductLoop ctx intervals rest (cnt + 1)
                               (CoinsAdd coins (Denom asset', deductedAmount)) (SetAsset asset' s) of
                          Inl e \<Rightarrow> Inl e
                        | Inr (rest', r) \<Rightarrow> Inr (asset' # rest', r))))
      else (case DeductLoop ctx intervals rest cnt coins s of
              Inl e \<Rightarrow> Inl e
            | Inr (rest', r) \<Rightarrow> Inr (asset # rest', r)))"

text \<open>
  The result is the error, the coins returned, the caller's records and the store. A panic
  aborts the block: it is reported with the records and the store as they were.
\<close>

definition DeductAssetsWithTakeRate ::
  "Keeper \<Rightarrow> Context \<Rightarrow> Time \<Rightarrow> AllianceAsset list \<Rightarrow> Store
     \<Rightarrow> Error option \<times> Coins \<times> AllianceAsset list \<times> Store" where
  "DeductAssetsWithTakeRate k ctx lastClaim assets s =
     (if lastClaim = zeroTime
      then (case SetLastRewardClaimTime k (BlockTime ctx) s of (e, s') \<Rightarrow> (e, [], assets, s'))
      else
        (let rewardClaimInterval = RewardClaimInterval s in
         if rewardClaimInterval = 0 then (Some GoPanic, [], assets, s)
         else
           (let durationSinceLastClaim = TimeSub (BlockTime ctx) lastClaim;
                intervalsSinceLastClaim =
                  uint64 (int64 (bigQuo durationSinceLastClaim rewardClaimInterval))
            in case DeductLoop ctx (nat intervalsSinceLastClaim) assets 0 [] s of
                 Inl e \<Rightarrow> (Some e, [], assets, s)
               | Inr (assets', assetsWithPositiveTakeRate, coins, s1) \<Rightarrow>
                   if assetsWithPositiveTakeRate = 0
                   then (case SetLastRewardClaimTime k (BlockTime ctx) s1 of
                           (e, s2) \<Rightarrow> (e, coins, assets', s2))
                   else if coins \<noteq> [] \<and> \<not> CoinsIsZero coins
                   then (case SendCoinsFromModuleToModule coins s1 of
                           Inl e \<Rightarrow> (Some e, [], assets', s1)
                         | Inr s2 \<Rightarrow>
                             (case SetLastRewardClaimTime k
                                     (TimeAdd lastClaim
                                        (int64 (rewardClaimInterval * int64 intervalsSinceLastClaim))) s2 of
                                (e, s3) \<Rightarrow> (e, coins, assets', s3)))
                   else (None, coins, assets', s1))))"

definition DeductAssetsHook ::
  "Keeper \<Rightarrow> Context \<Rightarrow> AllianceAsset list \<Rightarrow> Store
     \<Rightarrow> Error option \<times> Coins \<times> AllianceAsset list \<times> Store" where
  "DeductAssetsHook k ctx assets s =
     (let last = LastRewardClaimTime s;
          interval = RewardClaimInterval s;
          next = TimeAdd last interval
      in if BlockTime ctx > next then DeductAssetsWithTakeRate k ctx last assets s
         else (None, [], assets, s))"

subsection \<open>Rebalancer: RebalanceBondTokenWeights\<close>

text \<open>
  Modelled from the spec: the bonding and custody subsystems are external collaborators
  (section 6: "query total bonded native tokens; query/validate a delegation's unbond
  amount; delegate/unbond calls that accept and return native amounts", "mint, burn"), and
  \<open>GetAllianceBondedAmount\<close> and the accessors of \<open>AllianceValidator\<close> are not among the files
  at hand. The ledger is the one of validators that were never slashed, where a share is a
  token: the tokens of the module's delegation to a validator are \<open>ModuleDelegated\<close>, the
  amount bonded by the module is their sum over the bonded validators it has a record of,
  delegating adds the amount to the delegation and to the bonded pool, unbonding and burning
  take it from both, and unbonding more than is delegated is refused.
\<close>

definition GetAllianceBondedAmount :: "Store \<Rightarrow> int" where
  "GetAllianceBondedAmount s =
     sum_list (map (ModuleDelegated s)
       (filter (\<lambda>v. Bonded s v = Some True) (map fst (ValidatorInfos s))))"

definition TotalBondedTokens :: "Store \<Rightarrow> int" where
  "TotalBondedTokens s = TotalBonded s"

definition ValidatorSharesWithDenom :: "AllianceValidatorInfo \<Rightarrow> string \<Rightarrow> LegacyDec" where
  "ValidatorSharesWithDenom info denom = AmountOf (ValidatorShares info) denom"

definition MintCoins :: "int \<Rightarrow> Store \<Rightarrow> Store" where
  "MintCoins amount s = s\<lparr>Minted := Minted s + amount\<rparr>"

definition StakingDelegate :: "ValAddress \<Rightarrow> int \<Rightarrow> Store \<Rightarrow> Store" where
  "StakingDelegate v amount s =
     s\<lparr> ModuleDelegated := (ModuleDelegated s)(v := ModuleDelegated s v + amount),
        TotalBonded := TotalBonded s + amount \<rparr>"

definition ValidateUnbondAmount :: "Store \<Rightarrow> ValAddress \<Rightarrow> int \<Rightarrow> Error + int" where
  "ValidateUnbondAmount s v amount =
     (if ModuleDelegated s v = 0 then Inl ErrNoDelegation
      else if amount > ModuleDelegated s v then Inl ErrNotEnoughDelegationShares
      else Inr amount)"

definition StakingUnbond :: "ValAddress \<Rightarrow> int \<Rightarrow> Store \<Rightarrow> Error + (int \<times> Store)" where
  "StakingUnbond v shares s =
     (if shares > ModuleDelegated s v then Inl ErrNotEnoughDelegationShares
      else Inr (shares, s\<lparr>ModuleDelegated := (ModuleDelegated s)(v := ModuleDelegated s v - shares)\<rparr>))"

definition BurnCoins :: "int \<Rightarrow> Store \<Rightarrow> Error + Store" where
  "BurnCoins amount s =
     (if amount > TotalBonded s then Inl ErrInsufficientFunds
      else Inr (s\<lparr>TotalBonded := TotalBonded s - amount, Burned := Burned s + amount\<rparr>))"

text \<open>The first iteration: the bonded validators, and the shares of the others.\<close>

fun PartitionValidators ::
  "Store \<Rightarrow> ValAddress list \<Rightarrow> (ValAddress \<times> AllianceValidatorInfo) list \<Rightarrow> DecCoins
     \<Rightarrow> Error + ((ValAddress \<times> AllianceValidatorInfo) list \<times> DecCoins)" where
  "PartitionValidators s [] bondedValidators unbondedValidatorShares =
     Inr (bondedValidators, unbondedValidatorShares)"
| "PartitionValidators s (valAddr # rest) bondedValidators unbondedValidatorShares =
     (case GetAllianceValidator s valAddr of
        Inl e \<Rightarrow> Inl e
      | Inr (b, info) \<Rightarrow>
          if b then PartitionValidators s rest (bondedValidators @ [(valAddr, info)]) unbondedValidatorShares
          else PartitionValidators s rest bondedValidators
                 (CoinsAddAll unbondedValidatorShares (ValidatorShares info)))"

text \<open>The loop over the assets for one validator; the divisor is positive where it divides.\<close>

fun ExpectedBondLoop ::
  "Context \<Rightarrow> int \<Rightarrow> DecCoins \<Rightarrow> AllianceValidatorInfo \<Rightarrow> AllianceAsset list \<Rightarrow> LegacyDec \<Rightarrow> Store
     \<Rightarrow> LegacyDec \<times> Store" where
  "ExpectedBondLoop ctx nativeBondAmount unbondedValidatorShares validator [] expectedBondAmount s =
     (expectedBondAmount, s)"
| "ExpectedBondLoop ctx nativeBondAmount unbondedValidatorShares validator (asset # rest) expectedBondAmount s =
     (if \<not> RewardsStarted asset (BlockTime ctx)
      then ExpectedBondLoop ctx nativeBondAmount unbondedValidatorShares validator rest
             expectedBondAmount (QueueAssetRebalanceEvent s)
      else
        (let valShares = ValidatorSharesWithDenom validator (Denom asset);
             expectedBondAmountForAsset = MulInt (RewardWeight asset) nativeBondAmount;
             bondedValidatorShares =
               TotalValidatorShares asset - AmountOf unbondedValidatorShares (Denom asset)
         in ExpectedBondLoop ctx nativeBondAmount unbondedValidatorShares validator rest
              (if valShares > 0 \<and> bondedValidatorShares > 0
               then expectedBondAmount + Mul (QuoRaw valShares bondedValidatorShares) expectedBondAmountForAsset
               else expectedBondAmount) s))"

fun RebalanceLoop ::
  "Keeper \<Rightarrow> Context \<Rightarrow> AllianceAsset list \<Rightarrow> int \<Rightarrow> DecCoins
     \<Rightarrow> (ValAddress \<times> AllianceValidatorInfo) list \<Rightarrow> Store \<Rightarrow> Error option \<times> Store" where
  "RebalanceLoop k ctx assets nativeBondAmount unbondedValidatorShares [] s = (None, s)"
| "RebalanceLoop k ctx assets nativeBondAmount unbondedValidatorShares ((valAddr, validator) # rest) s =
     (let currentBondedAmount = LegacyNewDecFromInt (ModuleDelegated s valAddr);
          (expectedBondAmount, s0) =
             ExpectedBondLoop ctx nativeBondAmount unbondedValidatorShares validator assets LegacyZeroDec s
      in if expectedBondAmount > currentBondedAmount
         then
           (let bondAmount = TruncateInt (expectedBondAmount - currentBondedAmount) in
            if bondAmount = 0
            then RebalanceLoop k ctx assets nativeBondAmount unbondedValidatorShares rest s0
            else
              (case ClaimValidatorRewards k ctx valAddr validator (MintCoins bondAmount s0) of
                 (Inl e, s1) \<Rightarrow> (Some e, s1)
               | (Inr v', s1) \<Rightarrow>
                   RebalanceLoop k ctx assets nativeBondAmount unbondedValidatorShares rest
                     (StakingDelegate valAddr bondAmount s1)))
         else if expectedBondAmount < currentBondedAmount
         then
           (let unbondAmount = TruncateInt (currentBondedAmount - expectedBondAmount) in
            if unbondAmount = 0
            then RebalanceLoop k ctx assets nativeBondAmount unbondedValidatorShares rest s0
            else
              (case ValidateUnbondAmount s0 valAddr unbondAmount of
                 Inl e \<Rightarrow> (Some e, s0)
               | Inr sharesToUnbond \<Rightarrow>
                   (case ClaimValidatorRewards k ctx valAddr validator s0 of
                      (Inl e, s1) \<Rightarrow> (Some e, s1)
                    | (Inr v', s1) \<Rightarrow>
                        (case StakingUnbond valAddr sharesToUnbond s1 of
                           Inl e \<Rightarrow> (Some e, s1)
                         | Inr (tokensToBurn, s2) \<Rightarrow>
                             (case BurnCoins tokensToBurn s2 of
                                Inl e \<Rightarrow> (Some e, s2)
                              | Inr s3 \<Rightarrow>
                                  RebalanceLoop k ctx assets nativeBondAmount
                                    unbondedValidatorShares rest s3)))))
         else RebalanceLoop k ctx assets nativeBondAmount unbondedValidatorShares rest s0)"

definition RebalanceBondTokenWeights ::
  "Keeper \<Rightarrow> Context \<Rightarrow> AllianceAsset list \<Rightarrow> Store \<Rightarrow> Error option \<times> Store" where
  "RebalanceBondTokenWeights k ctx assets s =
     (let allianceBondAmount = GetAllianceBondedAmount s;
          totalBondedTokens = TotalBondedTokens s;
          nativeBondAmount = totalBondedTokens - allianceBondAmount
      in case PartitionValidators s (map fst (ValidatorInfos s)) [] [] of
           Inl e \<Rightarrow> (Some e, s)
         | Inr (bondedValidators, unbondedValidatorShares) \<Rightarrow>
             RebalanceLoop k ctx assets nativeBondAmount unbondedValidatorShares bondedValidators s)"

definition RebalanceHook ::
  "Keeper \<Rightarrow> Context \<Rightarrow> AllianceAsset list \<Rightarrow> Store \<Rightarrow> Error option \<times> Store" where
  "RebalanceHook k ctx assets s =
     (case ConsumeAssetRebalanceEvent s of
        (True, s') \<Rightarrow> RebalanceBondTokenWeights k ctx assets s'
      | (False, s') \<Rightarrow> (None, s'))"

section \<open>A small store for concrete runs\<close>

text \<open>
  One asset of weight 2 with range [0, 5], one bonded validator, and a keeper whose
  settlement of a validator puts in front of its vector an index for the coin \<open>stake\<close>: the
  reward weight that the store holds for the asset at the moment of the settlement.
\<close>

definition ValidatorInfoOf :: "Store \<Rightarrow> ValAddress \<Rightarrow> AllianceValidatorInfo" where
  "ValidatorInfoOf s v =
     (case map_of (ValidatorInfos s) v of None \<Rightarrow> emptyValidatorInfo | Some i \<Rightarrow> i)"

definition testKeeper :: Keeper where
  "testKeeper = \<lparr> MaxDecBitLen = 315,
                   ValidatePositiveDuration = (\<lambda>d. d > 0),
                   SettleRewards =
                     (\<lambda>ctx s v info.
                        Inr ((''stake'', (case Assets s ''alliance'' of
                                            None \<Rightarrow> 0 | Some a \<Rightarrow> RewardWeight a))
                             # GlobalRewardHistory info)) \<rparr>"

definition testCtx :: Context where
  "testCtx = \<lparr> BlockTime = 1000, BlockHeight = 7 \<rparr>"

definition testAsset :: AllianceAsset where
  "testAsset = NewAllianceAsset ''alliance'' (LegacyNewDec 2) (LegacyNewDec 0) (LegacyNewDec 5) 0 10"

definition testStore :: Store where
  "testStore = \<lparr> Assets = [''alliance'' \<mapsto> testAsset],
                  ParamsOf = \<lparr> RewardDelayTime = 60, TakeRateClaimInterval = 300,
                               LastTakeRateClaimTime = 10 \<rparr>,
                  ValidatorInfos = [(''val1'', emptyValidatorInfo)],
                  Snapshots = Map.empty,
                  RebalanceQueued = False,
                  Bonded = [''val1'' \<mapsto> True],
                  ModuleDelegated = (\<lambda>v. 0),
                  TotalBonded = 1000000,
                  ModuleBalance = (\<lambda>d. 0),
                  FeeCollector = (\<lambda>d. 0),
                  Minted = 0,
                  Burned = 0 \<rparr>"

section \<open>The decay rule in the words of the specification\<close>

text \<open>
  Section 4.4: for an asset with a positive interval and a rate other than 1, once
  \<open>lastRewardChangeTime + rewardChangeInterval\<close> has elapsed, \<open>intervals\<close> is the floor of the
  time elapsed over the interval, the new weight is the weight times the rate to the power
  \<open>intervals\<close> (in the ledger's decimals), clamped to the range, and \<open>lastRewardChangeTime\<close>
  moves by \<open>intervals\<close> whole intervals; otherwise nothing changes.
\<close>

definition decay_due :: "Time \<Rightarrow> AllianceAsset \<Rightarrow> bool" where
  "decay_due now a =
     (RewardChangeInterval a > 0 \<and> RewardChangeRate a \<noteq> LegacyOneDec
      \<and> LastRewardChangeTime a + RewardChangeInterval a \<le> now)"

definition decay_spec :: "Time \<Rightarrow> AllianceAsset \<Rightarrow> AllianceAsset" where
  "decay_spec now a =
     (if RewardChangeInterval a > 0 \<and> RewardChangeRate a \<noteq> LegacyOneDec
         \<and> LastRewardChangeTime a + RewardChangeInterval a \<le> now
      then (let n = (now - LastRewardChangeTime a) div RewardChangeInterval a in
            a\<lparr> RewardWeight :=
                  max (Min_w (RewardWeightRange a))
                    (min (Max_w (RewardWeightRange a))
                       (Mul (RewardWeight a) (Power (RewardChangeRate a) (nat n)))),
               LastRewardChangeTime := LastRewardChangeTime a + n * RewardChangeInterval a \<rparr>)
      else a)"

text \<open>
  The decay of an asset stays within the capacity of the decimals when, for an asset that is
  due, neither the power \<open>rate^n\<close> nor the product of the weight with it is a multiplication
  that panics.
\<close>

definition decay_fits :: "nat \<Rightarrow> Time \<Rightarrow> AllianceAsset \<Rightarrow> bool" where
  "decay_fits bits now a =
     (decay_due now a \<longrightarrow>
        (case PowerMut bits (RewardChangeRate a)
                (nat ((now - LastRewardChangeTime a) div RewardChangeInterval a)) of
           None \<Rightarrow> False
         | Some m \<Rightarrow> MulMut bits (RewardWeight a) m \<noteq> None))"

definition testDecayAsset :: AllianceAsset where
  "testDecayAsset = testAsset\<lparr> RewardChangeRate := 5 * 10 ^ 17, RewardChangeInterval := 100 \<rparr>"

definition testDecayStore :: Store where
  "testDecayStore = testStore\<lparr> Assets := [''alliance'' \<mapsto> testDecayAsset] \<rparr>"

text \<open>An asset whose weight grows by half every nanosecond, last changed 730 ns ago.\<close>

definition testGrowAsset :: AllianceAsset where
  "testGrowAsset = testAsset\<lparr> RewardChangeRate := 15 * 10 ^ 17, RewardChangeInterval := 1,
                                LastRewardChangeTime := 270 \<rparr>"

definition testGrowStore :: Store where
  "testGrowStore = testStore\<lparr> Assets := [''alliance'' \<mapsto> testGrowAsset] \<rparr>"

section \<open>The take rate: eligibility, product, and the loop on one asset\<close>

text \<open>
  Section 4.5 of the specification: an asset is taxed when its \<open>totalTokens\<close> and \<open>takeRate\<close>
  are positive and its reward-start time has passed (\<open>take_eligible\<close>);
  \<open>multiplier = (1 - takeRate)^intervals\<close> in the ledger's decimals, and the product
  \<open>totalTokens * multiplier\<close> is \<open>take_product\<close>. \<open>take_spec\<close> is not taken from the
  specification: it is what one round of the loop of \<open>DeductAssetsWithTakeRate\<close> makes of an
  asset, used to reason about the loop. \<open>coins_ok\<close> is the invariant of \<open>sdk.Coins\<close>.
\<close>

definition take_eligible :: "Time \<Rightarrow> AllianceAsset \<Rightarrow> bool" where
  "take_eligible now a = (0 < TotalTokens a \<and> 0 < TakeRate a \<and> RewardStartTime a \<le> now)"

definition take_product :: "nat \<Rightarrow> AllianceAsset \<Rightarrow> LegacyDec" where
  "take_product n a = MulInt (Power (LegacyOneDec - TakeRate a) n) (TotalTokens a)"

definition take_spec :: "Time \<Rightarrow> nat \<Rightarrow> AllianceAsset \<Rightarrow> AllianceAsset" where
  "take_spec now n a =
     (if take_eligible now a \<and> LegacyOneDec < take_product n a
      then a\<lparr>TotalTokens := take_product n a div precisionReuse\<rparr> else a)"

definition coins_ok :: "(string \<times> int) list \<Rightarrow> bool" where
  "coins_ok cs = (distinct (map fst cs) \<and> list_all (\<lambda>c. snd c \<noteq> 0) cs)"

definition take_taxed :: "Time \<Rightarrow> nat \<Rightarrow> AllianceAsset \<Rightarrow> bool" where
  "take_taxed now n a = (take_eligible now a \<and> LegacyOneDec < take_product n a)"

text \<open>An asset with take rate 0.5 and a given number of tokens, and a store holding it.\<close>

definition testTaxAsset :: "int \<Rightarrow> AllianceAsset" where
  "testTaxAsset tokens = testAsset\<lparr> TakeRate := 5 * 10 ^ 17, TotalTokens := tokens \<rparr>"

definition testTaxStore :: "int \<Rightarrow> Store" where
  "testTaxStore tokens =
     testStore\<lparr> Assets := [''alliance'' \<mapsto> testTaxAsset tokens], ModuleBalance := (\<lambda>d. 1000) \<rparr>"

text \<open>The same store before the take-rate clock was ever set.\<close>

definition testUnsetStore :: "int \<Rightarrow> Store" where
  "testUnsetStore tokens =
     (testTaxStore tokens)
       \<lparr> ParamsOf := (ParamsOf (testTaxStore tokens))\<lparr> LastTakeRateClaimTime := zeroTime \<rparr> \<rparr>"

section \<open>Rebalancing: a delegation that needs no change\<close>

text \<open>
  The module's delegation of \<open>m\<close> tokens to a validator needs no change for the expected
  amount \<open>e\<close> when the rebalancer's difference, truncated to whole tokens, is zero on
  whichever side it lies.
\<close>

definition settledBond :: "LegacyDec \<Rightarrow> int \<Rightarrow> bool" where
  "settledBond e m =
     ((e > LegacyNewDecFromInt m \<longrightarrow> TruncateInt (e - LegacyNewDecFromInt m) = 0)
      \<and> (e < LegacyNewDecFromInt m \<longrightarrow> TruncateInt (LegacyNewDecFromInt m - e) = 0))"

text \<open>
  A store as in the keeper test of the reward pool: one million tokens of an asset of weight
  2 delegated to the one bonded validator, one million native tokens bonded, and nothing
  delegated by the module yet.
\<close>

definition testRebInfo :: AllianceValidatorInfo where
  "testRebInfo = emptyValidatorInfo\<lparr> ValidatorShares := [(''alliance'', LegacyNewDec 1000000)] \<rparr>"

definition testRebAsset :: AllianceAsset where
  "testRebAsset = testAsset\<lparr> TotalTokens := 1000000, TotalValidatorShares := LegacyNewDec 1000000 \<rparr>"

definition testRebStore :: Store where
  "testRebStore = testStore\<lparr> Assets := [''alliance'' \<mapsto> testRebAsset],
                             ValidatorInfos := [(''val1'', testRebInfo)] \<rparr>"

section \<open>Updating an asset: validation\<close>

text \<open>
  C9. An update that names a denom the store has no asset for returns the unknown-asset
  error, and an update whose reward weight lies outside the reward weight range carried by
  the asset record of the update itself returns the weight-out-of-bounds error; in both
  cases the store is returned as it was. The range of the stored asset is not consulted:
  \<open>UpdateAllianceAsset\<close> tests \<open>newAsset.RewardWeightInRange()\<close>.
\<close>

theorem UpdateAllianceAsset_rejects_without_mutation:
  "(GetAssetByDenom s (Denom newAsset) = None
      \<longrightarrow> UpdateAllianceAsset k ctx newAsset s = (Some ErrUnknownAsset, s))
   \<and> (GetAssetByDenom s (Denom newAsset) \<noteq> None
        \<and> (RewardWeight newAsset < Min_w (RewardWeightRange newAsset)
             \<or> Max_w (RewardWeightRange newAsset) < RewardWeight newAsset)
      \<longrightarrow> UpdateAllianceAsset k ctx newAsset s = (Some ErrRewardWeightOutOfBound, s))"
  by (auto simp: UpdateAllianceAsset_def)

theorem UpdateAllianceAsset_rejects_without_mutation_witness:
  "GetAssetByDenom testStore (Denom (testAsset\<lparr>Denom := ''other''\<rparr>)) = None
   \<and> UpdateAllianceAsset testKeeper testCtx (testAsset\<lparr>Denom := ''other''\<rparr>) testStore
        = (Some ErrUnknownAsset, testStore)
   \<and> GetAssetByDenom testStore (Denom (testAsset\<lparr>RewardWeight := LegacyNewDec 6\<rparr>)) \<noteq> None
   \<and> Max_w (RewardWeightRange (testAsset\<lparr>RewardWeight := LegacyNewDec 6\<rparr>))
        < RewardWeight (testAsset\<lparr>RewardWeight := LegacyNewDec 6\<rparr>)
   \<and> UpdateAllianceAsset testKeeper testCtx (testAsset\<lparr>RewardWeight := LegacyNewDec 6\<rparr>) testStore
        = (Some ErrRewardWeightOutOfBound, testStore)"
  using UpdateAllianceAsset_rejects_without_mutation
          [of testStore "testAsset\<lparr>Denom := ''other''\<rparr>" testKeeper testCtx]
        UpdateAllianceAsset_rejects_without_mutation
          [of testStore "testAsset\<lparr>RewardWeight := LegacyNewDec 6\<rparr>" testKeeper testCtx]
  by (simp add: GetAssetByDenom_def testStore_def testAsset_def NewAllianceAsset_def
      LegacyNewDec_def precisionReuse_def)

section \<open>Updating an asset: snapshots\<close>

lemma map_of_SetValidatorInfo:
  "map_of (SetValidatorInfo a i l) = (map_of l)(a \<mapsto> i)"
  by (induction l) (auto simp: fun_eq_iff)

lemma GetAllianceValidator_known:
  "Bonded s v = Some b \<Longrightarrow> GetAllianceValidator s v = Inr (b, ValidatorInfoOf s v)"
  by (simp add: GetAllianceValidator_def ValidatorInfoOf_def split: option.splits)

lemma UpdateSnapshotLoop_ok:
  assumes "distinct vs"
    and "\<forall>v\<in>set vs. Bonded s v \<noteq> None"
    and "\<forall>v\<in>set vs. \<forall>s1::Store. Assets s1 = Assets s
           \<longrightarrow> SettleRewards k ctx s1 v (ValidatorInfoOf s v) = Inr (hist v)"
  shows "\<exists>s'. UpdateSnapshotLoop k ctx asset vs s = (None, s')
     \<and> (\<forall>v\<in>set vs. Snapshots s' (Denom asset, v, uint64 (BlockHeight ctx))
            = Some \<lparr> PrevRewardWeight = RewardWeight asset, RewardHistories = hist v \<rparr>)
     \<and> (\<forall>key. (\<forall>v\<in>set vs. key \<noteq> (Denom asset, v, uint64 (BlockHeight ctx)))
            \<longrightarrow> Snapshots s' key = Snapshots s key)
     \<and> (\<forall>v\<in>set vs. ValidatorInfoOf s' v = (ValidatorInfoOf s v)\<lparr>GlobalRewardHistory := hist v\<rparr>)
     \<and> (\<forall>v. v \<notin> set vs \<longrightarrow> map_of (ValidatorInfos s') v = map_of (ValidatorInfos s) v)
     \<and> Assets s' = Assets s \<and> Bonded s' = Bonded s \<and> ParamsOf s' = ParamsOf s
     \<and> RebalanceQueued s' = RebalanceQueued s"
  using assms
proof (induction vs arbitrary: s)
  case Nil
  then show ?case by simp
next
  case (Cons v vs)
  from Cons.prems obtain b where b: "Bonded s v = Some b" by auto
  let ?info' = "(ValidatorInfoOf s v)\<lparr>GlobalRewardHistory := hist v\<rparr>"
  let ?s1 = "s\<lparr>ValidatorInfos := SetValidatorInfo v ?info' (ValidatorInfos s)\<rparr>"
  let ?s2 = "SetRewardWeightChangeSnapshot ctx asset v ?info' ?s1"
  have st: "SettleRewards k ctx s v (ValidatorInfoOf s v) = Inr (hist v)" using Cons.prems(3) by simp
  have step: "UpdateSnapshotLoop k ctx asset (v # vs) s = UpdateSnapshotLoop k ctx asset vs ?s2"
    by (simp add: GetAllianceValidator_known[OF b] ClaimValidatorRewards_def st Let_def)
  have as2: "Assets ?s2 = Assets s"
    by (simp add: SetRewardWeightChangeSnapshot_def setRewardWeightChangeSnapshot_def)
  have io: "\<And>u. u \<noteq> v \<Longrightarrow> ValidatorInfoOf ?s2 u = ValidatorInfoOf s u"
    by (simp add: ValidatorInfoOf_def SetRewardWeightChangeSnapshot_def setRewardWeightChangeSnapshot_def
        map_of_SetValidatorInfo)
  have iov: "ValidatorInfoOf ?s2 v = ?info'"
    by (simp add: ValidatorInfoOf_def SetRewardWeightChangeSnapshot_def setRewardWeightChangeSnapshot_def
        map_of_SetValidatorInfo)
  have p1: "distinct vs" using Cons.prems by simp
  have p2: "\<forall>u\<in>set vs. Bonded ?s2 u \<noteq> None" using Cons.prems
    by (simp add: SetRewardWeightChangeSnapshot_def setRewardWeightChangeSnapshot_def)
  have vn: "v \<notin> set vs" using Cons.prems by simp
  have p3: "\<forall>u\<in>set vs. \<forall>s1::Store. Assets s1 = Assets ?s2
              \<longrightarrow> SettleRewards k ctx s1 u (ValidatorInfoOf ?s2 u) = Inr (hist u)"
  proof (intro ballI allI impI)
    fix u and s1 :: Store assume u: "u \<in> set vs" and a: "Assets s1 = Assets ?s2"
    then have "u \<noteq> v" using vn by auto
    then have "ValidatorInfoOf ?s2 u = ValidatorInfoOf s u" by (rule io)
    moreover have "Assets s1 = Assets s" using a as2 by simp
    ultimately show "SettleRewards k ctx s1 u (ValidatorInfoOf ?s2 u) = Inr (hist u)"
      using Cons.prems(3) u by simp
  qed
  from Cons.IH[OF p1 p2 p3] obtain s' where
    r: "UpdateSnapshotLoop k ctx asset vs ?s2 = (None, s')"
    and a1: "\<forall>u\<in>set vs. Snapshots s' (Denom asset, u, uint64 (BlockHeight ctx))
            = Some \<lparr> PrevRewardWeight = RewardWeight asset, RewardHistories = hist u \<rparr>"
    and a2: "\<forall>key. (\<forall>u\<in>set vs. key \<noteq> (Denom asset, u, uint64 (BlockHeight ctx)))
            \<longrightarrow> Snapshots s' key = Snapshots ?s2 key"
    and a3: "\<forall>u\<in>set vs. ValidatorInfoOf s' u = (ValidatorInfoOf ?s2 u)\<lparr>GlobalRewardHistory := hist u\<rparr>"
    and a4: "\<forall>u. u \<notin> set vs \<longrightarrow> map_of (ValidatorInfos s') u = map_of (ValidatorInfos ?s2) u"
    and a5: "Assets s' = Assets ?s2" "Bonded s' = Bonded ?s2" "ParamsOf s' = ParamsOf ?s2"
       "RebalanceQueued s' = RebalanceQueued ?s2"
    by blast
  have snapv: "Snapshots s' (Denom asset, v, uint64 (BlockHeight ctx))
      = Some \<lparr> PrevRewardWeight = RewardWeight asset, RewardHistories = hist v \<rparr>"
  proof -
    have "Snapshots s' (Denom asset, v, uint64 (BlockHeight ctx))
        = Snapshots ?s2 (Denom asset, v, uint64 (BlockHeight ctx))"
      using a2 vn by blast
    then show ?thesis
      by (simp add: SetRewardWeightChangeSnapshot_def setRewardWeightChangeSnapshot_def
          NewRewardWeightChangeSnapshot_def)
  qed
  have c1: "\<forall>u\<in>set (v # vs). Snapshots s' (Denom asset, u, uint64 (BlockHeight ctx))
            = Some \<lparr> PrevRewardWeight = RewardWeight asset, RewardHistories = hist u \<rparr>"
    using a1 snapv by simp
  have c2: "\<forall>key. (\<forall>u\<in>set (v # vs). key \<noteq> (Denom asset, u, uint64 (BlockHeight ctx)))
            \<longrightarrow> Snapshots s' key = Snapshots s key"
  proof (intro allI impI)
    fix key assume h: "\<forall>u\<in>set (v # vs). key \<noteq> (Denom asset, u, uint64 (BlockHeight ctx))"
    then have h2: "\<forall>u\<in>set vs. key \<noteq> (Denom asset, u, uint64 (BlockHeight ctx))"
      and h3: "key \<noteq> (Denom asset, v, uint64 (BlockHeight ctx))" by simp_all
    have "Snapshots s' key = Snapshots ?s2 key" using a2 h2 by blast
    also have "\<dots> = Snapshots s key" using h3
      by (simp add: SetRewardWeightChangeSnapshot_def setRewardWeightChangeSnapshot_def)
    finally show "Snapshots s' key = Snapshots s key" .
  qed
  have iosv: "ValidatorInfoOf s' v = ?info'"
    using a4 vn iov by (simp add: ValidatorInfoOf_def)
  have c3: "\<forall>u\<in>set (v # vs). ValidatorInfoOf s' u = (ValidatorInfoOf s u)\<lparr>GlobalRewardHistory := hist u\<rparr>"
  proof
    fix u assume u: "u \<in> set (v # vs)"
    show "ValidatorInfoOf s' u = (ValidatorInfoOf s u)\<lparr>GlobalRewardHistory := hist u\<rparr>"
    proof (cases "u = v")
      case True
      then show ?thesis using iosv by simp
    next
      case False
      then have "u \<in> set vs" using u by simp
      then have "ValidatorInfoOf s' u = (ValidatorInfoOf ?s2 u)\<lparr>GlobalRewardHistory := hist u\<rparr>"
        using a3 by blast
      then show ?thesis using io[OF False] by simp
    qed
  qed
  have c4: "\<forall>u. u \<notin> set (v # vs) \<longrightarrow> map_of (ValidatorInfos s') u = map_of (ValidatorInfos s) u"
    using a4
    by (simp add: SetRewardWeightChangeSnapshot_def setRewardWeightChangeSnapshot_def
        map_of_SetValidatorInfo)
  have c5: "Assets s' = Assets s" "Bonded s' = Bonded s" "ParamsOf s' = ParamsOf s"
      "RebalanceQueued s' = RebalanceQueued s"
    using a5 by (simp_all add: SetRewardWeightChangeSnapshot_def setRewardWeightChangeSnapshot_def)
  show ?case using step r c1 c2 c3 c4 c5 by simp
qed

lemma UpdateAllianceAsset_effect:
  assumes found: "GetAssetByDenom s (Denom newAsset) = Some asset"
    and inrange: "Min_w (RewardWeightRange newAsset) \<le> RewardWeight newAsset
                  \<and> RewardWeight newAsset \<le> Max_w (RewardWeightRange newAsset)"
  shows "(RewardWeight newAsset = RewardWeight asset
            \<longrightarrow> (\<exists>s'. UpdateAllianceAsset k ctx newAsset s = (None, s')
                  \<and> Snapshots s' = Snapshots s
                  \<and> ValidatorInfos s' = ValidatorInfos s
                  \<and> RebalanceQueued s' = RebalanceQueued s
                  \<and> Assets s' = (Assets s)(Denom asset \<mapsto> UpdatedAsset ctx asset newAsset)))
       \<and> (RewardWeight newAsset \<noteq> RewardWeight asset
            \<and> distinct (map fst (ValidatorInfos s))
            \<and> (\<forall>v\<in>set (map fst (ValidatorInfos s)). Bonded s v \<noteq> None)
            \<and> (\<forall>v\<in>set (map fst (ValidatorInfos s)). \<forall>s1::Store. Assets s1 = Assets s
                  \<longrightarrow> SettleRewards k ctx s1 v (ValidatorInfoOf s v) = Inr (hist v))
            \<longrightarrow> (\<exists>s'. UpdateAllianceAsset k ctx newAsset s = (None, s')
                  \<and> (\<forall>v\<in>set (map fst (ValidatorInfos s)).
                        ValidatorInfoOf s' v = (ValidatorInfoOf s v)\<lparr>GlobalRewardHistory := hist v\<rparr>
                        \<and> Snapshots s' (Denom asset, v, uint64 (BlockHeight ctx))
                            = Some \<lparr> PrevRewardWeight = RewardWeight asset, RewardHistories = hist v \<rparr>)
                  \<and> (\<forall>key. (\<forall>v\<in>set (map fst (ValidatorInfos s)).
                                key \<noteq> (Denom asset, v, uint64 (BlockHeight ctx)))
                        \<longrightarrow> Snapshots s' key = Snapshots s key)
                  \<and> RebalanceQueued s'
                  \<and> Assets s' = (Assets s)(Denom asset \<mapsto> UpdatedAsset ctx asset newAsset)))"
proof (intro conjI impI)
  assume same: "RewardWeight newAsset = RewardWeight asset"
  show "\<exists>s'. UpdateAllianceAsset k ctx newAsset s = (None, s')
                  \<and> Snapshots s' = Snapshots s
                  \<and> ValidatorInfos s' = ValidatorInfos s
                  \<and> RebalanceQueued s' = RebalanceQueued s
                  \<and> Assets s' = (Assets s)(Denom asset \<mapsto> UpdatedAsset ctx asset newAsset)"
    using found inrange same
    by (simp add: UpdateAllianceAsset_def Let_def SetAsset_def UpdatedAsset_def)
next
  assume h: "RewardWeight newAsset \<noteq> RewardWeight asset
            \<and> distinct (map fst (ValidatorInfos s))
            \<and> (\<forall>v\<in>set (map fst (ValidatorInfos s)). Bonded s v \<noteq> None)
            \<and> (\<forall>v\<in>set (map fst (ValidatorInfos s)). \<forall>s1::Store. Assets s1 = Assets s
                  \<longrightarrow> SettleRewards k ctx s1 v (ValidatorInfoOf s v) = Inr (hist v))"
  from h have d: "distinct (map fst (ValidatorInfos s))"
    and b: "\<forall>v\<in>set (map fst (ValidatorInfos s)). Bonded s v \<noteq> None"
    and st: "\<forall>v\<in>set (map fst (ValidatorInfos s)). \<forall>s1::Store. Assets s1 = Assets s
                  \<longrightarrow> SettleRewards k ctx s1 v (ValidatorInfoOf s v) = Inr (hist v)"
    and ne: "RewardWeight newAsset \<noteq> RewardWeight asset" by simp_all
  from UpdateSnapshotLoop_ok[OF d b st, of asset] obtain s1 where
    r: "UpdateSnapshotLoop k ctx asset (map fst (ValidatorInfos s)) s = (None, s1)"
    and a1: "\<forall>v\<in>set (map fst (ValidatorInfos s)). Snapshots s1 (Denom asset, v, uint64 (BlockHeight ctx))
            = Some \<lparr> PrevRewardWeight = RewardWeight asset, RewardHistories = hist v \<rparr>"
    and a2: "\<forall>key. (\<forall>v\<in>set (map fst (ValidatorInfos s)). key \<noteq> (Denom asset, v, uint64 (BlockHeight ctx)))
            \<longrightarrow> Snapshots s1 key = Snapshots s key"
    and a3: "\<forall>v\<in>set (map fst (ValidatorInfos s)).
               ValidatorInfoOf s1 v = (ValidatorInfoOf s v)\<lparr>GlobalRewardHistory := hist v\<rparr>"
    and a5: "Assets s1 = Assets s"
    by blast
  obtain s' where s': "UpdateAllianceAsset k ctx newAsset s = (None, s')"
    and sn: "Snapshots s' = Snapshots s1" and vi: "ValidatorInfos s' = ValidatorInfos s1"
    and q: "RebalanceQueued s'"
    and as: "Assets s' = (Assets s)(Denom asset \<mapsto> UpdatedAsset ctx asset newAsset)"
    using found inrange ne r a5
    by (simp add: UpdateAllianceAsset_def Let_def SetAsset_def QueueAssetRebalanceEvent_def
        UpdatedAsset_def)
  have io: "\<And>v. ValidatorInfoOf s' v = ValidatorInfoOf s1 v"
    by (simp add: ValidatorInfoOf_def vi)
  show "\<exists>s'. UpdateAllianceAsset k ctx newAsset s = (None, s')
                  \<and> (\<forall>v\<in>set (map fst (ValidatorInfos s)).
                        ValidatorInfoOf s' v = (ValidatorInfoOf s v)\<lparr>GlobalRewardHistory := hist v\<rparr>
                        \<and> Snapshots s' (Denom asset, v, uint64 (BlockHeight ctx))
                            = Some \<lparr> PrevRewardWeight = RewardWeight asset, RewardHistories = hist v \<rparr>)
                  \<and> (\<forall>key. (\<forall>v\<in>set (map fst (ValidatorInfos s)).
                                key \<noteq> (Denom asset, v, uint64 (BlockHeight ctx)))
                        \<longrightarrow> Snapshots s' key = Snapshots s key)
                  \<and> RebalanceQueued s'
                  \<and> Assets s' = (Assets s)(Denom asset \<mapsto> UpdatedAsset ctx asset newAsset)"
    using s' a1 a2 a3 q as by (simp add: sn io)
qed

lemma test_update_facts:
  "GetAssetByDenom testStore ''alliance'' = Some testAsset"
  "Denom testAsset = ''alliance''"
  "RewardWeight testAsset = LegacyNewDec 2"
  "RewardWeightRange testAsset = \<lparr> Min_w = LegacyNewDec 0, Max_w = LegacyNewDec 5 \<rparr>"
  "map fst (ValidatorInfos testStore) = [''val1'']"
  "Bonded testStore ''val1'' = Some True"
  "uint64 (BlockHeight testCtx) = 7"
  "Snapshots testStore = Map.empty"
  "Assets s1 = Assets testStore \<Longrightarrow>
     SettleRewards testKeeper c s1 v (ValidatorInfoOf testStore v)
       = Inr [(''stake'', LegacyNewDec 2)]"
  by (simp_all add: GetAssetByDenom_def testStore_def testAsset_def NewAllianceAsset_def
      testCtx_def uint64_def testKeeper_def ValidatorInfoOf_def emptyValidatorInfo_def)

text \<open>
  C6. An update that leaves the reward weight as it is succeeds, settles no validator,
  writes no snapshot and queues no rebalance; it writes the asset record with the fields an
  update may change. An update to a different weight, over validators known to the bonding
  subsystem, first settles each validator while the store still holds the asset records of
  before the update (\<open>hist v\<close> is what the settlement of \<open>v\<close> yields on any store with
  those asset records, so at the old weight): the validator's record then holds \<open>hist v\<close>,
  and one snapshot is written for it under (denom, validator, current height), holding the
  reward weight of before the change and \<open>hist v\<close>. No other snapshot entry is touched, a
  rebalance is queued, and only then the asset record takes the new weight.
\<close>

theorem UpdateAllianceAsset_snapshots:
  assumes "GetAssetByDenom s (Denom newAsset) = Some asset"
    and "Min_w (RewardWeightRange newAsset) \<le> RewardWeight newAsset
         \<and> RewardWeight newAsset \<le> Max_w (RewardWeightRange newAsset)"
  shows "(RewardWeight newAsset = RewardWeight asset
            \<longrightarrow> (\<exists>s'. UpdateAllianceAsset k ctx newAsset s = (None, s')
                  \<and> Snapshots s' = Snapshots s
                  \<and> ValidatorInfos s' = ValidatorInfos s
                  \<and> RebalanceQueued s' = RebalanceQueued s
                  \<and> Assets s' = (Assets s)(Denom asset \<mapsto> UpdatedAsset ctx asset newAsset)))
       \<and> (RewardWeight newAsset \<noteq> RewardWeight asset
            \<and> distinct (map fst (ValidatorInfos s))
            \<and> (\<forall>v\<in>set (map fst (ValidatorInfos s)). Bonded s v \<noteq> None)
            \<and> (\<forall>v\<in>set (map fst (ValidatorInfos s)). \<forall>s1::Store. Assets s1 = Assets s
                  \<longrightarrow> SettleRewards k ctx s1 v (ValidatorInfoOf s v) = Inr (hist v))
            \<longrightarrow> (\<exists>s'. UpdateAllianceAsset k ctx newAsset s = (None, s')
                  \<and> (\<forall>v\<in>set (map fst (ValidatorInfos s)).
                        ValidatorInfoOf s' v = (ValidatorInfoOf s v)\<lparr>GlobalRewardHistory := hist v\<rparr>
                        \<and> Snapshots s' (Denom asset, v, uint64 (BlockHeight ctx))
                            = Some \<lparr> PrevRewardWeight = RewardWeight asset, RewardHistories = hist v \<rparr>)
                  \<and> (\<forall>key. (\<forall>v\<in>set (map fst (ValidatorInfos s)).
                                key \<noteq> (Denom asset, v, uint64 (BlockHeight ctx)))
                        \<longrightarrow> Snapshots s' key = Snapshots s key)
                  \<and> RebalanceQueued s'
                  \<and> Assets s' = (Assets s)(Denom asset \<mapsto> UpdatedAsset ctx asset newAsset)))"
  by (rule UpdateAllianceAsset_effect[OF assms])

theorem UpdateAllianceAsset_snapshots_witness:
  "GetAssetByDenom testStore (Denom (testAsset\<lparr>RewardWeight := LegacyNewDec 3\<rparr>)) = Some testAsset
   \<and> Min_w (RewardWeightRange (testAsset\<lparr>RewardWeight := LegacyNewDec 3\<rparr>))
        \<le> RewardWeight (testAsset\<lparr>RewardWeight := LegacyNewDec 3\<rparr>)
   \<and> RewardWeight (testAsset\<lparr>RewardWeight := LegacyNewDec 3\<rparr>)
        \<le> Max_w (RewardWeightRange (testAsset\<lparr>RewardWeight := LegacyNewDec 3\<rparr>))
   \<and> RewardWeight (testAsset\<lparr>RewardWeight := LegacyNewDec 3\<rparr>) \<noteq> RewardWeight testAsset
   \<and> map fst (ValidatorInfos testStore) = [''val1'']
   \<and> Bonded testStore ''val1'' \<noteq> None
   \<and> SettleRewards testKeeper testCtx testStore ''val1'' (ValidatorInfoOf testStore ''val1'')
        = Inr [(''stake'', LegacyNewDec 2)]
   \<and> (\<exists>s'. UpdateAllianceAsset testKeeper testCtx (testAsset\<lparr>RewardWeight := LegacyNewDec 3\<rparr>) testStore
              = (None, s')
         \<and> Snapshots s' (''alliance'', ''val1'', 7)
              = Some \<lparr> PrevRewardWeight = LegacyNewDec 2,
                       RewardHistories = [(''stake'', LegacyNewDec 2)] \<rparr>
         \<and> GlobalRewardHistory (ValidatorInfoOf s' ''val1'') = [(''stake'', LegacyNewDec 2)]
         \<and> map_option RewardWeight (Assets s' ''alliance'') = Some (LegacyNewDec 3)
         \<and> RebalanceQueued s')
   \<and> RewardWeight (testAsset\<lparr>TakeRate := 1\<rparr>) = RewardWeight testAsset
   \<and> (\<exists>s'. UpdateAllianceAsset testKeeper testCtx (testAsset\<lparr>TakeRate := 1\<rparr>) testStore = (None, s')
         \<and> Snapshots s' = Snapshots testStore
         \<and> ValidatorInfos s' = ValidatorInfos testStore
         \<and> map_option TakeRate (Assets s' ''alliance'') = Some 1)"
proof -
  note tf = test_update_facts
  let ?n = "testAsset\<lparr>RewardWeight := LegacyNewDec 3\<rparr>" and ?m = "testAsset\<lparr>TakeRate := 1\<rparr>"
  have f: "GetAssetByDenom testStore (Denom ?n) = Some testAsset"
    and f2: "GetAssetByDenom testStore (Denom ?m) = Some testAsset"
    by (simp_all add: tf)
  have r: "Min_w (RewardWeightRange ?n) \<le> RewardWeight ?n
     \<and> RewardWeight ?n \<le> Max_w (RewardWeightRange ?n)"
    and r2: "Min_w (RewardWeightRange ?m) \<le> RewardWeight ?m
     \<and> RewardWeight ?m \<le> Max_w (RewardWeightRange ?m)"
    by (simp_all add: tf LegacyNewDec_def precisionReuse_def)
  have ne: "RewardWeight ?n \<noteq> RewardWeight testAsset"
    by (simp add: tf LegacyNewDec_def precisionReuse_def)
  have h: "RewardWeight ?n \<noteq> RewardWeight testAsset
   \<and> distinct (map fst (ValidatorInfos testStore))
   \<and> (\<forall>v\<in>set (map fst (ValidatorInfos testStore)). Bonded testStore v \<noteq> None)
   \<and> (\<forall>v\<in>set (map fst (ValidatorInfos testStore)). \<forall>s1::Store. Assets s1 = Assets testStore
         \<longrightarrow> SettleRewards testKeeper testCtx s1 v (ValidatorInfoOf testStore v)
               = Inr [(''stake'', LegacyNewDec 2)])"
    using ne by (simp add: tf)
  from UpdateAllianceAsset_snapshots[OF f r, of testKeeper testCtx "\<lambda>v. [(''stake'', LegacyNewDec 2)]"] h
  obtain s' where
    u: "UpdateAllianceAsset testKeeper testCtx ?n testStore = (None, s')"
    and i: "ValidatorInfoOf s' ''val1''
              = (ValidatorInfoOf testStore ''val1'')\<lparr>GlobalRewardHistory := [(''stake'', LegacyNewDec 2)]\<rparr>"
    and sn: "Snapshots s' (''alliance'', ''val1'', 7)
              = Some \<lparr> PrevRewardWeight = LegacyNewDec 2,
                       RewardHistories = [(''stake'', LegacyNewDec 2)] \<rparr>"
    and q: "RebalanceQueued s'"
    and a: "Assets s' = (Assets testStore)(''alliance'' \<mapsto> UpdatedAsset testCtx testAsset ?n)"
    by (auto simp: tf)
  have c1: "\<exists>s'. UpdateAllianceAsset testKeeper testCtx ?n testStore = (None, s')
         \<and> Snapshots s' (''alliance'', ''val1'', 7)
              = Some \<lparr> PrevRewardWeight = LegacyNewDec 2,
                       RewardHistories = [(''stake'', LegacyNewDec 2)] \<rparr>
         \<and> GlobalRewardHistory (ValidatorInfoOf s' ''val1'') = [(''stake'', LegacyNewDec 2)]
         \<and> map_option RewardWeight (Assets s' ''alliance'') = Some (LegacyNewDec 3)
         \<and> RebalanceQueued s'"
    using u i sn q a by (intro exI[of _ s']) (simp add: UpdatedAsset_def)
  from UpdateAllianceAsset_snapshots[OF f2 r2, of testKeeper testCtx "\<lambda>v. []"]
  obtain s2 where
    "UpdateAllianceAsset testKeeper testCtx ?m testStore = (None, s2)"
    "Snapshots s2 = Snapshots testStore" "ValidatorInfos s2 = ValidatorInfos testStore"
    "Assets s2 = (Assets testStore)(''alliance'' \<mapsto> UpdatedAsset testCtx testAsset ?m)"
    by (auto simp: tf)
  then have c2: "\<exists>s'. UpdateAllianceAsset testKeeper testCtx ?m testStore = (None, s')
         \<and> Snapshots s' = Snapshots testStore
         \<and> ValidatorInfos s' = ValidatorInfos testStore
         \<and> map_option TakeRate (Assets s' ''alliance'') = Some 1"
    by (intro exI[of _ s2]) (simp add: UpdatedAsset_def)
  have st: "SettleRewards testKeeper testCtx testStore ''val1'' (ValidatorInfoOf testStore ''val1'')
        = Inr [(''stake'', LegacyNewDec 2)]"
    by (rule tf(9)) simp
  show ?thesis using f r ne c1 c2 st by (simp add: tf)
qed

section \<open>Updating an asset: the range that is checked\<close>

text \<open>
  The stored asset has the reward weight range [0, 5]. An update to weight 20 that carries
  the range [5, 25] is accepted: the stored weight becomes 20, outside the range of the
  stored asset, which stays [0, 5] since the range is not a field an update writes.
\<close>

theorem UpdateAllianceAsset_stored_range_counterexample:
  "GetAssetByDenom testStore ''alliance'' = Some testAsset
   \<and> RewardWeightRange testAsset = \<lparr> Min_w = LegacyNewDec 0, Max_w = LegacyNewDec 5 \<rparr>
   \<and> LegacyNewDec 5 < LegacyNewDec 20
   \<and> (\<exists>s'. UpdateAllianceAsset testKeeper testCtx
               (testAsset\<lparr> RewardWeight := LegacyNewDec 20,
                   RewardWeightRange := \<lparr> Min_w = LegacyNewDec 5, Max_w = LegacyNewDec 25 \<rparr> \<rparr>)
               testStore = (None, s')
          \<and> s' \<noteq> testStore
          \<and> map_option RewardWeight (Assets s' ''alliance'') = Some (LegacyNewDec 20)
          \<and> map_option RewardWeightRange (Assets s' ''alliance'')
               = Some \<lparr> Min_w = LegacyNewDec 0, Max_w = LegacyNewDec 5 \<rparr>)"
proof -
  note tf = test_update_facts
  let ?n = "testAsset\<lparr> RewardWeight := LegacyNewDec 20,
                   RewardWeightRange := \<lparr> Min_w = LegacyNewDec 5, Max_w = LegacyNewDec 25 \<rparr> \<rparr>"
  have f: "GetAssetByDenom testStore (Denom ?n) = Some testAsset" by (simp add: tf)
  have r: "Min_w (RewardWeightRange ?n) \<le> RewardWeight ?n
     \<and> RewardWeight ?n \<le> Max_w (RewardWeightRange ?n)"
    by (simp add: LegacyNewDec_def precisionReuse_def)
  have ne: "RewardWeight ?n \<noteq> RewardWeight testAsset"
    by (simp add: tf LegacyNewDec_def precisionReuse_def)
  have h: "RewardWeight ?n \<noteq> RewardWeight testAsset
   \<and> distinct (map fst (ValidatorInfos testStore))
   \<and> (\<forall>v\<in>set (map fst (ValidatorInfos testStore)). Bonded testStore v \<noteq> None)
   \<and> (\<forall>v\<in>set (map fst (ValidatorInfos testStore)). \<forall>s1::Store. Assets s1 = Assets testStore
         \<longrightarrow> SettleRewards testKeeper testCtx s1 v (ValidatorInfoOf testStore v)
               = Inr [(''stake'', LegacyNewDec 2)])"
    using ne by (simp add: tf)
  from UpdateAllianceAsset_effect[OF f r, of testKeeper testCtx "\<lambda>v. [(''stake'', LegacyNewDec 2)]"] h
  obtain s' where
    u: "UpdateAllianceAsset testKeeper testCtx ?n testStore = (None, s')"
    and a: "Assets s' = (Assets testStore)(''alliance'' \<mapsto> UpdatedAsset testCtx testAsset ?n)"
    by (auto simp: tf)
  have w: "map_option RewardWeight (Assets s' ''alliance'') = Some (LegacyNewDec 20)"
    and g: "map_option RewardWeightRange (Assets s' ''alliance'')
               = Some \<lparr> Min_w = LegacyNewDec 0, Max_w = LegacyNewDec 5 \<rparr>"
    using a by (simp_all add: UpdatedAsset_def tf)
  have "map_option RewardWeight (Assets testStore ''alliance'') = Some (LegacyNewDec 2)"
    using tf(1) tf(3) by (simp add: GetAssetByDenom_def)
  then have d: "s' \<noteq> testStore" using w by (auto simp: LegacyNewDec_def precisionReuse_def)
  have "\<exists>s'. UpdateAllianceAsset testKeeper testCtx ?n testStore = (None, s')
          \<and> s' \<noteq> testStore
          \<and> map_option RewardWeight (Assets s' ''alliance'') = Some (LegacyNewDec 20)
          \<and> map_option RewardWeightRange (Assets s' ''alliance'')
               = Some \<lparr> Min_w = LegacyNewDec 0, Max_w = LegacyNewDec 5 \<rparr>"
    using u d w g by blast
  then show ?thesis by (simp add: tf LegacyNewDec_def precisionReuse_def)
qed

section \<open>Decay of reward weights\<close>

lemma map_fst_SetValidatorInfo:
  "a \<in> set (map fst l) \<Longrightarrow> map fst (SetValidatorInfo a i l) = map fst l"
  by (induction l) force+

lemma UpdateSnapshotLoop_total:
  assumes "\<forall>v\<in>set vs. Bonded s v \<noteq> None"
    and "set vs \<subseteq> set (map fst (ValidatorInfos s))"
    and "\<forall>s1 v info. \<exists>h. SettleRewards k ctx s1 v info = Inr h"
  shows "\<exists>s'. UpdateSnapshotLoop k ctx asset vs s = (None, s')
           \<and> Assets s' = Assets s \<and> Bonded s' = Bonded s
           \<and> map fst (ValidatorInfos s') = map fst (ValidatorInfos s)"
  using assms
proof (induction vs arbitrary: s)
  case Nil
  then show ?case by simp
next
  case (Cons v vs)
  from Cons.prems obtain b where b: "Bonded s v = Some b" by auto
  from Cons.prems(3) obtain h where h: "SettleRewards k ctx s v (ValidatorInfoOf s v) = Inr h" by blast
  let ?info' = "(ValidatorInfoOf s v)\<lparr>GlobalRewardHistory := h\<rparr>"
  let ?s2 = "SetRewardWeightChangeSnapshot ctx asset v ?info'
               (s\<lparr>ValidatorInfos := SetValidatorInfo v ?info' (ValidatorInfos s)\<rparr>)"
  have step: "UpdateSnapshotLoop k ctx asset (v # vs) s = UpdateSnapshotLoop k ctx asset vs ?s2"
    by (simp add: GetAllianceValidator_known[OF b] ClaimValidatorRewards_def h Let_def)
  have vin: "v \<in> set (map fst (ValidatorInfos s))" using Cons.prems(2) by simp
  have keys: "map fst (ValidatorInfos ?s2) = map fst (ValidatorInfos s)"
    using map_fst_SetValidatorInfo[OF vin]
    by (simp add: SetRewardWeightChangeSnapshot_def setRewardWeightChangeSnapshot_def)
  have fr: "Assets ?s2 = Assets s" "Bonded ?s2 = Bonded s"
    by (simp_all add: SetRewardWeightChangeSnapshot_def setRewardWeightChangeSnapshot_def)
  have p1: "\<forall>u\<in>set vs. Bonded ?s2 u \<noteq> None" using Cons.prems(1) fr by simp
  have p2: "set vs \<subseteq> set (map fst (ValidatorInfos ?s2))" using Cons.prems(2) keys by simp
  from Cons.IH[OF p1 p2 Cons.prems(3)] obtain s' where
    "UpdateSnapshotLoop k ctx asset vs ?s2 = (None, s')" "Assets s' = Assets ?s2"
    "Bonded s' = Bonded ?s2" "map fst (ValidatorInfos s') = map fst (ValidatorInfos ?s2)"
    by blast
  then show ?case using step keys fr by simp
qed

lemma UpdateAllianceAsset_total:
  assumes st: "Assets s (Denom a') = Some a"
    and rng: "Min_w (RewardWeightRange a') \<le> RewardWeight a'"
             "RewardWeight a' \<le> Max_w (RewardWeightRange a')"
    and same: "RewardChangeRate a' = RewardChangeRate a" "RewardChangeInterval a' = RewardChangeInterval a"
    and known: "\<forall>v\<in>set (map fst (ValidatorInfos s)). Bonded s v \<noteq> None"
    and settle: "\<forall>s1 v info. \<exists>h. SettleRewards k ctx s1 v info = Inr h"
  shows "\<exists>s'. UpdateAllianceAsset k ctx a' s = (None, s')
           \<and> Assets s' = (Assets s)(Denom a \<mapsto> a\<lparr> TakeRate := TakeRate a',
                                   RewardWeight := RewardWeight a',
                                   RewardChangeRate := RewardChangeRate a',
                                   RewardChangeInterval := RewardChangeInterval a',
                                   LastRewardChangeTime := LastRewardChangeTime a' \<rparr>)
           \<and> Bonded s' = Bonded s
           \<and> map fst (ValidatorInfos s') = map fst (ValidatorInfos s)"
proof (cases "RewardWeight a' = RewardWeight a")
  case True
  then show ?thesis using st rng same
    by (simp add: UpdateAllianceAsset_def GetAssetByDenom_def Let_def SetAsset_def)
next
  case False
  have "\<exists>s1. UpdateSnapshotLoop k ctx a (map fst (ValidatorInfos s)) s = (None, s1)
           \<and> Assets s1 = Assets s \<and> Bonded s1 = Bonded s
           \<and> map fst (ValidatorInfos s1) = map fst (ValidatorInfos s)"
    by (rule UpdateSnapshotLoop_total[OF known _ settle]) simp
  then obtain s1 where "UpdateSnapshotLoop k ctx a (map fst (ValidatorInfos s)) s = (None, s1)"
    "Assets s1 = Assets s" "Bonded s1 = Bonded s"
    "map fst (ValidatorInfos s1) = map fst (ValidatorInfos s)" by auto
  then show ?thesis using st rng same False
    by (simp add: UpdateAllianceAsset_def GetAssetByDenom_def Let_def SetAsset_def
        QueueAssetRebalanceEvent_def)
qed


lemma int64_id: "- (2 ^ 63) \<le> x \<Longrightarrow> x < 2 ^ 63 \<Longrightarrow> int64 x = x"
  by (simp add: int64_def)

lemma uint64_id: "0 \<le> x \<Longrightarrow> x < 2 ^ 64 \<Longrightarrow> uint64 x = x"
  by (simp add: uint64_def)

lemma bigQuo_pos: "0 \<le> a \<Longrightarrow> 0 < b \<Longrightarrow> bigQuo a b = a div b"
  by (cases "a = 0") (simp_all add: bigQuo_def)

lemma intervals_count:
  assumes i: "0 < i" and d: "0 \<le> d" and m: "d \<le> maxDuration"
  shows "uint64 (int64 (bigQuo d i)) = d div i"
    and "int64 (i * int64 (d div i)) = (d div i) * i"
proof -
  have q0: "0 \<le> d div i" using i d by (simp add: pos_imp_zdiv_nonneg_iff)
  have "d div i \<le> d div 1" using d i by (intro zdiv_mono2) simp_all
  then have qd: "d div i \<le> d" by simp
  have qm: "d div i < 2 ^ 63" using qd m by (simp add: maxDuration_def)
  have a: "int64 (bigQuo d i) = d div i"
    using q0 qm by (simp add: bigQuo_pos[OF d i] int64_id)
  show b: "uint64 (int64 (bigQuo d i)) = d div i"
    using q0 qm by (simp add: a uint64_id)
  have p0: "0 \<le> i * (d div i)" using i q0 by simp
  have "i * (d div i) + d mod i = d" by simp
  moreover have "0 \<le> d mod i" using i by simp
  ultimately have "i * (d div i) \<le> d" by linarith
  then have pm: "i * (d div i) < 2 ^ 63" using m by (simp add: maxDuration_def)
  show "int64 (i * int64 (d div i)) = (d div i) * i"
    using q0 qm p0 pm by (simp add: int64_id mult.commute)
qed

lemma MulMut_Some: "MulMut bits a b = Some c \<Longrightarrow> c = Mul a b"
  by (simp add: MulMut_def Mul_def Let_def split: if_splits)

lemma PowerMutLoop_Some: "PowerMutLoop bits i d tmp = Some r \<Longrightarrow> r = PowerLoop i d tmp"
proof (induction bits i d tmp rule: PowerMutLoop.induct)
  case (1 bits i d tmp)
  show ?case
  proof (cases "i > 1")
    case True
    from "1.prems" True obtain tmp' d' where
      t: "(if i mod 2 \<noteq> 0 then MulMut bits tmp d else Some tmp) = Some tmp'"
      and dd: "MulMut bits d d = Some d'"
      and rr: "PowerMutLoop bits (i div 2) d' tmp' = Some r"
      by (subst (asm) PowerMutLoop.simps) (simp split: option.splits)
    have t': "tmp' = (if i mod 2 \<noteq> 0 then Mul tmp d else tmp)"
      using t MulMut_Some by (auto split: if_splits)
    have d': "d' = Mul d d" using dd by (rule MulMut_Some)
    have "r = PowerLoop (i div 2) d' tmp'" using "1.IH"[OF True t dd rr] .
    then show ?thesis using True t' d' by (subst PowerLoop.simps) simp
  next
    case False
    then have "MulMut bits d tmp = Some r"
      using "1.prems" by (subst (asm) PowerMutLoop.simps) simp
    then show ?thesis using False MulMut_Some by (subst PowerLoop.simps) simp
  qed
qed

lemma PowerMut_Some: "PowerMut bits d n = Some r \<Longrightarrow> r = Power d n"
  using PowerMutLoop_Some by (auto simp: PowerMut_def Power_def split: if_splits)

lemma DecayAsset_eq:
  assumes i: "0 < RewardChangeInterval a"
    and due: "LastRewardChangeTime a + RewardChangeInterval a \<le> BlockTime ctx"
    and fit: "BlockTime ctx - LastRewardChangeTime a \<le> maxDuration"
  shows "DecayAsset k ctx a =
     (case PowerMut (MaxDecBitLen k) (RewardChangeRate a)
             (nat ((BlockTime ctx - LastRewardChangeTime a) div RewardChangeInterval a)) of
        None \<Rightarrow> None
      | Some m \<Rightarrow>
          (case MulMut (MaxDecBitLen k) (RewardWeight a) m of
             None \<Rightarrow> None
           | Some w \<Rightarrow>
               Some (a\<lparr> RewardWeight :=
                          (let w1 = (if w < Min_w (RewardWeightRange a)
                                     then Min_w (RewardWeightRange a) else w)
                           in if w1 > Max_w (RewardWeightRange a)
                              then Max_w (RewardWeightRange a) else w1),
                        LastRewardChangeTime :=
                          LastRewardChangeTime a
                          + (BlockTime ctx - LastRewardChangeTime a) div RewardChangeInterval a
                            * RewardChangeInterval a \<rparr>)))"
proof -
  let ?d = "BlockTime ctx - LastRewardChangeTime a"
  have d0: "0 \<le> ?d" using i due by simp
  have ts: "TimeSub (BlockTime ctx) (LastRewardChangeTime a) = ?d"
    using d0 fit by (simp add: TimeSub_def minDuration_def)
  note ic = intervals_count[OF i d0 fit]
  show ?thesis
    by (simp add: DecayAsset_def Let_def ts ic TimeAdd_def
        cong: option.case_cong split: option.splits)
qed

lemma DecayAsset_decay_spec:
  assumes i: "0 < RewardChangeInterval a"
    and r: "RewardChangeRate a \<noteq> LegacyOneDec"
    and due: "LastRewardChangeTime a + RewardChangeInterval a \<le> BlockTime ctx"
    and fit: "BlockTime ctx - LastRewardChangeTime a \<le> maxDuration"
    and rng: "Min_w (RewardWeightRange a) \<le> Max_w (RewardWeightRange a)"
    and cap: "decay_fits (MaxDecBitLen k) (BlockTime ctx) a"
  shows "DecayAsset k ctx a = Some (decay_spec (BlockTime ctx) a)"
proof -
  let ?n = "nat ((BlockTime ctx - LastRewardChangeTime a) div RewardChangeInterval a)"
  have "decay_due (BlockTime ctx) a" using i r due by (simp add: decay_due_def)
  with cap obtain m w where
    m: "PowerMut (MaxDecBitLen k) (RewardChangeRate a) ?n = Some m"
    and w: "MulMut (MaxDecBitLen k) (RewardWeight a) m = Some w"
    by (auto simp: decay_fits_def split: option.splits)
  have m': "m = Power (RewardChangeRate a) ?n" using m by (rule PowerMut_Some)
  have w': "w = Mul (RewardWeight a) (Power (RewardChangeRate a) ?n)"
    using w m' MulMut_Some by simp
  show ?thesis
    using i r due rng
    by (simp add: DecayAsset_eq[OF i due fit] m w decay_spec_def Let_def max_def min_def
        w'[symmetric] mult.commute)
qed


lemma decay_spec_not_due: "\<not> decay_due now a \<Longrightarrow> decay_spec now a = a"
  by (auto simp: decay_spec_def decay_due_def)

lemma decay_spec_fields:
  "Denom (decay_spec now a) = Denom a"
  "RewardWeightRange (decay_spec now a) = RewardWeightRange a"
  "RewardChangeRate (decay_spec now a) = RewardChangeRate a"
  "RewardChangeInterval (decay_spec now a) = RewardChangeInterval a"
  by (simp_all add: decay_spec_def Let_def)

lemma decay_spec_in_range:
  "Min_w (RewardWeightRange a) \<le> Max_w (RewardWeightRange a) \<Longrightarrow> decay_due now a \<Longrightarrow>
   Min_w (RewardWeightRange a) \<le> RewardWeight (decay_spec now a)
   \<and> RewardWeight (decay_spec now a) \<le> Max_w (RewardWeightRange a)"
  by (simp add: decay_spec_def decay_due_def Let_def)

lemma decay_spec_whitelist:
  "a\<lparr> TakeRate := TakeRate (decay_spec now a),
      RewardWeight := RewardWeight (decay_spec now a),
      RewardChangeRate := RewardChangeRate (decay_spec now a),
      RewardChangeInterval := RewardChangeInterval (decay_spec now a),
      LastRewardChangeTime := LastRewardChangeTime (decay_spec now a) \<rparr> = decay_spec now a"
  by (simp add: decay_spec_def Let_def)

lemma RewardWeightChangeHook_ok:
  assumes known: "\<forall>v\<in>set (map fst (ValidatorInfos s)). Bonded s v \<noteq> None"
    and settle: "\<forall>s1 v info. \<exists>h. SettleRewards k ctx s1 v info = Inr h"
    and dist: "distinct (map Denom assets)"
    and each: "\<forall>a\<in>set assets. Assets s (Denom a) = Some a \<and> 0 \<le> RewardChangeInterval a
                 \<and> Min_w (RewardWeightRange a) \<le> Max_w (RewardWeightRange a)
                 \<and> BlockTime ctx - LastRewardChangeTime a \<le> maxDuration
                 \<and> decay_fits (MaxDecBitLen k) (BlockTime ctx) a"
  shows "\<exists>s'. RewardWeightChangeHook k ctx assets s
                 = (None, map (decay_spec (BlockTime ctx)) assets, s')
           \<and> (\<forall>a\<in>set assets. Assets s' (Denom a) = Some (decay_spec (BlockTime ctx) a))
           \<and> (\<forall>d. d \<notin> Denom ` set assets \<longrightarrow> Assets s' d = Assets s d)
           \<and> Bonded s' = Bonded s
           \<and> map fst (ValidatorInfos s') = map fst (ValidatorInfos s)
           \<and> ((\<forall>a\<in>set assets. \<not> decay_due (BlockTime ctx) a) \<longrightarrow> s' = s)"
  using known dist each
proof (induction assets arbitrary: s)
  case Nil
  then show ?case by simp
next
  case (Cons a assets)
  let ?now = "BlockTime ctx"
  have a_st: "Assets s (Denom a) = Some a" and a_i: "0 \<le> RewardChangeInterval a"
    and a_r: "Min_w (RewardWeightRange a) \<le> Max_w (RewardWeightRange a)"
    and a_f: "?now - LastRewardChangeTime a \<le> maxDuration"
    and a_c: "decay_fits (MaxDecBitLen k) ?now a"
    using Cons.prems(3) by simp_all
  have dist': "distinct (map Denom assets)" and an: "Denom a \<notin> Denom ` set assets"
    using Cons.prems(2) by simp_all
  show ?case
  proof (cases "decay_due ?now a")
    case False
    have each': "\<forall>b\<in>set assets. Assets s (Denom b) = Some b \<and> 0 \<le> RewardChangeInterval b
                 \<and> Min_w (RewardWeightRange b) \<le> Max_w (RewardWeightRange b)
                 \<and> ?now - LastRewardChangeTime b \<le> maxDuration
                 \<and> decay_fits (MaxDecBitLen k) ?now b"
      using Cons.prems(3) by simp
    from Cons.IH[OF Cons.prems(1) dist' each'] obtain s' where
      r: "RewardWeightChangeHook k ctx assets s = (None, map (decay_spec ?now) assets, s')"
      and c1: "\<forall>b\<in>set assets. Assets s' (Denom b) = Some (decay_spec ?now b)"
      and c2: "\<forall>d. d \<notin> Denom ` set assets \<longrightarrow> Assets s' d = Assets s d"
      and c3: "Bonded s' = Bonded s" "map fst (ValidatorInfos s') = map fst (ValidatorInfos s)"
      and c4: "(\<forall>b\<in>set assets. \<not> decay_due ?now b) \<longrightarrow> s' = s"
      by blast
    have skip: "RewardChangeInterval a = 0 \<or> RewardChangeRate a = LegacyOneDec
                \<or> TimeAdd (LastRewardChangeTime a) (RewardChangeInterval a) > ?now"
      using False a_i by (auto simp: decay_due_def TimeAdd_def)
    have step: "RewardWeightChangeHook k ctx (a # assets) s
                  = (None, a # map (decay_spec ?now) assets, s')"
      using skip r by auto
    have sa: "Assets s' (Denom a) = Some a" using c2 an a_st by simp
    show ?thesis
      using step c1 c2 c3 c4 sa decay_spec_not_due[OF False] by simp
  next
    case True
    let ?a' = "decay_spec ?now a"
    have da: "DecayAsset k ctx a = Some ?a'"
      using True a_f a_r a_c by (intro DecayAsset_decay_spec) (simp_all add: decay_due_def)
    have noskip: "\<not> (RewardChangeInterval a = 0 \<or> RewardChangeRate a = LegacyOneDec)"
      "\<not> TimeAdd (LastRewardChangeTime a) (RewardChangeInterval a) > ?now"
      using True by (auto simp: decay_due_def TimeAdd_def)
    let ?q = "QueueAssetRebalanceEvent s"
    have q_st: "Assets ?q (Denom ?a') = Some a"
      using a_st by (simp add: QueueAssetRebalanceEvent_def decay_spec_fields)
    have q_known: "\<forall>v\<in>set (map fst (ValidatorInfos ?q)). Bonded ?q v \<noteq> None"
      using Cons.prems(1) by (simp add: QueueAssetRebalanceEvent_def)
    note rg = decay_spec_in_range[OF a_r True]
    from UpdateAllianceAsset_total[OF q_st _ _ _ _ q_known settle] rg
    obtain s1 where
      u: "UpdateAllianceAsset k ctx ?a' ?q = (None, s1)"
      and u1: "Assets s1 = (Assets ?q)(Denom a \<mapsto> a\<lparr> TakeRate := TakeRate ?a',
                                   RewardWeight := RewardWeight ?a',
                                   RewardChangeRate := RewardChangeRate ?a',
                                   RewardChangeInterval := RewardChangeInterval ?a',
                                   LastRewardChangeTime := LastRewardChangeTime ?a' \<rparr>)"
      and u2: "Bonded s1 = Bonded ?q" "map fst (ValidatorInfos s1) = map fst (ValidatorInfos ?q)"
      by (auto simp: decay_spec_fields)
    have u1': "Assets s1 = (Assets s)(Denom a \<mapsto> ?a')"
      using u1 by (simp add: decay_spec_whitelist QueueAssetRebalanceEvent_def)
    have known1: "\<forall>v\<in>set (map fst (ValidatorInfos s1)). Bonded s1 v \<noteq> None"
      using Cons.prems(1) u2 by (simp add: QueueAssetRebalanceEvent_def)
    have each1: "\<forall>b\<in>set assets. Assets s1 (Denom b) = Some b \<and> 0 \<le> RewardChangeInterval b
                 \<and> Min_w (RewardWeightRange b) \<le> Max_w (RewardWeightRange b)
                 \<and> ?now - LastRewardChangeTime b \<le> maxDuration
                 \<and> decay_fits (MaxDecBitLen k) ?now b"
    proof
      fix b assume b: "b \<in> set assets"
      then have "Denom b \<in> Denom ` set assets" by (rule imageI)
      then have "Denom b \<noteq> Denom a" using an by metis
      then have "Assets s1 (Denom b) = Assets s (Denom b)" using u1' by simp
      then show "Assets s1 (Denom b) = Some b \<and> 0 \<le> RewardChangeInterval b
                 \<and> Min_w (RewardWeightRange b) \<le> Max_w (RewardWeightRange b)
                 \<and> ?now - LastRewardChangeTime b \<le> maxDuration
                 \<and> decay_fits (MaxDecBitLen k) ?now b"
        using Cons.prems(3) b by simp
    qed
    from Cons.IH[OF known1 dist' each1] obtain s' where
      r: "RewardWeightChangeHook k ctx assets s1 = (None, map (decay_spec ?now) assets, s')"
      and c1: "\<forall>b\<in>set assets. Assets s' (Denom b) = Some (decay_spec ?now b)"
      and c2: "\<forall>d. d \<notin> Denom ` set assets \<longrightarrow> Assets s' d = Assets s1 d"
      and c3: "Bonded s' = Bonded s1" "map fst (ValidatorInfos s') = map fst (ValidatorInfos s1)"
      by blast
    have step: "RewardWeightChangeHook k ctx (a # assets) s
                  = (None, ?a' # map (decay_spec ?now) assets, s')"
      using noskip u r by (simp add: da Let_def)
    have sa: "Assets s' (Denom a) = Some ?a'" using c2 an u1' by simp
    have fr: "\<forall>d. d \<notin> Denom ` set (a # assets) \<longrightarrow> Assets s' d = Assets s d"
      using c2 u1' by simp
    have bq: "Bonded s' = Bonded s" "map fst (ValidatorInfos s') = map fst (ValidatorInfos s)"
      using c3 u2 by (simp_all add: QueueAssetRebalanceEvent_def)
    show ?thesis
      using step c1 sa fr bq True by auto
  qed
qed


text \<open>
  C5. Over assets read from the store (distinct denoms, non-negative intervals, a range with
  min \<le> max, the time since the last change within an \<open>int64\<close> of nanoseconds),
  validators whose settlement succeeds, and decays that stay within the capacity of the
  decimals (\<open>decay_fits\<close>: for an asset that is due, neither \<open>rate^n\<close> nor the weight times
  it is a multiplication that panics), the decay hook succeeds and turns every asset, in
  the caller's records and in the store, into \<open>decay_spec now\<close> of it: an asset with a
  positive interval and a rate other than 1 for which a full interval has elapsed gets the
  weight clamp(weight * rate^n, min, max), n = floor((now - last) / interval), and its last
  change time moves by exactly n intervals; every other asset is left as it is, and when no
  asset is due the store is unchanged.
\<close>

theorem RewardWeightChangeHook_decay:
  assumes "\<forall>v\<in>set (map fst (ValidatorInfos s)). Bonded s v \<noteq> None"
    and "\<forall>s1 v info. \<exists>h. SettleRewards k ctx s1 v info = Inr h"
    and "distinct (map Denom assets)"
    and "\<forall>a\<in>set assets. Assets s (Denom a) = Some a \<and> 0 \<le> RewardChangeInterval a
                 \<and> Min_w (RewardWeightRange a) \<le> Max_w (RewardWeightRange a)
                 \<and> BlockTime ctx - LastRewardChangeTime a \<le> maxDuration
                 \<and> decay_fits (MaxDecBitLen k) (BlockTime ctx) a"
  shows "\<exists>s'. RewardWeightChangeHook k ctx assets s
                 = (None, map (decay_spec (BlockTime ctx)) assets, s')
           \<and> (\<forall>a\<in>set assets. Assets s' (Denom a) = Some (decay_spec (BlockTime ctx) a))
           \<and> ((\<forall>a\<in>set assets. \<not> decay_due (BlockTime ctx) a) \<longrightarrow> s' = s)"
  using RewardWeightChangeHook_ok[OF assms] by blast

theorem RewardWeightChangeHook_decay_witness:
  "map fst (ValidatorInfos testDecayStore) = [''val1'']
   \<and> Bonded testDecayStore ''val1'' \<noteq> None
   \<and> Assets testDecayStore (Denom testDecayAsset) = Some testDecayAsset
   \<and> decay_due (BlockTime testCtx) testDecayAsset
   \<and> decay_fits (MaxDecBitLen testKeeper) (BlockTime testCtx) testDecayAsset
   \<and> (\<exists>s'. RewardWeightChangeHook testKeeper testCtx [testDecayAsset] testDecayStore
               = (None, [decay_spec 1000 testDecayAsset], s')
          \<and> Assets s' ''alliance'' = Some (decay_spec 1000 testDecayAsset))
   \<and> RewardWeight (decay_spec 1000 testDecayAsset) = 3906250000000000
   \<and> LastRewardChangeTime (decay_spec 1000 testDecayAsset) = 910
   \<and> \<not> decay_due (BlockTime (testCtx\<lparr>BlockTime := 50\<rparr>)) testDecayAsset
   \<and> RewardWeightChangeHook testKeeper (testCtx\<lparr>BlockTime := 50\<rparr>) [testDecayAsset] testDecayStore
        = (None, [testDecayAsset], testDecayStore)"
proof -
  have f: "Denom testDecayAsset = ''alliance''" "RewardChangeInterval testDecayAsset = 100"
    "RewardChangeRate testDecayAsset = 5 * 10 ^ 17" "LastRewardChangeTime testDecayAsset = 10"
    "RewardWeight testDecayAsset = 2 * 10 ^ 18"
    "Min_w (RewardWeightRange testDecayAsset) = 0"
    "Max_w (RewardWeightRange testDecayAsset) = 5 * 10 ^ 18"
    by (simp_all add: testDecayAsset_def testAsset_def NewAllianceAsset_def LegacyNewDec_def
        precisionReuse_def)
  have g: "map fst (ValidatorInfos testDecayStore) = [''val1'']"
    "Bonded testDecayStore ''val1'' = Some True"
    "Assets testDecayStore ''alliance'' = Some testDecayAsset"
    by (simp_all add: testDecayStore_def testStore_def)
  have t: "BlockTime testCtx = 1000" by (simp add: testCtx_def)
  have b: "MaxDecBitLen testKeeper = 315" by (simp add: testKeeper_def)
  have k: "\<forall>s1 v info. \<exists>h. SettleRewards testKeeper c s1 v info = Inr h" for c
    by (simp add: testKeeper_def)
  have due: "decay_due (BlockTime testCtx) testDecayAsset"
    by (simp add: decay_due_def f t LegacyOneDec_def precisionReuse_def)
  have nd: "\<not> decay_due (BlockTime (testCtx\<lparr>BlockTime := 50\<rparr>)) testDecayAsset"
    by (simp add: decay_due_def f)
  have p: "Power 500000000000000000 9 = 1953125000000000" by code_simp
  have pm: "PowerMut 315 500000000000000000 9 = Some 1953125000000000" by code_simp
  have mm: "MulMut 315 2000000000000000000 1953125000000000 = Some 3906250000000000"
    by code_simp
  have cap: "decay_fits (MaxDecBitLen testKeeper) (BlockTime testCtx) testDecayAsset"
    by (simp add: decay_fits_def f t b pm mm)
  have cap2: "decay_fits (MaxDecBitLen testKeeper) (BlockTime (testCtx\<lparr>BlockTime := 50\<rparr>))
                testDecayAsset"
    using nd by (simp add: decay_fits_def)
  have w: "RewardWeight (decay_spec 1000 testDecayAsset) = 3906250000000000"
    "LastRewardChangeTime (decay_spec 1000 testDecayAsset) = 910"
    by (simp_all add: decay_spec_def f LegacyOneDec_def precisionReuse_def Let_def p Mul_def
        chopPrecisionAndRound_def chopRoundPos_def fivePrecision_def)
  have a1: "\<forall>v\<in>set (map fst (ValidatorInfos testDecayStore)). Bonded testDecayStore v \<noteq> None"
    by (simp add: g)
  have a3: "distinct (map Denom [testDecayAsset])" by simp
  have a4: "\<forall>a\<in>set [testDecayAsset]. Assets testDecayStore (Denom a) = Some a
                 \<and> 0 \<le> RewardChangeInterval a
                 \<and> Min_w (RewardWeightRange a) \<le> Max_w (RewardWeightRange a)
                 \<and> BlockTime c - LastRewardChangeTime a \<le> maxDuration
                 \<and> decay_fits (MaxDecBitLen testKeeper) (BlockTime c) a"
    if "BlockTime c \<le> 1000" "decay_fits (MaxDecBitLen testKeeper) (BlockTime c) testDecayAsset"
    for c
    using that by (simp add: f g maxDuration_def)
  have t1: "BlockTime testCtx \<le> 1000" "BlockTime (testCtx\<lparr>BlockTime := 50\<rparr>) \<le> 1000"
    by (simp_all add: t)
  from RewardWeightChangeHook_decay[OF a1 k a3 a4[OF t1(1) cap]] obtain s' where
    "RewardWeightChangeHook testKeeper testCtx [testDecayAsset] testDecayStore
       = (None, map (decay_spec (BlockTime testCtx)) [testDecayAsset], s')"
    "\<forall>a\<in>set [testDecayAsset]. Assets s' (Denom a) = Some (decay_spec (BlockTime testCtx) a)"
    by blast
  then have h1: "\<exists>s'. RewardWeightChangeHook testKeeper testCtx [testDecayAsset] testDecayStore
               = (None, [decay_spec 1000 testDecayAsset], s')
          \<and> Assets s' ''alliance'' = Some (decay_spec 1000 testDecayAsset)"
    by (simp add: f t del: RewardWeightChangeHook.simps)
  from RewardWeightChangeHook_decay[OF a1 k a3 a4[OF t1(2) cap2]] obtain s2 where
    "RewardWeightChangeHook testKeeper (testCtx\<lparr>BlockTime := 50\<rparr>) [testDecayAsset] testDecayStore
       = (None, map (decay_spec (BlockTime (testCtx\<lparr>BlockTime := 50\<rparr>))) [testDecayAsset], s2)"
    "(\<forall>a\<in>set [testDecayAsset]. \<not> decay_due (BlockTime (testCtx\<lparr>BlockTime := 50\<rparr>)) a)
       \<longrightarrow> s2 = testDecayStore"
    by blast
  then have h2: "RewardWeightChangeHook testKeeper (testCtx\<lparr>BlockTime := 50\<rparr>) [testDecayAsset] testDecayStore
        = (None, [testDecayAsset], testDecayStore)"
    using nd decay_spec_not_due[OF nd] by (simp del: RewardWeightChangeHook.simps)
  show ?thesis using g f due cap w nd h1 h2 by (simp del: RewardWeightChangeHook.simps)
qed

text \<open>
  Where the compounding leaves the capacity of the decimals the hook does not clamp: it
  panics. The asset below grows by half every nanosecond and was last changed 730 intervals
  ago; its range is [0, 5], so the clamp of the specification is 5. The ninth squaring in
  \<open>Power\<close> holds 1.5^512, a raw integer of 360 bits, and the hook panics before it has
  written anything, at a capacity of 315 bits as at one of 316.
\<close>

theorem RewardWeightChangeHook_overflow_counterexample:
  "Assets testGrowStore (Denom testGrowAsset) = Some testGrowAsset
   \<and> decay_due (BlockTime testCtx) testGrowAsset
   \<and> (BlockTime testCtx - LastRewardChangeTime testGrowAsset)
        div RewardChangeInterval testGrowAsset = 730
   \<and> RewardWeight (decay_spec (BlockTime testCtx) testGrowAsset) = LegacyNewDec 5
   \<and> RewardWeightChangeHook testKeeper testCtx [testGrowAsset] testGrowStore
        = (Some GoPanic, [testGrowAsset], testGrowStore)
   \<and> RewardWeightChangeHook (testKeeper\<lparr>MaxDecBitLen := 316\<rparr>) testCtx [testGrowAsset] testGrowStore
        = (Some GoPanic, [testGrowAsset], testGrowStore)"
proof -
  have f: "Denom testGrowAsset = ''alliance''" "RewardChangeInterval testGrowAsset = 1"
    "RewardChangeRate testGrowAsset = 1500000000000000000"
    "LastRewardChangeTime testGrowAsset = 270"
    "RewardWeight testGrowAsset = 2000000000000000000"
    "Min_w (RewardWeightRange testGrowAsset) = 0"
    "Max_w (RewardWeightRange testGrowAsset) = 5000000000000000000"
    by (simp_all add: testGrowAsset_def testAsset_def NewAllianceAsset_def LegacyNewDec_def
        precisionReuse_def)
  have g: "Assets testGrowStore ''alliance'' = Some testGrowAsset"
    by (simp add: testGrowStore_def)
  have t: "BlockTime testCtx = 1000" by (simp add: testCtx_def)
  have due: "decay_due (BlockTime testCtx) testGrowAsset"
    by (simp add: decay_due_def f t LegacyOneDec_def precisionReuse_def)
  have big: "5000000000000000000 \<le> Mul 2000000000000000000 (Power 1500000000000000000 730)"
    by code_simp
  have w: "RewardWeight (decay_spec (BlockTime testCtx) testGrowAsset) = LegacyNewDec 5"
    using big
    by (simp add: decay_spec_def f t LegacyOneDec_def LegacyNewDec_def precisionReuse_def Let_def)
  have p5: "PowerMut 315 1500000000000000000 730 = None" by code_simp
  have p6: "PowerMut 316 1500000000000000000 730 = None" by code_simp
  have i: "0 < RewardChangeInterval testGrowAsset" by (simp add: f)
  have d: "LastRewardChangeTime testGrowAsset + RewardChangeInterval testGrowAsset
             \<le> BlockTime testCtx" by (simp add: f t)
  have m: "BlockTime testCtx - LastRewardChangeTime testGrowAsset \<le> maxDuration"
    by (simp add: f t maxDuration_def)
  have d5: "DecayAsset testKeeper testCtx testGrowAsset = None"
    by (simp add: DecayAsset_eq[OF i d m] f t p5 testKeeper_def)
  have d6: "DecayAsset (testKeeper\<lparr>MaxDecBitLen := 316\<rparr>) testCtx testGrowAsset = None"
    by (simp add: DecayAsset_eq[OF i d m] f t p6)
  have guard: "\<not> (RewardChangeInterval testGrowAsset = 0
                    \<or> RewardChangeRate testGrowAsset = LegacyOneDec)"
    "\<not> TimeAdd (LastRewardChangeTime testGrowAsset) (RewardChangeInterval testGrowAsset)
         > BlockTime testCtx"
    by (simp_all add: f t LegacyOneDec_def precisionReuse_def TimeAdd_def)
  have h5: "RewardWeightChangeHook testKeeper testCtx [testGrowAsset] testGrowStore
        = (Some GoPanic, [testGrowAsset], testGrowStore)"
    using guard by (simp add: d5)
  have h6: "RewardWeightChangeHook (testKeeper\<lparr>MaxDecBitLen := 316\<rparr>) testCtx [testGrowAsset]
              testGrowStore = (Some GoPanic, [testGrowAsset], testGrowStore)"
    using guard by (simp add: d6)
  have n: "(BlockTime testCtx - LastRewardChangeTime testGrowAsset)
        div RewardChangeInterval testGrowAsset = 730" by (simp add: f t)
  show ?thesis using g due n w h5 h6 by (simp add: f del: RewardWeightChangeHook.simps)
qed

section \<open>Take rate\<close>

lemma precisionReuse_pos: "0 < precisionReuse"
  by (simp add: precisionReuse_def)

lemma chopRoundPos_bounds:
  "x div precisionReuse \<le> chopRoundPos x" "chopRoundPos x \<le> x div precisionReuse + 1"
  by (simp_all add: chopRoundPos_def Let_def)

lemma div_precision_less: "x < c * precisionReuse \<Longrightarrow> x div precisionReuse < c"
proof -
  assume a: "x < c * precisionReuse"
  have "x div precisionReuse * precisionReuse + x mod precisionReuse = x" by simp
  moreover have "0 \<le> x mod precisionReuse" using precisionReuse_pos by simp
  ultimately have "x div precisionReuse * precisionReuse \<le> x" by linarith
  then have "x div precisionReuse * precisionReuse < c * precisionReuse" using a by linarith
  then show ?thesis using precisionReuse_pos by (simp add: mult_less_cancel_right)
qed

lemma chopRoundPos_le:
  assumes c: "x \<le> c * precisionReuse"
  shows "chopRoundPos x \<le> c"
proof (cases "x = c * precisionReuse")
  case True
  then show ?thesis using precisionReuse_pos by (simp add: chopRoundPos_def Let_def)
next
  case False
  then have "x < c * precisionReuse" using c by simp
  then have "x div precisionReuse < c"
  proof -
    have "x div precisionReuse * precisionReuse + x mod precisionReuse = x" by simp
    moreover have "0 \<le> x mod precisionReuse" using precisionReuse_pos by simp
    ultimately have "x div precisionReuse * precisionReuse \<le> x" by linarith
    then have "x div precisionReuse * precisionReuse < c * precisionReuse"
      using \<open>x < c * precisionReuse\<close> by linarith
    then show ?thesis using precisionReuse_pos by (simp add: mult_less_cancel_right)
  qed
  then show ?thesis using chopRoundPos_bounds(2)[of x] by linarith
qed

lemma chop_nonneg: "0 \<le> x \<Longrightarrow> chopPrecisionAndRound x = chopRoundPos x"
  by (simp add: chopPrecisionAndRound_def)

lemma Mul_nonneg:
  assumes "0 \<le> a" "0 \<le> b" shows "0 \<le> Mul a b"
proof -
  have ab: "0 \<le> a * b" using assms by simp
  then have "0 \<le> a * b div precisionReuse"
    using precisionReuse_pos by (simp add: pos_imp_zdiv_nonneg_iff)
  then show ?thesis using chopRoundPos_bounds(1)[of "a * b"]
    by (simp add: Mul_def chop_nonneg[OF ab])
qed

lemma Mul_le_right:
  assumes "0 \<le> a" "a \<le> precisionReuse" "0 \<le> b"
  shows "Mul a b \<le> b"
proof -
  have ab: "0 \<le> a * b" using assms by simp
  have "a * b \<le> precisionReuse * b" using assms by (intro mult_right_mono) simp_all
  then have "a * b \<le> b * precisionReuse" by (simp add: mult.commute)
  then show ?thesis by (simp add: Mul_def chop_nonneg[OF ab] chopRoundPos_le)
qed

lemma Mul_le_left:
  assumes "0 \<le> a" "b \<le> precisionReuse" "0 \<le> b"
  shows "Mul a b \<le> a"
proof -
  have ab: "0 \<le> a * b" using assms by simp
  have "a * b \<le> a * precisionReuse" using assms by (intro mult_left_mono) simp_all
  then show ?thesis by (simp add: Mul_def chop_nonneg[OF ab] chopRoundPos_le)
qed

lemma PowerLoop_bounds:
  "0 \<le> d \<Longrightarrow> d \<le> precisionReuse \<Longrightarrow> 0 \<le> tmp \<Longrightarrow> tmp \<le> precisionReuse \<Longrightarrow>
   0 \<le> PowerLoop i d tmp \<and> PowerLoop i d tmp \<le> d"
proof (induction i d tmp rule: PowerLoop.induct)
  case (1 i d tmp)
  show ?case
  proof (cases "i > 1")
    case False
    then show ?thesis using "1.prems"
      by (simp add: PowerLoop.simps[of i] Mul_nonneg Mul_le_left)
  next
    case True
    let ?d = "Mul d d" and ?t = "if i mod 2 \<noteq> 0 then Mul tmp d else tmp"
    have d0: "0 \<le> ?d" and dd: "?d \<le> d" using "1.prems" by (simp_all add: Mul_nonneg Mul_le_left)
    have dP: "?d \<le> precisionReuse" using dd "1.prems" by linarith
    have t0: "0 \<le> ?t" using "1.prems" by (simp add: Mul_nonneg)
    have t1: "?t \<le> precisionReuse" using "1.prems" Mul_le_left[of tmp d] by auto
    have "0 \<le> PowerLoop (i div 2) ?d ?t \<and> PowerLoop (i div 2) ?d ?t \<le> ?d"
      using "1.IH"[OF True d0 dP t0 t1] .
    then show ?thesis using True dd
      by (simp add: PowerLoop.simps[of i])
  qed
qed

lemma Power_bounds:
  assumes "0 \<le> d" "d \<le> precisionReuse"
  shows "0 \<le> Power d n" "Power d n \<le> precisionReuse" "0 < n \<Longrightarrow> Power d n \<le> d"
  using PowerLoop_bounds[OF assms(1,2), of precisionReuse n] assms precisionReuse_pos
  by (auto simp: Power_def LegacyOneDec_def)

lemma CoinsAdd_keys: "fst ` set (CoinsAdd cs (d, a)) \<subseteq> insert d (fst ` set cs)"
proof (induction cs)
  case Nil
  then show ?case by simp
next
  case (Cons c cs)
  obtain e b where c: "c = (e, b)" by (cases c)
  show ?case using Cons by (auto simp: c)
qed

lemma CoinsAdd_ok: "coins_ok cs \<Longrightarrow> coins_ok (CoinsAdd cs (d, a))"
proof (induction cs)
  case Nil
  then show ?case by (simp add: coins_ok_def)
next
  case (Cons c cs)
  obtain d' a' where c: "c = (d', a')" by (cases c)
  have ih: "coins_ok (CoinsAdd cs (d, a))" using Cons by (simp add: coins_ok_def)
  have "d' \<notin> fst ` set cs" using Cons.prems by (simp add: coins_ok_def c)
  then have "d' \<noteq> d \<Longrightarrow> d' \<notin> fst ` set (CoinsAdd cs (d, a))"
    using CoinsAdd_keys[of cs d a] by auto
  then show ?case using Cons.prems ih by (auto simp: coins_ok_def c)
qed

lemma AmountOf_CoinsAdd:
  "distinct (map fst cs) \<Longrightarrow>
   AmountOf (CoinsAdd cs (d, a)) d' = AmountOf cs d' + (if d' = d then a else 0)"
proof (induction cs)
  case Nil
  then show ?case by (simp add: AmountOf_def)
next
  case (Cons c cs)
  obtain e b where c: "c = (e, b)" by (cases c)
  have ih: "AmountOf (CoinsAdd cs (d, a)) d' = AmountOf cs d' + (if d' = d then a else 0)"
    using Cons by simp
  have ne: "e \<notin> fst ` set cs" using Cons.prems by (simp add: c)
  then have m: "map_of cs e = None" by (simp add: map_of_eq_None_iff)
  show ?case using ih m by (auto simp: c AmountOf_def)
qed

lemma coins_ok_nonempty: "coins_ok cs \<Longrightarrow> cs \<noteq> [] \<Longrightarrow> \<not> CoinsIsZero cs"
  by (cases cs) (auto simp: coins_ok_def CoinsIsZero_def)

lemma coins_ok_empty_iff: "coins_ok cs \<Longrightarrow> (cs = []) = (\<forall>d. AmountOf cs d = 0)"
proof (cases cs)
  case Nil
  then show ?thesis by (simp add: AmountOf_def)
next
  case (Cons c cs')
  assume ok: "coins_ok cs"
  obtain e b where c: "c = (e, b)" by (cases c)
  have "AmountOf cs e = b" by (simp add: Cons c AmountOf_def)
  moreover have "b \<noteq> 0" using ok by (simp add: Cons c coins_ok_def)
  ultimately show ?thesis using Cons by auto
qed

lemma TruncateInt_nonneg: "0 \<le> x \<Longrightarrow> TruncateInt x = x div precisionReuse"
  using precisionReuse_pos by (cases "x = 0") (simp_all add: TruncateInt_def bigQuo_def)

lemma take_product_bounds:
  assumes e: "take_eligible now a" and r: "TakeRate a \<le> LegacyOneDec"
  shows "0 \<le> take_product n a"
    and "take_product n a div precisionReuse \<le> TotalTokens a"
    and "0 < n \<Longrightarrow> take_product n a div precisionReuse < TotalTokens a"
    and "LegacyOneDec < take_product n a \<Longrightarrow> 1 \<le> take_product n a div precisionReuse"
proof -
  let ?d = "LegacyOneDec - TakeRate a" and ?T = "TotalTokens a" and ?P = precisionReuse
  have T: "0 < ?T" and rp: "0 < TakeRate a" using e by (simp_all add: take_eligible_def)
  have d0: "0 \<le> ?d" and d1: "?d \<le> ?P" and d2: "?d \<le> ?P - 1"
    using r rp by (simp_all add: LegacyOneDec_def)
  note pb = Power_bounds[OF d0 d1, of n]
  show p0: "0 \<le> take_product n a" using pb(1) T by (simp add: take_product_def MulInt_def)
  have "Power ?d n * ?T \<le> ?P * ?T" using pb(2) T by (intro mult_right_mono) simp_all
  then have "take_product n a \<le> ?T * ?P" by (simp add: take_product_def MulInt_def mult.commute)
  then have "take_product n a div ?P \<le> ?T * ?P div ?P"
    using precisionReuse_pos by (intro zdiv_mono1) simp_all
  then show "take_product n a div ?P \<le> ?T" using precisionReuse_pos by simp
  show "take_product n a div ?P < ?T" if n: "0 < n"
  proof -
    have "Power ?d n \<le> ?P - 1" using pb(3)[OF n] d2 by linarith
    then have "Power ?d n * ?T \<le> (?P - 1) * ?T" using T by (intro mult_right_mono) simp_all
    moreover have "(?P - 1) * ?T < ?T * ?P" using T by (simp add: algebra_simps)
    ultimately have "take_product n a < ?T * ?P"
      by (simp add: take_product_def MulInt_def)
    then show ?thesis by (rule div_precision_less)
  qed
  show "1 \<le> take_product n a div ?P" if "LegacyOneDec < take_product n a"
  proof -
    have "1 * ?P \<le> take_product n a" using that by (simp add: LegacyOneDec_def)
    then have "1 * ?P div ?P \<le> take_product n a div ?P"
      using precisionReuse_pos by (intro zdiv_mono1) simp_all
    then show ?thesis using precisionReuse_pos by simp
  qed
qed

lemma take_spec_Denom: "Denom (take_spec now n a) = Denom a"
  by (simp add: take_spec_def)

lemma DeductLoop_ok:
  assumes rate: "\<forall>a\<in>set assets. TakeRate a \<le> LegacyOneDec"
    and dist: "distinct (map Denom assets)"
    and st: "\<forall>a\<in>set assets. Assets s (Denom a) = Some a"
    and ok: "coins_ok coins"
  shows "\<exists>cnt' coins' A.
           DeductLoop ctx n assets cnt coins s
             = Inr (map (take_spec (BlockTime ctx) n) assets, cnt', coins', s\<lparr>Assets := A\<rparr>)
         \<and> cnt' = cnt + length (filter (take_eligible (BlockTime ctx)) assets)
         \<and> coins_ok coins'
         \<and> (\<forall>a\<in>set assets. AmountOf coins' (Denom a)
               = AmountOf coins (Denom a)
                 + (TotalTokens a - TotalTokens (take_spec (BlockTime ctx) n a)))
         \<and> (\<forall>d. d \<notin> Denom ` set assets \<longrightarrow> AmountOf coins' d = AmountOf coins d)
         \<and> (\<forall>a\<in>set assets. A (Denom a) = Some (take_spec (BlockTime ctx) n a))
         \<and> (\<forall>d. d \<notin> Denom ` set assets \<longrightarrow> A d = Assets s d)"
  using assms
proof (induction assets arbitrary: cnt coins s)
  case Nil
  have "DeductLoop ctx n [] cnt coins s
          = Inr (map (take_spec (BlockTime ctx) n) [], cnt, coins, s\<lparr>Assets := Assets s\<rparr>)"
    by simp
  then show ?case using Nil.prems(4)
    by (intro exI[of _ cnt] exI[of _ coins] exI[of _ "Assets s"]) simp
next
  case (Cons a assets)
  let ?now = "BlockTime ctx"
  let ?a' = "take_spec ?now n a"
  have ra: "TakeRate a \<le> LegacyOneDec" and rate': "\<forall>b\<in>set assets. TakeRate b \<le> LegacyOneDec"
    using Cons.prems(1) by simp_all
  have dist': "distinct (map Denom assets)" and an: "Denom a \<notin> Denom ` set assets"
    using Cons.prems(2) by simp_all
  have a_st: "Assets s (Denom a) = Some a" using Cons.prems(3) by simp
  have elig: "(TotalTokens a > 0 \<and> TakeRate a > 0 \<and> RewardsStarted a ?now) = take_eligible ?now a"
    by (auto simp: take_eligible_def RewardsStarted_def)
  have bne: "\<And>b. b \<in> set assets \<Longrightarrow> Denom b \<noteq> Denom a"
    using an by (metis imageI)
  show ?case
  proof (cases "take_eligible ?now a \<and> LegacyOneDec < take_product n a")
    case False
    have same: "?a' = a" using False by (auto simp: take_spec_def)
    define c1 where "c1 = (if take_eligible ?now a then cnt + 1 else cnt)"
    have st': "\<forall>b\<in>set assets. Assets s (Denom b) = Some b" using Cons.prems(3) by simp
    from Cons.IH[OF rate' dist' st' Cons.prems(4), of c1] obtain cnt' coins' A where
      r: "DeductLoop ctx n assets c1 coins s
             = Inr (map (take_spec ?now n) assets, cnt', coins', s\<lparr>Assets := A\<rparr>)"
      and i1: "cnt' = c1 + length (filter (take_eligible ?now) assets)"
      and i2: "coins_ok coins'"
      and i3: "\<forall>b\<in>set assets. AmountOf coins' (Denom b)
               = AmountOf coins (Denom b) + (TotalTokens b - TotalTokens (take_spec ?now n b))"
      and i4: "\<forall>d. d \<notin> Denom ` set assets \<longrightarrow> AmountOf coins' d = AmountOf coins d"
      and i5: "\<forall>b\<in>set assets. A (Denom b) = Some (take_spec ?now n b)"
      and i6: "\<forall>d. d \<notin> Denom ` set assets \<longrightarrow> A d = Assets s d"
      by blast
    have step: "DeductLoop ctx n (a # assets) cnt coins s
             = Inr (map (take_spec ?now n) (a # assets), cnt', coins', s\<lparr>Assets := A\<rparr>)"
      using False r by (auto simp: elig c1_def same take_product_def Let_def)
    have j1: "cnt' = cnt + length (filter (take_eligible ?now) (a # assets))"
      using i1 by (simp add: c1_def)
    have j3: "\<forall>b\<in>set (a # assets). AmountOf coins' (Denom b)
               = AmountOf coins (Denom b) + (TotalTokens b - TotalTokens (take_spec ?now n b))"
      using i3 i4 an same by simp
    have j4: "\<forall>d. d \<notin> Denom ` set (a # assets) \<longrightarrow> AmountOf coins' d = AmountOf coins d"
      using i4 by simp
    have j5: "\<forall>b\<in>set (a # assets). A (Denom b) = Some (take_spec ?now n b)"
      using i5 i6 an a_st same by simp
    have j6: "\<forall>d. d \<notin> Denom ` set (a # assets) \<longrightarrow> A d = Assets s d"
      using i6 by simp
    show ?thesis using step j1 i2 j3 j4 j5 j6 by blast
  next
    case True
    then have e: "take_eligible ?now a" and big: "LegacyOneDec < take_product n a" by simp_all
    note pb = take_product_bounds[OF e ra, of n]
    have tr: "TruncateInt (take_product n a) = take_product n a div precisionReuse"
      by (rule TruncateInt_nonneg[OF pb(1)])
    have a': "?a' = a\<lparr>TotalTokens := take_product n a div precisionReuse\<rparr>"
      using True by (simp add: take_spec_def)
    let ?ded = "TotalTokens a - TotalTokens ?a'"
    have ded0: "\<not> ?ded < 0" using pb(2) by (simp add: a')
    let ?coins1 = "CoinsAdd coins (Denom a, ?ded)"
    let ?s1 = "SetAsset ?a' s"
    have ok1: "coins_ok ?coins1" by (rule CoinsAdd_ok[OF Cons.prems(4)])
    have st1: "\<forall>b\<in>set assets. Assets ?s1 (Denom b) = Some b"
      using Cons.prems(3) bne by (simp add: SetAsset_def take_spec_Denom)
    from Cons.IH[OF rate' dist' st1 ok1, of "cnt + 1"] obtain cnt' coins' A where
      r: "DeductLoop ctx n assets (cnt + 1) ?coins1 ?s1
             = Inr (map (take_spec ?now n) assets, cnt', coins', ?s1\<lparr>Assets := A\<rparr>)"
      and i1: "cnt' = cnt + 1 + length (filter (take_eligible ?now) assets)"
      and i2: "coins_ok coins'"
      and i3: "\<forall>b\<in>set assets. AmountOf coins' (Denom b)
               = AmountOf ?coins1 (Denom b) + (TotalTokens b - TotalTokens (take_spec ?now n b))"
      and i4: "\<forall>d. d \<notin> Denom ` set assets \<longrightarrow> AmountOf coins' d = AmountOf ?coins1 d"
      and i5: "\<forall>b\<in>set assets. A (Denom b) = Some (take_spec ?now n b)"
      and i6: "\<forall>d. d \<notin> Denom ` set assets \<longrightarrow> A d = Assets ?s1 d"
      by blast
    have s1A: "?s1\<lparr>Assets := A\<rparr> = s\<lparr>Assets := A\<rparr>" by (simp add: SetAsset_def)
    have step: "DeductLoop ctx n (a # assets) cnt coins s
             = Inr (map (take_spec ?now n) (a # assets), cnt', coins', s\<lparr>Assets := A\<rparr>)"
      using e big ded0 r s1A
      by (simp add: elig[symmetric] take_product_def[symmetric] Let_def tr a'[symmetric]
          take_spec_Denom del: DeductLoop.simps(2))
         (simp add: elig take_product_def[symmetric] Let_def tr a'[symmetric] take_spec_Denom)
    have dc: "distinct (map fst coins)" using Cons.prems(4) by (simp add: coins_ok_def)
    note am = AmountOf_CoinsAdd[OF dc, of "Denom a" ?ded]
    have j1: "cnt' = cnt + length (filter (take_eligible ?now) (a # assets))"
      using i1 e by simp
    have j3: "\<forall>b\<in>set (a # assets). AmountOf coins' (Denom b)
               = AmountOf coins (Denom b) + (TotalTokens b - TotalTokens (take_spec ?now n b))"
    proof
      fix b assume b: "b \<in> set (a # assets)"
      show "AmountOf coins' (Denom b)
               = AmountOf coins (Denom b) + (TotalTokens b - TotalTokens (take_spec ?now n b))"
      proof (cases "b \<in> set assets")
        case True
        then show ?thesis using i3 am bne by simp
      next
        case False
        then have "b = a" using b by simp
        then show ?thesis using i4 an am by simp
      qed
    qed
    have j4: "\<forall>d. d \<notin> Denom ` set (a # assets) \<longrightarrow> AmountOf coins' d = AmountOf coins d"
      using i4 am by simp
    have j5: "\<forall>b\<in>set (a # assets). A (Denom b) = Some (take_spec ?now n b)"
      using i5 i6 an by (simp add: SetAsset_def take_spec_Denom)
    have j6: "\<forall>d. d \<notin> Denom ` set (a # assets) \<longrightarrow> A d = Assets s d"
      using i6 by (simp add: SetAsset_def take_spec_Denom)
    show ?thesis using step j1 i2 j3 j4 j5 j6 by blast
  qed
qed

lemma coins_ok_entry: "coins_ok cs \<Longrightarrow> (d, amt) \<in> set cs \<Longrightarrow> AmountOf cs d = amt \<and> amt \<noteq> 0"
  by (auto simp: coins_ok_def AmountOf_def list_all_iff)

lemma take_spec_untaxed: "\<not> take_taxed now n a \<Longrightarrow> take_spec now n a = a"
  by (auto simp: take_spec_def take_taxed_def)

lemma take_spec_taxed:
  assumes "take_taxed now n a" "TakeRate a \<le> LegacyOneDec" "0 < n"
  shows "1 \<le> TotalTokens (take_spec now n a)" "TotalTokens (take_spec now n a) < TotalTokens a"
  using assms take_product_bounds(3,4)[of now a n]
  by (simp_all add: take_spec_def take_taxed_def)

lemma DeductAssetsHook_ok:
  assumes fire: "LastRewardClaimTime s + RewardClaimInterval s < BlockTime ctx"
    and nz: "LastRewardClaimTime s \<noteq> zeroTime"
    and ipos: "0 < RewardClaimInterval s"
    and fit: "BlockTime ctx - LastRewardClaimTime s \<le> maxDuration"
    and vpd: "ValidatePositiveDuration k (RewardDelayTime (ParamsOf s))"
             "ValidatePositiveDuration k (TakeRateClaimInterval (ParamsOf s))"
    and rate: "\<forall>a\<in>set assets. TakeRate a \<le> LegacyOneDec"
    and dist: "distinct (map Denom assets)"
    and st: "\<forall>a\<in>set assets. Assets s (Denom a) = Some a"
    and bal: "\<forall>a\<in>set assets. take_taxed (BlockTime ctx) n a
                 \<longrightarrow> TotalTokens a \<le> ModuleBalance s (Denom a)"
    and n: "n = nat ((BlockTime ctx - LastRewardClaimTime s) div RewardClaimInterval s)"
  shows "\<exists>coins s'.
           DeductAssetsHook k ctx assets s
             = (None, coins, map (take_spec (BlockTime ctx) n) assets, s')
         \<and> coins_ok coins
         \<and> (\<forall>a\<in>set assets. AmountOf coins (Denom a)
               = TotalTokens a - TotalTokens (take_spec (BlockTime ctx) n a))
         \<and> (\<forall>d. d \<notin> Denom ` set assets \<longrightarrow> AmountOf coins d = 0)
         \<and> (\<forall>a\<in>set assets. Assets s' (Denom a) = Some (take_spec (BlockTime ctx) n a))
         \<and> (\<forall>d. FeeCollector s' d = FeeCollector s d + AmountOf coins d)
         \<and> (\<forall>d. ModuleBalance s' d = ModuleBalance s d - AmountOf coins d)
         \<and> LastRewardClaimTime s'
             = (if \<exists>a\<in>set assets. take_taxed (BlockTime ctx) n a
                then LastRewardClaimTime s + int n * RewardClaimInterval s
                else if \<exists>a\<in>set assets. take_eligible (BlockTime ctx) a
                then LastRewardClaimTime s else BlockTime ctx)
         \<and> ((\<exists>a\<in>set assets. take_eligible (BlockTime ctx) a)
              \<and> \<not> (\<exists>a\<in>set assets. take_taxed (BlockTime ctx) n a) \<longrightarrow> s' = s)"
proof -
  let ?now = "BlockTime ctx" and ?last = "LastRewardClaimTime s" and ?i = "RewardClaimInterval s"
  let ?d = "?now - ?last"
  have d0: "0 \<le> ?d" using fire ipos by simp
  have ts: "TimeSub ?now ?last = ?d" using d0 fit by (simp add: TimeSub_def minDuration_def)
  note ic = intervals_count[OF ipos d0 fit]
  have "?d div ?i \<ge> ?i div ?i" using fire ipos by (intro zdiv_mono1) simp_all
  then have q1: "1 \<le> ?d div ?i" using ipos by simp
  then have npos: "0 < n" and nint: "int n = ?d div ?i" using n by simp_all
  from DeductLoop_ok[OF rate dist st, of "[]" ctx n 0] obtain cnt' coins A where
    r: "DeductLoop ctx n assets 0 [] s
          = Inr (map (take_spec ?now n) assets, cnt', coins, s\<lparr>Assets := A\<rparr>)"
    and i1: "cnt' = length (filter (take_eligible ?now) assets)"
    and i2: "coins_ok coins"
    and i3: "\<forall>a\<in>set assets. AmountOf coins (Denom a)
               = TotalTokens a - TotalTokens (take_spec ?now n a)"
    and i4: "\<forall>d. d \<notin> Denom ` set assets \<longrightarrow> AmountOf coins d = 0"
    and i5: "\<forall>a\<in>set assets. A (Denom a) = Some (take_spec ?now n a)"
    and i6: "\<forall>d. d \<notin> Denom ` set assets \<longrightarrow> A d = Assets s d"
    by (auto simp: coins_ok_def AmountOf_def)
  let ?s1 = "s\<lparr>Assets := A\<rparr>"
  have cnt0: "(cnt' = 0) = (\<not> (\<exists>a\<in>set assets. take_eligible ?now a))"
    by (auto simp: i1 filter_empty_conv)
  have taxed_iff: "(\<exists>a\<in>set assets. take_taxed ?now n a) = (coins \<noteq> [])"
  proof
    assume "\<exists>a\<in>set assets. take_taxed ?now n a"
    then obtain a where a: "a \<in> set assets" "take_taxed ?now n a" by blast
    then have "TotalTokens (take_spec ?now n a) < TotalTokens a"
      using take_spec_taxed(2)[OF a(2) _ npos] rate by simp
    then have "AmountOf coins (Denom a) \<noteq> 0" using i3 a(1) by simp
    then show "coins \<noteq> []" by (auto simp: AmountOf_def)
  next
    assume "coins \<noteq> []"
    then obtain d where "AmountOf coins d \<noteq> 0" using coins_ok_empty_iff[OF i2] by blast
    then obtain a where a: "a \<in> set assets" "TotalTokens a - TotalTokens (take_spec ?now n a) \<noteq> 0"
      using i3 i4 by (metis imageE)
    then have "take_taxed ?now n a" using take_spec_untaxed by fastforce
    then show "\<exists>a\<in>set assets. take_taxed ?now n a" using a(1) by blast
  qed
  have nq: "nat (uint64 (int64 (bigQuo ?d ?i))) = n" by (simp add: ic(1) n)
  have tq: "int64 (?i * int64 (uint64 (int64 (bigQuo ?d ?i)))) = int n * ?i"
    by (simp add: ic nint)
  have i0: "?i \<noteq> 0" using ipos by simp
  have hook: "DeductAssetsHook k ctx assets s =
     (if cnt' = 0
      then (case SetLastRewardClaimTime k ?now (s\<lparr>Assets := A\<rparr>) of
              (e, s2) \<Rightarrow> (e, coins, map (take_spec ?now n) assets, s2))
      else if coins \<noteq> [] \<and> \<not> CoinsIsZero coins
      then (case SendCoinsFromModuleToModule coins (s\<lparr>Assets := A\<rparr>) of
              Inl e \<Rightarrow> (Some e, [], map (take_spec ?now n) assets, s\<lparr>Assets := A\<rparr>)
            | Inr s2 \<Rightarrow>
                (case SetLastRewardClaimTime k (?last + int n * ?i) s2 of
                   (e, s3) \<Rightarrow> (e, coins, map (take_spec ?now n) assets, s3)))
      else (None, coins, map (take_spec ?now n) assets, s\<lparr>Assets := A\<rparr>))"
    using fire nz i0 r
    by (simp add: DeductAssetsHook_def DeductAssetsWithTakeRate_def Let_def TimeAdd_def ts nq tq
        cong: sum.case_cong)
  have setl: "\<And>t s0. ParamsOf s0 = ParamsOf s \<Longrightarrow>
     SetLastRewardClaimTime k t s0 = (None, s0\<lparr>ParamsOf := (ParamsOf s)\<lparr>LastTakeRateClaimTime := t\<rparr>\<rparr>)"
    using vpd by (simp add: SetLastRewardClaimTime_def SetParams_def)
  have untaxed_store: "\<not> (\<exists>a\<in>set assets. take_taxed ?now n a) \<Longrightarrow> ?s1 = s"
  proof -
    assume nt: "\<not> (\<exists>a\<in>set assets. take_taxed ?now n a)"
    have "A d = Assets s d" for d
    proof (cases "d \<in> Denom ` set assets")
      case True
      then obtain a where a: "a \<in> set assets" "d = Denom a" by blast
      then have "take_spec ?now n a = a" using nt take_spec_untaxed by blast
      then show ?thesis using i5 st a by simp
    next
      case False
      then show ?thesis using i6 by simp
    qed
    then have "A = Assets s" by (rule ext)
    then show "?s1 = s" by simp
  qed
  show ?thesis
  proof (cases "cnt' = 0")
    case True
    then have ne: "\<not> (\<exists>a\<in>set assets. take_eligible ?now a)" using cnt0 by simp
    then have nt: "\<not> (\<exists>a\<in>set assets. take_taxed ?now n a)" by (auto simp: take_taxed_def)
    let ?s' = "?s1\<lparr>ParamsOf := (ParamsOf s)\<lparr>LastTakeRateClaimTime := ?now\<rparr>\<rparr>"
    have res: "DeductAssetsHook k ctx assets s = (None, coins, map (take_spec ?now n) assets, ?s')"
      using True setl[of ?s1 ?now] by (simp add: hook)
    have c0: "coins = []" using taxed_iff nt by simp
    have "\<forall>a\<in>set assets. Assets ?s' (Denom a) = Some (take_spec ?now n a)" using i5 by simp
    moreover have "\<forall>d. FeeCollector ?s' d = FeeCollector s d + AmountOf coins d"
      "\<forall>d. ModuleBalance ?s' d = ModuleBalance s d - AmountOf coins d"
      by (simp_all add: c0 AmountOf_def)
    moreover have "LastRewardClaimTime ?s' = ?now" by (simp add: LastRewardClaimTime_def)
    ultimately show ?thesis using res i2 i3 i4 ne nt by (intro exI[of _ coins] exI[of _ ?s']) simp
  next
    case False
    then have el: "\<exists>a\<in>set assets. take_eligible ?now a" using cnt0 by simp
    show ?thesis
    proof (cases "coins = []")
      case True
      then have nt: "\<not> (\<exists>a\<in>set assets. take_taxed ?now n a)" using taxed_iff by simp
      have res: "DeductAssetsHook k ctx assets s = (None, coins, map (take_spec ?now n) assets, ?s1)"
        using False True by (simp add: hook)
      have eq: "?s1 = s" by (rule untaxed_store[OF nt])
      have un: "\<forall>a\<in>set assets. take_spec ?now n a = a" using nt take_spec_untaxed by blast
      have sa: "\<forall>a\<in>set assets. Assets s (Denom a) = Some (take_spec ?now n a)"
        using st un by simp
      show ?thesis using res i2 i3 i4 sa el nt eq True
        by (intro exI[of _ coins] exI[of _ ?s1]) (simp add: AmountOf_def)
    next
      case ne: False
      then have tx: "\<exists>a\<in>set assets. take_taxed ?now n a" using taxed_iff by simp
      have nozero: "\<not> CoinsIsZero coins" by (rule coins_ok_nonempty[OF i2 ne])
      have enough: "\<not> list_ex (\<lambda>c. ModuleBalance ?s1 (fst c) < snd c) coins"
      proof
        assume "list_ex (\<lambda>c. ModuleBalance ?s1 (fst c) < snd c) coins"
        then obtain d amt where c: "(d, amt) \<in> set coins" "ModuleBalance s d < amt"
          by (auto simp: list_ex_iff)
        from coins_ok_entry[OF i2 c(1)] have am: "AmountOf coins d = amt" "amt \<noteq> 0" by simp_all
        then obtain a where a: "a \<in> set assets" "d = Denom a"
          using i4 by (metis imageE)
        have amt: "amt = TotalTokens a - TotalTokens (take_spec ?now n a)" using i3 a am by simp
        then have tk: "take_taxed ?now n a" using am(2) take_spec_untaxed by fastforce
        then have "1 \<le> TotalTokens (take_spec ?now n a)"
          using take_spec_taxed(1)[OF _ _ npos] rate a(1) by simp
        then have "amt \<le> TotalTokens a" using amt by simp
        moreover have "TotalTokens a \<le> ModuleBalance s (Denom a)" using bal a(1) tk by blast
        ultimately show False using a(2) c(2) by simp
      qed
      let ?s2 = "?s1\<lparr> ModuleBalance := (\<lambda>d. ModuleBalance ?s1 d - AmountOf coins d),
                      FeeCollector := (\<lambda>d. FeeCollector ?s1 d + AmountOf coins d) \<rparr>"
      have send: "SendCoinsFromModuleToModule coins ?s1 = Inr ?s2"
        using enough by (simp add: SendCoinsFromModuleToModule_def)
      let ?t = "?last + int n * ?i"
      let ?s' = "?s2\<lparr>ParamsOf := (ParamsOf s)\<lparr>LastTakeRateClaimTime := ?t\<rparr>\<rparr>"
      have res: "DeductAssetsHook k ctx assets s = (None, coins, map (take_spec ?now n) assets, ?s')"
        using False ne nozero send setl[of ?s2 ?t] by (simp add: hook)
      have "\<forall>a\<in>set assets. Assets ?s' (Denom a) = Some (take_spec ?now n a)" using i5 by simp
      moreover have "\<forall>d. FeeCollector ?s' d = FeeCollector s d + AmountOf coins d"
        "\<forall>d. ModuleBalance ?s' d = ModuleBalance s d - AmountOf coins d"
        by simp_all
      moreover have "LastRewardClaimTime ?s' = ?t" by (simp add: LastRewardClaimTime_def)
      ultimately show ?thesis using res i2 i3 i4 tx
        by (intro exI[of _ coins] exI[of _ ?s']) simp
    qed
  qed
qed

section \<open>Take rate: the claims\<close>

lemma testTaxAsset_fields:
  "Denom (testTaxAsset t) = ''alliance''" "TakeRate (testTaxAsset t) = 500000000000000000"
  "TotalTokens (testTaxAsset t) = t" "RewardStartTime (testTaxAsset t) = 10"
  by (simp_all add: testTaxAsset_def testAsset_def NewAllianceAsset_def)

lemma testTaxStore_fields:
  "LastRewardClaimTime (testTaxStore t) = 10" "RewardClaimInterval (testTaxStore t) = 300"
  "Assets (testTaxStore t) ''alliance'' = Some (testTaxAsset t)"
  "ModuleBalance (testTaxStore t) d = 1000"
  "RewardDelayTime (ParamsOf (testTaxStore t)) = 60"
  "TakeRateClaimInterval (ParamsOf (testTaxStore t)) = 300"
  "FeeCollector (testTaxStore t) d = 0"
  by (simp_all add: testTaxStore_def testStore_def LastRewardClaimTime_def RewardClaimInterval_def)

lemma half_powers:
  "Power 500000000000000000 3 = 125000000000000000"
  "Power 500000000000000000 (Suc 0) = 500000000000000000"
  by code_simp+

lemma test_products:
  "take_product 3 (testTaxAsset t) = 125000000000000000 * t"
  "take_product (Suc 0) (testTaxAsset t) = 500000000000000000 * t"
  by (simp_all add: take_product_def testTaxAsset_fields LegacyOneDec_def precisionReuse_def
      half_powers MulInt_def)

lemma DeductAssetsHook_all_skipped:
  assumes fire: "LastRewardClaimTime s + RewardClaimInterval s < BlockTime ctx"
    and nz: "LastRewardClaimTime s \<noteq> zeroTime"
    and ipos: "0 < RewardClaimInterval s"
    and fit: "BlockTime ctx - LastRewardClaimTime s \<le> maxDuration"
    and vpd: "ValidatePositiveDuration k (RewardDelayTime (ParamsOf s))"
             "ValidatePositiveDuration k (TakeRateClaimInterval (ParamsOf s))"
    and rate: "\<forall>a\<in>set assets. TakeRate a \<le> LegacyOneDec"
    and dist: "distinct (map Denom assets)"
    and st: "\<forall>a\<in>set assets. Assets s (Denom a) = Some a"
    and n: "n = nat ((BlockTime ctx - LastRewardClaimTime s) div RewardClaimInterval s)"
    and el: "\<exists>a\<in>set assets. take_eligible (BlockTime ctx) a"
    and sk: "\<forall>a\<in>set assets. take_eligible (BlockTime ctx) a \<longrightarrow> take_product n a \<le> LegacyOneDec"
  shows "DeductAssetsHook k ctx assets s = (None, [], assets, s)"
proof -
  have nt: "\<forall>a\<in>set assets. \<not> take_taxed (BlockTime ctx) n a"
    using sk by (auto simp: take_taxed_def)
  then have un: "map (take_spec (BlockTime ctx) n) assets = assets"
    by (simp add: take_spec_untaxed map_idI)
  have bal: "\<forall>a\<in>set assets. take_taxed (BlockTime ctx) n a
                 \<longrightarrow> TotalTokens a \<le> ModuleBalance s (Denom a)"
    using nt by simp
  from DeductAssetsHook_ok[OF fire nz ipos fit vpd rate dist st bal n] obtain coins s' where
    r: "DeductAssetsHook k ctx assets s = (None, coins, map (take_spec (BlockTime ctx) n) assets, s')"
    and ok: "coins_ok coins"
    and am: "\<forall>a\<in>set assets. AmountOf coins (Denom a)
               = TotalTokens a - TotalTokens (take_spec (BlockTime ctx) n a)"
    and am0: "\<forall>d. d \<notin> Denom ` set assets \<longrightarrow> AmountOf coins d = 0"
    and same: "(\<exists>a\<in>set assets. take_eligible (BlockTime ctx) a)
              \<and> \<not> (\<exists>a\<in>set assets. take_taxed (BlockTime ctx) n a) \<longrightarrow> s' = s"
    by blast
  have "AmountOf coins d = 0" for d
  proof (cases "d \<in> Denom ` set assets")
    case True
    then obtain a where a: "a \<in> set assets" "d = Denom a" by blast
    then have "take_spec (BlockTime ctx) n a = a" using nt take_spec_untaxed by blast
    then show ?thesis using am a by simp
  next
    case False
    then show ?thesis using am0 by simp
  qed
  then have "coins = []" using coins_ok_empty_iff[OF ok] by simp
  moreover have "s' = s" using same el nt by blast
  ultimately show ?thesis using r un by simp
qed

lemma testTax_setting:
  assumes "BlockTime c = 1000 \<or> BlockTime c = 400"
  shows "LastRewardClaimTime (testTaxStore t) + RewardClaimInterval (testTaxStore t) < BlockTime c"
    and "LastRewardClaimTime (testTaxStore t) \<noteq> zeroTime"
    and "0 < RewardClaimInterval (testTaxStore t)"
    and "BlockTime c - LastRewardClaimTime (testTaxStore t) \<le> maxDuration"
    and "ValidatePositiveDuration testKeeper (RewardDelayTime (ParamsOf (testTaxStore t)))"
    and "ValidatePositiveDuration testKeeper (TakeRateClaimInterval (ParamsOf (testTaxStore t)))"
    and "\<forall>a\<in>set [testTaxAsset t]. TakeRate a \<le> LegacyOneDec"
    and "distinct (map Denom [testTaxAsset t])"
    and "\<forall>a\<in>set [testTaxAsset t]. Assets (testTaxStore t) (Denom a) = Some a"
    and "take_eligible (BlockTime c) (testTaxAsset t) = (0 < t)"
  using assms
  by (auto simp: testTaxStore_fields testTaxAsset_fields zeroTime_def maxDuration_def
      testKeeper_def LegacyOneDec_def precisionReuse_def take_eligible_def)

lemma testTax_intervals:
  "3 = nat ((BlockTime testCtx - LastRewardClaimTime (testTaxStore t))
            div RewardClaimInterval (testTaxStore t))"
  "Suc 0 = nat ((BlockTime (testCtx\<lparr>BlockTime := 400\<rparr>) - LastRewardClaimTime (testTaxStore t))
            div RewardClaimInterval (testTaxStore t))"
  by (simp_all add: testCtx_def testTaxStore_fields)

lemma testCtx_times:
  "BlockTime testCtx = 1000 \<or> BlockTime testCtx = 400"
  "BlockTime (testCtx\<lparr>BlockTime := 400\<rparr>) = 1000 \<or> BlockTime (testCtx\<lparr>BlockTime := 400\<rparr>) = 400"
  by (simp_all add: testCtx_def)

lemma testTax_spec:
  "take_spec 1000 3 (testTaxAsset 1000) = testTaxAsset 125"
  "take_spec 400 (Suc 0) (testTaxAsset 3) = testTaxAsset 1"
  "take_spec 1000 3 (testTaxAsset 2) = testTaxAsset 2"
  "take_taxed 1000 3 (testTaxAsset 1000)"
  "take_taxed 400 (Suc 0) (testTaxAsset 3)"
  by (simp_all add: take_spec_def take_taxed_def take_eligible_def test_products testTaxAsset_fields
      LegacyOneDec_def precisionReuse_def)
     (simp_all add: testTaxAsset_def)

lemma DeductAssetsHook_unset_clock:
  assumes z: "LastRewardClaimTime s = zeroTime"
    and fire: "LastRewardClaimTime s + RewardClaimInterval s < BlockTime ctx"
    and vpd: "ValidatePositiveDuration k (RewardDelayTime (ParamsOf s))"
             "ValidatePositiveDuration k (TakeRateClaimInterval (ParamsOf s))"
  shows "DeductAssetsHook k ctx assets s
           = (None, [], assets,
              s\<lparr> ParamsOf := (ParamsOf s)\<lparr> LastTakeRateClaimTime := BlockTime ctx \<rparr> \<rparr>)"
  using assms
  by (simp add: DeductAssetsHook_def DeductAssetsWithTakeRate_def SetLastRewardClaimTime_def
      SetParams_def TimeAdd_def Let_def)

lemma take_spec_floor:
  assumes "take_eligible now a" and "1 < take_product n a div precisionReuse"
  shows "take_spec now n a = a\<lparr>TotalTokens := take_product n a div precisionReuse\<rparr>"
proof -
  have "\<not> take_product n a \<le> LegacyOneDec"
  proof
    assume "take_product n a \<le> LegacyOneDec"
    then have "take_product n a div precisionReuse \<le> precisionReuse div precisionReuse"
      unfolding LegacyOneDec_def by (intro zdiv_mono1) (simp_all add: precisionReuse_def)
    then show False using assms(2) by (simp add: precisionReuse_def)
  qed
  then show ?thesis using assms(1) by (simp add: take_spec_def)
qed

lemma take_spec_skip:
  "\<not> take_eligible now a \<or> take_product n a \<le> LegacyOneDec \<Longrightarrow> take_spec now n a = a"
  by (auto simp: take_spec_def)

text \<open>
  C3 (amended). When the take-rate clock has been set (\<open>lastClaimTime\<close> is not the zero time)
  and the block time has passed \<open>lastClaimTime + claimInterval\<close>, with
  \<open>n = floor((now - lastClaimTime) / claimInterval)\<close>, over assets read from the store with
  take rates of at most 1 and a module account that holds their tokens: the take-rate hook
  succeeds; every asset with positive \<open>totalTokens\<close>, positive \<open>takeRate\<close> and a reward-start
  time that has passed, for which the floor of \<open>totalTokens * (1 - takeRate)^n\<close> exceeds 1,
  has its \<open>totalTokens\<close> reduced to that floor; an asset that is not such an asset, or whose
  product is at most 1, is left as it is; the store holds every asset as the hook returns
  it; the coins returned are the amounts by which the totals went down, and they move from
  the module account to the shared distribution pool; when the total of at least one asset
  went down, \<open>lastClaimTime\<close> advances by exactly \<open>n * claimInterval\<close>.
\<close>

theorem DeductAssetsHook_take_rate:
  assumes "LastRewardClaimTime s \<noteq> zeroTime"
    and "LastRewardClaimTime s + RewardClaimInterval s < BlockTime ctx"
    and "0 < RewardClaimInterval s"
    and "BlockTime ctx - LastRewardClaimTime s \<le> maxDuration"
    and "ValidatePositiveDuration k (RewardDelayTime (ParamsOf s))"
    and "ValidatePositiveDuration k (TakeRateClaimInterval (ParamsOf s))"
    and "\<forall>a\<in>set assets. TakeRate a \<le> LegacyOneDec"
    and "distinct (map Denom assets)"
    and "\<forall>a\<in>set assets. Assets s (Denom a) = Some a"
    and "\<forall>a\<in>set assets. TotalTokens a \<le> ModuleBalance s (Denom a)"
    and "n = nat ((BlockTime ctx - LastRewardClaimTime s) div RewardClaimInterval s)"
  shows "\<exists>coins assets' s'.
           DeductAssetsHook k ctx assets s = (None, coins, assets', s')
         \<and> length assets' = length assets
         \<and> (\<forall>i<length assets.
               (take_eligible (BlockTime ctx) (assets ! i)
                  \<and> 1 < take_product n (assets ! i) div precisionReuse
                \<longrightarrow> assets' ! i
                      = (assets ! i)\<lparr>TotalTokens := take_product n (assets ! i) div precisionReuse\<rparr>)
             \<and> (\<not> take_eligible (BlockTime ctx) (assets ! i)
                  \<or> take_product n (assets ! i) \<le> LegacyOneDec
                \<longrightarrow> assets' ! i = assets ! i)
             \<and> Assets s' (Denom (assets ! i)) = Some (assets' ! i)
             \<and> AmountOf coins (Denom (assets ! i))
                   = TotalTokens (assets ! i) - TotalTokens (assets' ! i))
         \<and> (\<forall>d. d \<notin> Denom ` set assets \<longrightarrow> AmountOf coins d = 0)
         \<and> (\<forall>d. FeeCollector s' d = FeeCollector s d + AmountOf coins d
                \<and> ModuleBalance s' d = ModuleBalance s d - AmountOf coins d)
         \<and> ((\<exists>i<length assets. TotalTokens (assets' ! i) \<noteq> TotalTokens (assets ! i))
              \<longrightarrow> LastRewardClaimTime s'
                    = LastRewardClaimTime s + int n * RewardClaimInterval s)"
proof -
  let ?now = "BlockTime ctx"
  let ?A = "map (take_spec ?now n) assets"
  have bal: "\<forall>a\<in>set assets. take_taxed ?now n a \<longrightarrow> TotalTokens a \<le> ModuleBalance s (Denom a)"
    using assms(10) by simp
  from DeductAssetsHook_ok[OF assms(2) assms(1) assms(3-9) bal assms(11)] obtain coins s' where
    r: "DeductAssetsHook k ctx assets s = (None, coins, ?A, s')"
    and am: "\<forall>a\<in>set assets. AmountOf coins (Denom a)
               = TotalTokens a - TotalTokens (take_spec ?now n a)"
    and am0: "\<forall>d. d \<notin> Denom ` set assets \<longrightarrow> AmountOf coins d = 0"
    and st: "\<forall>a\<in>set assets. Assets s' (Denom a) = Some (take_spec ?now n a)"
    and fc: "\<forall>d. FeeCollector s' d = FeeCollector s d + AmountOf coins d"
    and mb: "\<forall>d. ModuleBalance s' d = ModuleBalance s d - AmountOf coins d"
    and cl: "LastRewardClaimTime s'
             = (if \<exists>a\<in>set assets. take_taxed ?now n a
                then LastRewardClaimTime s + int n * RewardClaimInterval s
                else if \<exists>a\<in>set assets. take_eligible ?now a
                then LastRewardClaimTime s else ?now)"
    by blast
  have each: "\<forall>i<length assets.
               (take_eligible ?now (assets ! i) \<and> 1 < take_product n (assets ! i) div precisionReuse
                \<longrightarrow> ?A ! i
                      = (assets ! i)\<lparr>TotalTokens := take_product n (assets ! i) div precisionReuse\<rparr>)
             \<and> (\<not> take_eligible ?now (assets ! i) \<or> take_product n (assets ! i) \<le> LegacyOneDec
                \<longrightarrow> ?A ! i = assets ! i)
             \<and> Assets s' (Denom (assets ! i)) = Some (?A ! i)
             \<and> AmountOf coins (Denom (assets ! i))
                   = TotalTokens (assets ! i) - TotalTokens (?A ! i)"
  proof (intro allI impI)
    fix i assume i: "i < length assets"
    then have m: "assets ! i \<in> set assets" by simp
    show "(take_eligible ?now (assets ! i) \<and> 1 < take_product n (assets ! i) div precisionReuse
                \<longrightarrow> ?A ! i
                      = (assets ! i)\<lparr>TotalTokens := take_product n (assets ! i) div precisionReuse\<rparr>)
             \<and> (\<not> take_eligible ?now (assets ! i) \<or> take_product n (assets ! i) \<le> LegacyOneDec
                \<longrightarrow> ?A ! i = assets ! i)
             \<and> Assets s' (Denom (assets ! i)) = Some (?A ! i)
             \<and> AmountOf coins (Denom (assets ! i))
                   = TotalTokens (assets ! i) - TotalTokens (?A ! i)"
      using i m am st take_spec_floor[of ?now "assets ! i" n] take_spec_skip[of ?now "assets ! i" n]
      by simp
  qed
  have clock: "(\<exists>i<length assets. TotalTokens (?A ! i) \<noteq> TotalTokens (assets ! i))
              \<longrightarrow> LastRewardClaimTime s' = LastRewardClaimTime s + int n * RewardClaimInterval s"
  proof
    assume "\<exists>i<length assets. TotalTokens (?A ! i) \<noteq> TotalTokens (assets ! i)"
    then obtain i where i: "i < length assets"
      and c: "TotalTokens (take_spec ?now n (assets ! i)) \<noteq> TotalTokens (assets ! i)"
      by auto
    have "take_taxed ?now n (assets ! i)"
    proof (rule ccontr)
      assume "\<not> take_taxed ?now n (assets ! i)"
      then have "take_spec ?now n (assets ! i) = assets ! i" by (rule take_spec_untaxed)
      then show False using c by simp
    qed
    then have "\<exists>a\<in>set assets. take_taxed ?now n a" using i by auto
    then show "LastRewardClaimTime s' = LastRewardClaimTime s + int n * RewardClaimInterval s"
      using cl by simp
  qed
  show ?thesis
    using r each am0 fc mb clock
    by (intro exI[of _ coins] exI[of _ ?A] exI[of _ s']) simp
qed

theorem DeductAssetsHook_take_rate_witness:
  "LastRewardClaimTime (testTaxStore 1000) \<noteq> zeroTime
   \<and> LastRewardClaimTime (testTaxStore 1000) + RewardClaimInterval (testTaxStore 1000)
        < BlockTime testCtx
   \<and> 3 = nat ((BlockTime testCtx - LastRewardClaimTime (testTaxStore 1000))
                div RewardClaimInterval (testTaxStore 1000))
   \<and> take_eligible (BlockTime testCtx) (testTaxAsset 1000)
   \<and> take_product 3 (testTaxAsset 1000) div precisionReuse = 125
   \<and> TotalTokens (testTaxAsset 1000) \<le> ModuleBalance (testTaxStore 1000) ''alliance''
   \<and> (\<exists>coins s'.
         DeductAssetsHook testKeeper testCtx [testTaxAsset 1000] (testTaxStore 1000)
           = (None, coins, [testTaxAsset 125], s')
         \<and> Assets s' ''alliance'' = Some (testTaxAsset 125)
         \<and> AmountOf coins ''alliance'' = 875
         \<and> FeeCollector s' ''alliance'' = 875
         \<and> ModuleBalance s' ''alliance'' = 125
         \<and> LastRewardClaimTime s' = 910)"
proof -
  note ts = testTax_setting[OF testCtx_times(1), of 1000]
  have t: "BlockTime testCtx = 1000" by (simp add: testCtx_def)
  have el: "take_eligible (BlockTime testCtx) (testTaxAsset 1000)" by (simp add: ts(10))
  have fl: "take_product 3 (testTaxAsset 1000) div precisionReuse = 125"
    by (simp add: test_products precisionReuse_def)
  have bal: "\<forall>a\<in>set [testTaxAsset 1000]. TotalTokens a \<le> ModuleBalance (testTaxStore 1000) (Denom a)"
    by (simp add: testTaxAsset_fields testTaxStore_fields)
  have upd: "(testTaxAsset 1000)\<lparr>TotalTokens := 125\<rparr> = testTaxAsset 125"
    by (simp add: testTaxAsset_def)
  from DeductAssetsHook_take_rate[OF ts(2) ts(1) ts(3-9) bal testTax_intervals(1)]
  obtain coins assets' s' where
    r: "DeductAssetsHook testKeeper testCtx [testTaxAsset 1000] (testTaxStore 1000)
             = (None, coins, assets', s')"
    and len: "length assets' = length [testTaxAsset 1000]"
    and a: "\<forall>i<length [testTaxAsset 1000].
               (take_eligible (BlockTime testCtx) ([testTaxAsset 1000] ! i)
                  \<and> 1 < take_product 3 ([testTaxAsset 1000] ! i) div precisionReuse
                \<longrightarrow> assets' ! i
                      = ([testTaxAsset 1000] ! i)
                          \<lparr>TotalTokens := take_product 3 ([testTaxAsset 1000] ! i) div precisionReuse\<rparr>)
             \<and> (\<not> take_eligible (BlockTime testCtx) ([testTaxAsset 1000] ! i)
                  \<or> take_product 3 ([testTaxAsset 1000] ! i) \<le> LegacyOneDec
                \<longrightarrow> assets' ! i = [testTaxAsset 1000] ! i)
             \<and> Assets s' (Denom ([testTaxAsset 1000] ! i)) = Some (assets' ! i)
             \<and> AmountOf coins (Denom ([testTaxAsset 1000] ! i))
                   = TotalTokens ([testTaxAsset 1000] ! i) - TotalTokens (assets' ! i)"
    and f: "\<forall>d. FeeCollector s' d = FeeCollector (testTaxStore 1000) d + AmountOf coins d
                \<and> ModuleBalance s' d = ModuleBalance (testTaxStore 1000) d - AmountOf coins d"
    and l: "(\<exists>i<length [testTaxAsset 1000].
                TotalTokens (assets' ! i) \<noteq> TotalTokens ([testTaxAsset 1000] ! i))
              \<longrightarrow> LastRewardClaimTime s'
                    = LastRewardClaimTime (testTaxStore 1000)
                      + int 3 * RewardClaimInterval (testTaxStore 1000)"
    by blast
  have a0: "assets' ! 0 = testTaxAsset 125" using a el fl by (simp add: upd)
  obtain x where x: "assets' = [x]" using len by (cases assets') simp_all
  have as: "assets' = [testTaxAsset 125]" using a0 x by simp
  have st: "Assets s' ''alliance'' = Some (testTaxAsset 125)"
    and am: "AmountOf coins ''alliance'' = 875"
    using a a0 by (simp_all add: testTaxAsset_fields)
  have lc: "LastRewardClaimTime s' = 910"
    using l a0 by (simp add: testTaxAsset_fields testTaxStore_fields)
  have "\<exists>coins s'.
         DeductAssetsHook testKeeper testCtx [testTaxAsset 1000] (testTaxStore 1000)
           = (None, coins, [testTaxAsset 125], s')
         \<and> Assets s' ''alliance'' = Some (testTaxAsset 125)
         \<and> AmountOf coins ''alliance'' = 875
         \<and> FeeCollector s' ''alliance'' = 875
         \<and> ModuleBalance s' ''alliance'' = 125
         \<and> LastRewardClaimTime s' = 910"
    using r as st am lc f
    by (intro exI[of _ coins] exI[of _ s']) (simp add: testTaxStore_fields)
  then show ?thesis
    using ts(1,2) testTax_intervals(1)[of 1000] el fl
    by (simp add: testTaxAsset_fields testTaxStore_fields)
qed

text \<open>
  The claim as it stands fails on the first invocation, before the clock was ever set: the
  zero time plus the interval has long passed, three whole intervals are counted, the asset
  holds 1000 tokens at take rate 0.5 and is eligible, the floor of its product is 125; the
  hook deducts nothing, leaves the asset at 1000 tokens, and sets \<open>lastClaimTime\<close> to the
  block time.
\<close>

theorem take_rate_unset_clock_counterexample:
  "LastRewardClaimTime (testUnsetStore 1000) = zeroTime
   \<and> LastRewardClaimTime (testUnsetStore 1000) + RewardClaimInterval (testUnsetStore 1000)
        < BlockTime testCtx
   \<and> nat ((BlockTime testCtx - LastRewardClaimTime (testUnsetStore 1000))
            div RewardClaimInterval (testUnsetStore 1000)) = 3
   \<and> Assets (testUnsetStore 1000) ''alliance'' = Some (testTaxAsset 1000)
   \<and> take_eligible (BlockTime testCtx) (testTaxAsset 1000)
   \<and> take_product 3 (testTaxAsset 1000) div precisionReuse = 125
   \<and> TotalTokens (testTaxAsset 1000) = 1000
   \<and> (\<exists>s'. DeductAssetsHook testKeeper testCtx [testTaxAsset 1000] (testUnsetStore 1000)
               = (None, [], [testTaxAsset 1000], s')
          \<and> Assets s' ''alliance'' = Some (testTaxAsset 1000)
          \<and> FeeCollector s' ''alliance'' = 0
          \<and> LastRewardClaimTime s' = 1000)"
proof -
  note ts = testTax_setting[OF testCtx_times(1), of 1000]
  have t: "BlockTime testCtx = 1000" by (simp add: testCtx_def)
  have u: "LastRewardClaimTime (testUnsetStore 1000) = zeroTime"
    "RewardClaimInterval (testUnsetStore 1000) = 300"
    "Assets (testUnsetStore 1000) ''alliance'' = Some (testTaxAsset 1000)"
    "FeeCollector (testUnsetStore 1000) ''alliance'' = 0"
    "RewardDelayTime (ParamsOf (testUnsetStore 1000)) = 60"
    "TakeRateClaimInterval (ParamsOf (testUnsetStore 1000)) = 300"
    by (simp_all add: testUnsetStore_def testTaxStore_fields LastRewardClaimTime_def
        RewardClaimInterval_def testTaxStore_def testStore_def)
  have fire: "LastRewardClaimTime (testUnsetStore 1000) + RewardClaimInterval (testUnsetStore 1000)
        < BlockTime testCtx"
    by (simp add: u t zeroTime_def)
  have vpd: "ValidatePositiveDuration testKeeper (RewardDelayTime (ParamsOf (testUnsetStore 1000)))"
    "ValidatePositiveDuration testKeeper (TakeRateClaimInterval (ParamsOf (testUnsetStore 1000)))"
    by (simp_all add: u testKeeper_def)
  have el: "take_eligible (BlockTime testCtx) (testTaxAsset 1000)" by (simp add: ts(10))
  have fl: "take_product 3 (testTaxAsset 1000) div precisionReuse = 125"
    by (simp add: test_products precisionReuse_def)
  have n: "nat ((BlockTime testCtx - LastRewardClaimTime (testUnsetStore 1000))
            div RewardClaimInterval (testUnsetStore 1000)) = 3"
    by (simp add: u t zeroTime_def)
  have h: "\<exists>s'. DeductAssetsHook testKeeper testCtx [testTaxAsset 1000] (testUnsetStore 1000)
               = (None, [], [testTaxAsset 1000], s')
          \<and> Assets s' ''alliance'' = Some (testTaxAsset 1000)
          \<and> FeeCollector s' ''alliance'' = 0
          \<and> LastRewardClaimTime s' = 1000"
    by (simp add: DeductAssetsHook_unset_clock[OF u(1) fire vpd] u t LastRewardClaimTime_def)
  show ?thesis using u(1,3) fire n el fl h by (simp add: testTaxAsset_fields)
qed

text \<open>
  C4. The loop guards the reduction with a comparison of the product before it is floored
  (\<open>newAmount.LTE(LegacyOneDec())\<close>), under the comment that a reduction to at most one token
  is not made. With one elapsed interval at take rate 0.5, an asset of three tokens has the
  product 1.5, whose floor is 1: the specification skips it, the hook reduces it to one
  token and pays out two. An asset of two tokens, whose floor is 1 as well, is skipped.
\<close>

theorem DeductAssetsHook_floor_protection_slip:
  "nat ((BlockTime (testCtx\<lparr>BlockTime := 400\<rparr>) - LastRewardClaimTime (testTaxStore 3))
            div RewardClaimInterval (testTaxStore 3)) = 1
   \<and> take_eligible (BlockTime (testCtx\<lparr>BlockTime := 400\<rparr>)) (testTaxAsset 3)
   \<and> take_product 1 (testTaxAsset 3) = 1500000000000000000
   \<and> TruncateInt (take_product 1 (testTaxAsset 3)) = 1
   \<and> (\<exists>coins s'.
          DeductAssetsHook testKeeper (testCtx\<lparr>BlockTime := 400\<rparr>) [testTaxAsset 3] (testTaxStore 3)
            = (None, coins, [testTaxAsset 1], s')
          \<and> AmountOf coins ''alliance'' = 2
          \<and> Assets s' ''alliance'' = Some (testTaxAsset 1))
   \<and> TotalTokens (testTaxAsset 3) = 3 \<and> TotalTokens (testTaxAsset 1) = 1
   \<and> take_eligible (BlockTime (testCtx\<lparr>BlockTime := 400\<rparr>)) (testTaxAsset 2)
   \<and> TruncateInt (take_product 1 (testTaxAsset 2)) = 1
   \<and> DeductAssetsHook testKeeper (testCtx\<lparr>BlockTime := 400\<rparr>) [testTaxAsset 2] (testTaxStore 2)
        = (None, [], [testTaxAsset 2], testTaxStore 2)"
proof -
  let ?c = "testCtx\<lparr>BlockTime := 400\<rparr>"
  note ts = testTax_setting[OF testCtx_times(2), of 3]
  note ts2 = testTax_setting[OF testCtx_times(2), of 2]
  have t: "BlockTime ?c = 400" by simp
  have bal: "\<forall>a\<in>set [testTaxAsset 3]. take_taxed (BlockTime ?c) (Suc 0) a
           \<longrightarrow> TotalTokens a \<le> ModuleBalance (testTaxStore 3) (Denom a)"
    by (simp add: testTaxAsset_fields testTaxStore_fields)
  from DeductAssetsHook_ok[OF ts(1-9) bal testTax_intervals(2)] obtain coins s' where
    r: "DeductAssetsHook testKeeper ?c [testTaxAsset 3] (testTaxStore 3)
       = (None, coins, map (take_spec (BlockTime ?c) (Suc 0)) [testTaxAsset 3], s')"
    and am: "\<forall>a\<in>set [testTaxAsset 3]. AmountOf coins (Denom a)
               = TotalTokens a - TotalTokens (take_spec (BlockTime ?c) (Suc 0) a)"
    and st: "\<forall>a\<in>set [testTaxAsset 3]. Assets s' (Denom a)
               = Some (take_spec (BlockTime ?c) (Suc 0) a)"
    by blast
  have three: "\<exists>coins s'.
          DeductAssetsHook testKeeper ?c [testTaxAsset 3] (testTaxStore 3)
            = (None, coins, [testTaxAsset 1], s')
          \<and> AmountOf coins ''alliance'' = 2
          \<and> Assets s' ''alliance'' = Some (testTaxAsset 1)"
    using r am st
    by (intro exI[of _ coins] exI[of _ s']) (simp add: testTax_spec testTaxAsset_fields)
  have el3: "take_eligible (BlockTime ?c) (testTaxAsset 3)"
    and el2: "take_eligible (BlockTime ?c) (testTaxAsset 2)"
    using ts(10) ts2(10) by simp_all
  have n: "nat ((BlockTime ?c - LastRewardClaimTime (testTaxStore 3))
            div RewardClaimInterval (testTaxStore 3)) = 1"
    by (simp add: testTaxStore_fields)
  have p3: "take_product 1 (testTaxAsset 3) = 1500000000000000000"
    and p2: "take_product 1 (testTaxAsset 2) = 1000000000000000000"
    by (simp_all add: test_products)
  have f3: "TruncateInt (take_product 1 (testTaxAsset 3)) = 1"
    and f2: "TruncateInt (take_product 1 (testTaxAsset 2)) = 1"
    by (simp_all add: test_products TruncateInt_def bigQuo_def precisionReuse_def)
  have el': "\<exists>a\<in>set [testTaxAsset 2]. take_eligible (BlockTime ?c) a" using el2 by simp
  have sk: "\<forall>a\<in>set [testTaxAsset 2]. take_eligible (BlockTime ?c) a
              \<longrightarrow> take_product (Suc 0) a \<le> LegacyOneDec"
    by (simp add: test_products LegacyOneDec_def precisionReuse_def)
  have two: "DeductAssetsHook testKeeper ?c [testTaxAsset 2] (testTaxStore 2)
        = (None, [], [testTaxAsset 2], testTaxStore 2)"
    by (rule DeductAssetsHook_all_skipped[OF ts2(1-9) testTax_intervals(2) el' sk])
  have tk: "TotalTokens (testTaxAsset 3) = 3 \<and> TotalTokens (testTaxAsset 1) = 1"
    by (simp add: testTaxAsset_fields)
  show ?thesis using n el3 p3 f3 three tk el2 f2 two by blast
qed

text \<open>
  C10. When the hook runs its deduction loop (the block time has passed
  \<open>lastClaimTime + claimInterval\<close> and \<open>lastClaimTime\<close> is set), at least one asset is eligible,
  and every eligible asset is skipped by the floor protection, no coin is deducted, and the
  store is returned as it was: \<open>lastClaimTime\<close> is not advanced, so the same intervals are
  counted again by the next invocation.
\<close>

theorem DeductAssetsHook_no_deduction_keeps_clock:
  assumes "LastRewardClaimTime s + RewardClaimInterval s < BlockTime ctx"
    and "LastRewardClaimTime s \<noteq> zeroTime"
    and "0 < RewardClaimInterval s"
    and "BlockTime ctx - LastRewardClaimTime s \<le> maxDuration"
    and "ValidatePositiveDuration k (RewardDelayTime (ParamsOf s))"
    and "ValidatePositiveDuration k (TakeRateClaimInterval (ParamsOf s))"
    and "\<forall>a\<in>set assets. TakeRate a \<le> LegacyOneDec"
    and "distinct (map Denom assets)"
    and "\<forall>a\<in>set assets. Assets s (Denom a) = Some a"
    and "n = nat ((BlockTime ctx - LastRewardClaimTime s) div RewardClaimInterval s)"
    and "\<exists>a\<in>set assets. take_eligible (BlockTime ctx) a"
    and "\<forall>a\<in>set assets. take_eligible (BlockTime ctx) a \<longrightarrow> take_product n a \<le> LegacyOneDec"
  shows "\<exists>coins assets' s'.
           DeductAssetsHook k ctx assets s = (None, coins, assets', s')
         \<and> coins = [] \<and> assets' = assets
         \<and> LastRewardClaimTime s' = LastRewardClaimTime s \<and> s' = s"
  using DeductAssetsHook_all_skipped[OF assms] by simp

theorem DeductAssetsHook_no_deduction_keeps_clock_witness:
  "LastRewardClaimTime (testTaxStore 2) + RewardClaimInterval (testTaxStore 2) < BlockTime testCtx
   \<and> LastRewardClaimTime (testTaxStore 2) \<noteq> zeroTime
   \<and> take_eligible (BlockTime testCtx) (testTaxAsset 2)
   \<and> take_product 3 (testTaxAsset 2) \<le> LegacyOneDec
   \<and> (\<exists>coins assets' s'.
         DeductAssetsHook testKeeper testCtx [testTaxAsset 2] (testTaxStore 2)
           = (None, coins, assets', s')
         \<and> coins = [] \<and> LastRewardClaimTime s' = 10)"
proof -
  note ts = testTax_setting[OF testCtx_times(1), of 2]
  have el: "take_eligible (BlockTime testCtx) (testTaxAsset 2)" by (simp add: ts(10))
  have pr: "take_product 3 (testTaxAsset 2) \<le> LegacyOneDec"
    by (simp add: test_products LegacyOneDec_def precisionReuse_def)
  have el': "\<exists>a\<in>set [testTaxAsset 2]. take_eligible (BlockTime testCtx) a" using el by simp
  have sk: "\<forall>a\<in>set [testTaxAsset 2]. take_eligible (BlockTime testCtx) a
              \<longrightarrow> take_product 3 a \<le> LegacyOneDec"
    using pr by simp
  from DeductAssetsHook_no_deduction_keeps_clock[OF ts(1-9) testTax_intervals(1) el' sk]
  have "\<exists>coins assets' s'.
         DeductAssetsHook testKeeper testCtx [testTaxAsset 2] (testTaxStore 2)
           = (None, coins, assets', s')
         \<and> coins = [] \<and> LastRewardClaimTime s' = 10"
    by (simp add: testTaxStore_fields)
  then show ?thesis using ts(1,2) el pr by blast
qed

section \<open>Share and token conversion: the claim\<close>

lemma chopRoundPos_mono:
  assumes xy: "x \<le> y"
  shows "chopRoundPos x \<le> chopRoundPos y"
proof (cases "x div precisionReuse < y div precisionReuse")
  case True
  then show ?thesis using chopRoundPos_bounds(2)[of x] chopRoundPos_bounds(1)[of y] by linarith
next
  case False
  have "x div precisionReuse \<le> y div precisionReuse"
    using xy precisionReuse_pos by (intro zdiv_mono1) simp_all
  then have q: "x div precisionReuse = y div precisionReuse" using False by simp
  have mx: "x mod precisionReuse = x - x div precisionReuse * precisionReuse"
    by (simp add: minus_div_mult_eq_mod)
  have my: "y mod precisionReuse = y - y div precisionReuse * precisionReuse"
    by (simp add: minus_div_mult_eq_mod)
  have r: "x mod precisionReuse \<le> y mod precisionReuse"
    unfolding mx my q using xy by linarith
  have r0: "0 \<le> x mod precisionReuse" using precisionReuse_pos by simp
  show ?thesis using r r0 by (auto simp: chopRoundPos_def Let_def q)
qed

lemma chopRoundPos_nonneg: "0 \<le> x \<Longrightarrow> 0 \<le> chopRoundPos x"
proof -
  assume "0 \<le> x"
  then have "0 \<le> x div precisionReuse" using precisionReuse_pos by (simp add: pos_imp_zdiv_nonneg_iff)
  then show ?thesis using chopRoundPos_bounds(1)[of x] by linarith
qed

lemma QuoRaw_pos_eq:
  "0 \<le> a \<Longrightarrow> 0 < b \<Longrightarrow> QuoRaw a b = chopRoundPos (a * (precisionReuse * precisionReuse) div b)"
proof -
  assume a: "0 \<le> a" and b: "0 < b"
  have n: "0 \<le> a * (precisionReuse * precisionReuse)" using a precisionReuse_pos by simp
  have "0 \<le> a * (precisionReuse * precisionReuse) div b"
    using n b by (simp add: pos_imp_zdiv_nonneg_iff)
  then show ?thesis by (simp add: QuoRaw_def bigQuo_pos[OF n b] chop_nonneg)
qed

lemma QuoRaw_nonneg: "0 \<le> a \<Longrightarrow> 0 < b \<Longrightarrow> 0 \<le> QuoRaw a b"
  using precisionReuse_pos
  by (simp add: QuoRaw_pos_eq chopRoundPos_nonneg pos_imp_zdiv_nonneg_iff)

lemma QuoRaw_mono:
  assumes "0 \<le> a" "a \<le> a'" "0 < b"
  shows "QuoRaw a b \<le> QuoRaw a' b"
proof -
  have "a * (precisionReuse * precisionReuse) \<le> a' * (precisionReuse * precisionReuse)"
    using assms precisionReuse_pos by (intro mult_right_mono) simp_all
  then have "a * (precisionReuse * precisionReuse) div b \<le> a' * (precisionReuse * precisionReuse) div b"
    using assms by (intro zdiv_mono1) simp_all
  then show ?thesis using assms by (simp add: QuoRaw_pos_eq chopRoundPos_mono)
qed

lemma QuoRaw_ge_one:
  assumes "0 < b" "b \<le> a"
  shows "precisionReuse \<le> QuoRaw a b"
proof -
  let ?P = precisionReuse
  have "b * (?P * ?P) \<le> a * (?P * ?P)" using assms precisionReuse_pos by (intro mult_right_mono) simp_all
  then have "b * (?P * ?P) div b \<le> a * (?P * ?P) div b" using assms by (intro zdiv_mono1) simp_all
  then have 1: "?P * ?P \<le> a * (?P * ?P) div b" using assms by simp
  have "?P * ?P div ?P \<le> (a * (?P * ?P) div b) div ?P"
    using 1 precisionReuse_pos by (intro zdiv_mono1) simp_all
  then have "?P \<le> (a * (?P * ?P) div b) div ?P" using precisionReuse_pos by simp
  then have "?P \<le> chopRoundPos (a * (?P * ?P) div b)"
    using chopRoundPos_bounds(1)[of "a * (?P * ?P) div b"] by linarith
  then show ?thesis using assms by (simp add: QuoRaw_pos_eq)
qed

lemma Mul_mono_left:
  assumes "0 \<le> q" "q \<le> q'" "0 \<le> t"
  shows "Mul q t \<le> Mul q' t"
proof -
  have "q * t \<le> q' * t" using assms by (intro mult_right_mono) simp_all
  moreover have "0 \<le> q * t" "0 \<le> q' * t" using assms by simp_all
  ultimately show ?thesis by (simp add: Mul_def chop_nonneg chopRoundPos_mono)
qed

text \<open>
  C8 (amended). For the pool of a validator and an asset, with decimal totals \<open>T\<close> (tokens)
  and \<open>S\<close> (shares): in a pool without shares the token-to-share conversion is one to one,
  so it yields zero shares exactly for zero tokens; in a pool with \<open>0 < T \<le> S\<close> it succeeds
  and yields zero shares exactly for zero tokens; for \<open>0 < T\<close> and \<open>0 \<le> S\<close> it is monotonic in
  the tokens. The share-to-token conversion of zero shares in a pool with shares yields zero
  tokens, and for \<open>0 < S\<close>, \<open>0 \<le> T\<close> it is monotonic in the (non-negative) shares.
\<close>

theorem share_conversions:
  "(ConvertNewTokenToShares T 0 n = Some 0 \<longleftrightarrow> n = 0)
   \<and> (0 < T \<and> T \<le> S
        \<longrightarrow> (\<exists>sh. ConvertNewTokenToShares T S n = Some sh \<and> (sh = 0 \<longleftrightarrow> n = 0)))
   \<and> (0 < T \<and> 0 \<le> S \<and> n \<le> n'
        \<longrightarrow> (\<exists>sh sh'. ConvertNewTokenToShares T S n = Some sh
                     \<and> ConvertNewTokenToShares T S n' = Some sh' \<and> sh \<le> sh'))
   \<and> (S \<noteq> 0 \<longrightarrow> ConvertNewShareToDecToken T S 0 = Some 0)
   \<and> (0 < S \<and> 0 \<le> T \<and> 0 \<le> x \<and> x \<le> x'
        \<longrightarrow> (\<exists>t t'. ConvertNewShareToDecToken T S x = Some t
                    \<and> ConvertNewShareToDecToken T S x' = Some t' \<and> t \<le> t'))"
proof (intro conjI impI)
  show "ConvertNewTokenToShares T 0 n = Some 0 \<longleftrightarrow> n = 0"
    using precisionReuse_pos by (simp add: ConvertNewTokenToShares_def LegacyNewDecFromInt_def)
next
  assume h: "0 < T \<and> T \<le> S"
  then have "precisionReuse \<le> QuoRaw S T" by (intro QuoRaw_ge_one) simp_all
  then have "0 < QuoRaw S T" using precisionReuse_pos by linarith
  then show "\<exists>sh. ConvertNewTokenToShares T S n = Some sh \<and> (sh = 0 \<longleftrightarrow> n = 0)"
    using h by (simp add: ConvertNewTokenToShares_def Quo_def MulInt_def)
next
  assume h: "0 < T \<and> 0 \<le> S \<and> n \<le> n'"
  show "\<exists>sh sh'. ConvertNewTokenToShares T S n = Some sh
                     \<and> ConvertNewTokenToShares T S n' = Some sh' \<and> sh \<le> sh'"
  proof (cases "S = 0")
    case True
    then show ?thesis using h precisionReuse_pos
      by (simp add: ConvertNewTokenToShares_def LegacyNewDecFromInt_def)
  next
    case False
    have "0 \<le> QuoRaw S T" using h by (intro QuoRaw_nonneg) simp_all
    then have "QuoRaw S T * n \<le> QuoRaw S T * n'" using h by (intro mult_left_mono) simp_all
    then show ?thesis using h False by (simp add: ConvertNewTokenToShares_def Quo_def MulInt_def)
  qed
next
  assume "S \<noteq> 0"
  then show "ConvertNewShareToDecToken T S 0 = Some 0"
    by (simp add: ConvertNewShareToDecToken_def Quo_def QuoRaw_def bigQuo_def Mul_def
        chopPrecisionAndRound_def chopRoundPos_def)
next
  assume h: "0 < S \<and> 0 \<le> T \<and> 0 \<le> x \<and> x \<le> x'"
  have 1: "QuoRaw x S \<le> QuoRaw x' S" using h by (intro QuoRaw_mono) simp_all
  have 0: "0 \<le> QuoRaw x S" using h by (intro QuoRaw_nonneg) simp_all
  have "Mul (QuoRaw x S) T \<le> Mul (QuoRaw x' S) T" using 0 1 h by (intro Mul_mono_left) simp_all
  then show "\<exists>t t'. ConvertNewShareToDecToken T S x = Some t
                    \<and> ConvertNewShareToDecToken T S x' = Some t' \<and> t \<le> t'"
    using h by (simp add: ConvertNewShareToDecToken_def Quo_def)
qed

theorem share_conversions_witness:
  "(0::int) < LegacyNewDec 2 \<and> LegacyNewDec 2 \<le> LegacyNewDec 4 \<and> (3::int) \<le> 5
   \<and> ConvertNewTokenToShares (LegacyNewDec 2) (LegacyNewDec 4) 3 = Some (LegacyNewDec 6)
   \<and> ConvertNewTokenToShares (LegacyNewDec 2) (LegacyNewDec 4) 5 = Some (LegacyNewDec 10)
   \<and> LegacyNewDec 6 \<le> LegacyNewDec 10
   \<and> ConvertNewTokenToShares (LegacyNewDec 2) (LegacyNewDec 4) 0 = Some 0
   \<and> ConvertNewShareToDecToken (LegacyNewDec 2) (LegacyNewDec 4) 0 = Some 0
   \<and> ConvertNewShareToDecToken (LegacyNewDec 2) (LegacyNewDec 4) (LegacyNewDec 1) = Some (5 * 10 ^ 17)
   \<and> ConvertNewShareToDecToken (LegacyNewDec 2) (LegacyNewDec 4) (LegacyNewDec 3) = Some (15 * 10 ^ 17)"
  using share_conversions[of "LegacyNewDec 2" 3 "LegacyNewDec 4" 5 "LegacyNewDec 1" "LegacyNewDec 3"]
  by (simp add: LegacyNewDec_def precisionReuse_def ConvertNewTokenToShares_def
      ConvertNewShareToDecToken_def Quo_def QuoRaw_def bigQuo_def MulInt_def Mul_def
      chopPrecisionAndRound_def chopRoundPos_def fivePrecision_def Let_def)

text \<open>
  Positive shares can be worth zero tokens: one share of a pool of four shares and two
  tokens is paid out as 0 tokens by \<open>GetDelegationTokens\<close> (0.5 plus the epsilon, truncated);
  and where the 18-digit exchange rate rounds to zero, \<open>10^-18\<close> shares convert to 0 decimal
  tokens and 5 tokens convert to 0 shares.
\<close>

theorem share_conversions_counterexample:
  "(0::int) < LegacyNewDec 1
   \<and> GetDelegationTokens (LegacyNewDec 1) (LegacyNewDec 2) (LegacyNewDec 4) = Some 0
   \<and> ConvertNewShareToDecToken (LegacyNewDec 1) (LegacyNewDec 4) 1 = Some 0
   \<and> ConvertNewTokenToShares (LegacyNewDec 3) 1 5 = Some 0"
  by (simp add: LegacyNewDec_def precisionReuse_def GetDelegationTokens_def
      GetDelegationTokensWithShares_def ConvertNewTokenToShares_def TruncateInt_def
      LegacyNewDecWithPrec_def
      ConvertNewShareToDecToken_def Quo_def QuoRaw_def bigQuo_def MulInt_def Mul_def
      chopPrecisionAndRound_def chopRoundPos_def fivePrecision_def Let_def)

section \<open>Rebalancer: a second run changes nothing\<close>

lemma ExpectedBondLoop_store:
  "\<exists>q. snd (ExpectedBondLoop ctx N U info assets e s) = s\<lparr>RebalanceQueued := q\<rparr>"
proof (induction assets arbitrary: e s)
  case Nil
  have "s = s\<lparr>RebalanceQueued := RebalanceQueued s\<rparr>" by simp
  then show ?case by (metis ExpectedBondLoop.simps(1) snd_conv)
next
  case (Cons a assets)
  show ?case
  proof (cases "RewardsStarted a (BlockTime ctx)")
    case True
    then show ?thesis using Cons.IH by (simp add: Let_def)
  next
    case False
    from Cons.IH[of e "QueueAssetRebalanceEvent s"] obtain q where
      "snd (ExpectedBondLoop ctx N U info assets e (QueueAssetRebalanceEvent s))
         = (QueueAssetRebalanceEvent s)\<lparr>RebalanceQueued := q\<rparr>" by blast
    then show ?thesis using False
      by (intro exI[of _ q]) (simp add: QueueAssetRebalanceEvent_def)
  qed
qed

lemma ExpectedBondLoop_value:
  "ValidatorShares info = ValidatorShares info' \<Longrightarrow>
   fst (ExpectedBondLoop ctx N U info assets e s) = fst (ExpectedBondLoop ctx N U info' assets e t)"
proof (induction assets arbitrary: e s t)
  case Nil
  then show ?case by simp
next
  case (Cons a assets)
  show ?case
    using Cons.IH[OF Cons.prems] Cons.prems
    by (simp add: Let_def ValidatorSharesWithDenom_def)
qed

lemma settled_after_bond:
  assumes "e > LegacyNewDecFromInt m"
  shows "settledBond e (m + TruncateInt (e - LegacyNewDecFromInt m))"
proof -
  let ?P = precisionReuse
  let ?d = "e - m * ?P"
  have P: "0 < ?P" by (simp add: precisionReuse_def)
  have d: "0 \<le> ?d" using assms by (simp add: LegacyNewDecFromInt_def)
  have t: "TruncateInt ?d = ?d div ?P" using d by (rule TruncateInt_nonneg)
  have r: "e - (m + ?d div ?P) * ?P = ?d mod ?P"
    by (simp add: algebra_simps minus_div_mult_eq_mod[symmetric])
  have m0: "0 \<le> ?d mod ?P" and m1: "?d mod ?P < ?P" using P by simp_all
  have "TruncateInt (?d mod ?P) = 0" using m0 m1 by (simp add: TruncateInt_nonneg)
  moreover have "\<not> e < (m + ?d div ?P) * ?P" using r m0 by linarith
  ultimately show ?thesis
    using r t by (simp add: settledBond_def LegacyNewDecFromInt_def)
qed

lemma settled_after_unbond:
  assumes "e < LegacyNewDecFromInt m"
  shows "settledBond e (m - TruncateInt (LegacyNewDecFromInt m - e))"
proof -
  let ?P = precisionReuse
  let ?d = "m * ?P - e"
  have P: "0 < ?P" by (simp add: precisionReuse_def)
  have d: "0 \<le> ?d" using assms by (simp add: LegacyNewDecFromInt_def)
  have t: "TruncateInt ?d = ?d div ?P" using d by (rule TruncateInt_nonneg)
  have r: "(m - ?d div ?P) * ?P - e = ?d mod ?P"
    by (simp add: algebra_simps minus_div_mult_eq_mod[symmetric])
  have m0: "0 \<le> ?d mod ?P" and m1: "?d mod ?P < ?P" using P by simp_all
  have "TruncateInt (?d mod ?P) = 0" using m0 m1 by (simp add: TruncateInt_nonneg)
  moreover have "\<not> e > (m - ?d div ?P) * ?P" using r m0 by linarith
  ultimately show ?thesis
    using r t by (simp add: settledBond_def LegacyNewDecFromInt_def)
qed


lemma RebalanceLoop_step:
  assumes run: "RebalanceLoop k ctx assets N U ((v, info) # rest) s = (None, s')"
  shows "\<exists>s1. RebalanceLoop k ctx assets N U rest s1 = (None, s')
     \<and> Bonded s1 = Bonded s
     \<and> (\<forall>u. u \<noteq> v \<longrightarrow> ModuleDelegated s1 u = ModuleDelegated s u)
     \<and> TotalBonded s1 - ModuleDelegated s1 v = TotalBonded s - ModuleDelegated s v
     \<and> settledBond (fst (ExpectedBondLoop ctx N U info assets LegacyZeroDec s))
           (ModuleDelegated s1 v)
     \<and> (ValidatorInfos s1 = ValidatorInfos s
          \<or> (\<exists>h. ValidatorInfos s1
                   = SetValidatorInfo v (info\<lparr>GlobalRewardHistory := h\<rparr>) (ValidatorInfos s)))"
proof -
  obtain E s0 where eb: "ExpectedBondLoop ctx N U info assets LegacyZeroDec s = (E, s0)"
    by (cases "ExpectedBondLoop ctx N U info assets LegacyZeroDec s")
  obtain q where s0: "s0 = s\<lparr>RebalanceQueued := q\<rparr>"
    using ExpectedBondLoop_store[of ctx N U info assets LegacyZeroDec s] eb by auto
  let ?m = "ModuleDelegated s v"
  let ?c = "LegacyNewDecFromInt ?m"
  have m0: "ModuleDelegated s0 = ModuleDelegated s" "TotalBonded s0 = TotalBonded s"
    "Bonded s0 = Bonded s" "ValidatorInfos s0 = ValidatorInfos s"
    by (simp_all add: s0)
  have fin: ?thesis
    if "RebalanceLoop k ctx assets N U rest s1 = (None, s')" "Bonded s1 = Bonded s"
      "ModuleDelegated s1 = (ModuleDelegated s)(v := m')"
      "TotalBonded s1 = TotalBonded s + (m' - ?m)" "settledBond E m'"
      "ValidatorInfos s1 = ValidatorInfos s
          \<or> (\<exists>h. ValidatorInfos s1
                   = SetValidatorInfo v (info\<lparr>GlobalRewardHistory := h\<rparr>) (ValidatorInfos s))"
    for s1 m'
    using that by (intro exI[of _ s1]) (simp add: eb)
  consider (gt) "E > ?c" | (lt) "E < ?c" | (eq) "E = ?c" by linarith
  then show ?thesis
  proof cases
    case eq
    then have r: "RebalanceLoop k ctx assets N U rest s0 = (None, s')"
      using run by (simp add: eb Let_def m0)
    have "settledBond E ?m" using eq by (simp add: settledBond_def)
    then show ?thesis using r m0 by (intro fin[of s0 ?m]) simp_all
  next
    case gt
    let ?b = "TruncateInt (E - ?c)"
    show ?thesis
    proof (cases "?b = 0")
      case True
      then have r: "RebalanceLoop k ctx assets N U rest s0 = (None, s')"
        using run gt by (simp add: eb Let_def m0)
      have "settledBond E ?m" using gt True by (simp add: settledBond_def)
      then show ?thesis using r m0 by (intro fin[of s0 ?m]) simp_all
    next
      case False
      let ?sm = "MintCoins ?b s0"
      obtain h where h: "SettleRewards k ctx ?sm v info = Inr h"
        using run gt False
        by (cases "SettleRewards k ctx ?sm v info")
           (simp_all add: eb Let_def m0 ClaimValidatorRewards_def)
      let ?s1 = "StakingDelegate v ?b
                   (?sm\<lparr>ValidatorInfos :=
                          SetValidatorInfo v (info\<lparr>GlobalRewardHistory := h\<rparr>) (ValidatorInfos ?sm)\<rparr>)"
      have r: "RebalanceLoop k ctx assets N U rest ?s1 = (None, s')"
        using run gt False by (simp add: eb Let_def m0 ClaimValidatorRewards_def h)
      have md: "ModuleDelegated ?s1 = (ModuleDelegated s)(v := ?m + ?b)"
        and tb: "TotalBonded ?s1 = TotalBonded s + ?b"
        and bo: "Bonded ?s1 = Bonded s"
        and vi: "ValidatorInfos ?s1
                   = SetValidatorInfo v (info\<lparr>GlobalRewardHistory := h\<rparr>) (ValidatorInfos s)"
        by (simp_all add: StakingDelegate_def MintCoins_def s0)
      have st: "settledBond E (?m + ?b)" using gt by (rule settled_after_bond)
      have vi': "ValidatorInfos ?s1 = ValidatorInfos s
          \<or> (\<exists>h. ValidatorInfos ?s1
                   = SetValidatorInfo v (info\<lparr>GlobalRewardHistory := h\<rparr>) (ValidatorInfos s))"
        using vi by blast
      show ?thesis
        by (rule fin[of ?s1 "?m + ?b", OF r bo md _ st vi']) (simp add: tb)
    qed
  next
    case lt
    let ?u = "TruncateInt (?c - E)"
    have ngt: "\<not> E > ?c" using lt by simp
    show ?thesis
    proof (cases "?u = 0")
      case True
      then have r: "RebalanceLoop k ctx assets N U rest s0 = (None, s')"
        using run lt ngt by (simp add: eb Let_def m0)
      have "settledBond E ?m" using lt True by (simp add: settledBond_def)
      then show ?thesis using r m0 by (intro fin[of s0 ?m]) simp_all
    next
      case False
      have va: "ValidateUnbondAmount s0 v ?u = Inr ?u"
        using run lt ngt False
        by (cases "ValidateUnbondAmount s0 v ?u")
           (auto simp: eb Let_def m0 ValidateUnbondAmount_def split: if_splits)
      then have le: "?u \<le> ?m" by (simp add: ValidateUnbondAmount_def m0 split: if_splits)
      obtain h where h: "SettleRewards k ctx s0 v info = Inr h"
        using run lt ngt False va
        by (cases "SettleRewards k ctx s0 v info")
           (simp_all add: eb Let_def m0 ClaimValidatorRewards_def)
      let ?sc = "s0\<lparr>ValidatorInfos :=
                       SetValidatorInfo v (info\<lparr>GlobalRewardHistory := h\<rparr>) (ValidatorInfos s0)\<rparr>"
      let ?su = "?sc\<lparr>ModuleDelegated := (ModuleDelegated ?sc)(v := ModuleDelegated ?sc v - ?u)\<rparr>"
      have un: "StakingUnbond v ?u ?sc = Inr (?u, ?su)"
        using le by (simp add: StakingUnbond_def m0)
      obtain s3 where bc: "BurnCoins ?u ?su = Inr s3"
        using run lt ngt False va h un
        by (cases "BurnCoins ?u ?su")
           (simp_all add: eb Let_def m0 ClaimValidatorRewards_def)
      have r: "RebalanceLoop k ctx assets N U rest s3 = (None, s')"
        using run lt ngt False va h un bc
        by (simp add: eb Let_def m0 ClaimValidatorRewards_def)
      have s3: "s3 = ?su\<lparr>TotalBonded := TotalBonded ?su - ?u, Burned := Burned ?su + ?u\<rparr>"
        using bc by (simp add: BurnCoins_def split: if_splits)
      have md: "ModuleDelegated s3 = (ModuleDelegated s)(v := ?m - ?u)"
        and tb: "TotalBonded s3 = TotalBonded s - ?u"
        and bo: "Bonded s3 = Bonded s"
        and vi: "ValidatorInfos s3
                   = SetValidatorInfo v (info\<lparr>GlobalRewardHistory := h\<rparr>) (ValidatorInfos s)"
        by (simp_all add: s3 s0)
      have st: "settledBond E (?m - ?u)" using lt by (rule settled_after_unbond)
      have vi': "ValidatorInfos s3 = ValidatorInfos s
          \<or> (\<exists>h. ValidatorInfos s3
                   = SetValidatorInfo v (info\<lparr>GlobalRewardHistory := h\<rparr>) (ValidatorInfos s))"
        using vi by blast
      show ?thesis
        by (rule fin[of s3 "?m - ?u", OF r bo md _ st vi']) (simp add: tb)
    qed
  qed
qed


lemma RebalanceLoop_effect:
  assumes "distinct (map fst bvs)"
    and "RebalanceLoop k ctx assets N U bvs s = (None, s')"
    and "\<forall>b\<in>set bvs. \<exists>i. map_of (ValidatorInfos s) (fst b) = Some i
                            \<and> ValidatorShares i = ValidatorShares (snd b)"
  shows "Bonded s' = Bonded s
     \<and> (\<forall>u. u \<notin> fst ` set bvs \<longrightarrow> ModuleDelegated s' u = ModuleDelegated s u)
     \<and> TotalBonded s' - sum_list (map (\<lambda>b. ModuleDelegated s' (fst b)) bvs)
         = TotalBonded s - sum_list (map (\<lambda>b. ModuleDelegated s (fst b)) bvs)
     \<and> (\<forall>b\<in>set bvs.
           settledBond (fst (ExpectedBondLoop ctx N U (snd b) assets LegacyZeroDec s))
             (ModuleDelegated s' (fst b)))
     \<and> map fst (ValidatorInfos s') = map fst (ValidatorInfos s)
     \<and> (\<forall>u. map_option ValidatorShares (map_of (ValidatorInfos s') u)
              = map_option ValidatorShares (map_of (ValidatorInfos s) u))"
  using assms
proof (induction bvs arbitrary: s)
  case Nil
  then show ?case by simp
next
  case (Cons b rest)
  obtain v info where b: "b = (v, info)" by (cases b)
  have vn: "v \<notin> fst ` set rest" and dr: "distinct (map fst rest)"
    using Cons.prems(1) by (simp_all add: b)
  obtain i where i: "map_of (ValidatorInfos s) v = Some i"
    and ish: "ValidatorShares i = ValidatorShares info"
    using Cons.prems(3) by (auto simp: b)
  have vk: "v \<in> set (map fst (ValidatorInfos s))"
    using i by (metis map_of_eq_None_iff option.distinct(1) set_map)
  from RebalanceLoop_step[OF Cons.prems(2)[unfolded b]] obtain s1 where
    r: "RebalanceLoop k ctx assets N U rest s1 = (None, s')"
    and bo: "Bonded s1 = Bonded s"
    and md: "\<forall>u. u \<noteq> v \<longrightarrow> ModuleDelegated s1 u = ModuleDelegated s u"
    and tb: "TotalBonded s1 - ModuleDelegated s1 v = TotalBonded s - ModuleDelegated s v"
    and st: "settledBond (fst (ExpectedBondLoop ctx N U info assets LegacyZeroDec s))
               (ModuleDelegated s1 v)"
    and vi: "ValidatorInfos s1 = ValidatorInfos s
          \<or> (\<exists>h. ValidatorInfos s1
                   = SetValidatorInfo v (info\<lparr>GlobalRewardHistory := h\<rparr>) (ValidatorInfos s))"
    by blast
  have keys1: "map fst (ValidatorInfos s1) = map fst (ValidatorInfos s)"
    using vi map_fst_SetValidatorInfo[OF vk] by auto
  have mo1: "map_of (ValidatorInfos s1) u = map_of (ValidatorInfos s) u" if "u \<noteq> v" for u
    using vi that by (auto simp: map_of_SetValidatorInfo)
  have sh1: "map_option ValidatorShares (map_of (ValidatorInfos s1) u)
              = map_option ValidatorShares (map_of (ValidatorInfos s) u)" for u
  proof (cases "u = v")
    case True
    then show ?thesis using vi i ish by (auto simp: map_of_SetValidatorInfo)
  next
    case False
    then show ?thesis using mo1 by simp
  qed
  have p3: "\<forall>c\<in>set rest. \<exists>i. map_of (ValidatorInfos s1) (fst c) = Some i
                            \<and> ValidatorShares i = ValidatorShares (snd c)"
  proof
    fix c assume c: "c \<in> set rest"
    then have "fst c \<noteq> v" using vn by auto
    then have "map_of (ValidatorInfos s1) (fst c) = map_of (ValidatorInfos s) (fst c)"
      by (rule mo1)
    then show "\<exists>i. map_of (ValidatorInfos s1) (fst c) = Some i
                            \<and> ValidatorShares i = ValidatorShares (snd c)"
      using Cons.prems(3) c by simp
  qed
  from Cons.IH[OF dr r p3] have
    a1: "Bonded s' = Bonded s1"
    and a2: "\<forall>u. u \<notin> fst ` set rest \<longrightarrow> ModuleDelegated s' u = ModuleDelegated s1 u"
    and a3: "TotalBonded s' - sum_list (map (\<lambda>b. ModuleDelegated s' (fst b)) rest)
         = TotalBonded s1 - sum_list (map (\<lambda>b. ModuleDelegated s1 (fst b)) rest)"
    and a4: "\<forall>b\<in>set rest.
           settledBond (fst (ExpectedBondLoop ctx N U (snd b) assets LegacyZeroDec s1))
             (ModuleDelegated s' (fst b))"
    and a5: "map fst (ValidatorInfos s') = map fst (ValidatorInfos s1)"
    and a6: "\<forall>u. map_option ValidatorShares (map_of (ValidatorInfos s') u)
              = map_option ValidatorShares (map_of (ValidatorInfos s1) u)"
    by simp_all
  have mv: "ModuleDelegated s' v = ModuleDelegated s1 v" using a2 vn by simp
  have c1: "Bonded s' = Bonded s" using a1 bo by simp
  have c2: "\<forall>u. u \<notin> fst ` set (b # rest) \<longrightarrow> ModuleDelegated s' u = ModuleDelegated s u"
    using a2 md by (simp add: b)
  have sr: "map (\<lambda>b. ModuleDelegated s1 (fst b)) rest = map (\<lambda>b. ModuleDelegated s (fst b)) rest"
  proof (rule map_cong[OF refl])
    fix c assume "c \<in> set rest"
    then have "fst c \<noteq> v" using vn by auto
    then show "ModuleDelegated s1 (fst c) = ModuleDelegated s (fst c)" using md by simp
  qed
  have c3: "TotalBonded s' - sum_list (map (\<lambda>b. ModuleDelegated s' (fst b)) (b # rest))
         = TotalBonded s - sum_list (map (\<lambda>b. ModuleDelegated s (fst b)) (b # rest))"
    using a3 tb mv sr by (simp add: b)
  have c4: "\<forall>c\<in>set (b # rest).
           settledBond (fst (ExpectedBondLoop ctx N U (snd c) assets LegacyZeroDec s))
             (ModuleDelegated s' (fst c))"
  proof
    fix c assume c: "c \<in> set (b # rest)"
    show "settledBond (fst (ExpectedBondLoop ctx N U (snd c) assets LegacyZeroDec s))
             (ModuleDelegated s' (fst c))"
    proof (cases "c = b")
      case True
      then show ?thesis using st mv by (simp add: b)
    next
      case False
      then have "c \<in> set rest" using c by simp
      then have "settledBond (fst (ExpectedBondLoop ctx N U (snd c) assets LegacyZeroDec s1))
             (ModuleDelegated s' (fst c))" using a4 by blast
      then show ?thesis
        using ExpectedBondLoop_value[OF refl, of ctx N U "snd c" assets LegacyZeroDec s1 s]
        by simp
    qed
  qed
  have c5: "map fst (ValidatorInfos s') = map fst (ValidatorInfos s)" using a5 keys1 by simp
  have c6: "\<forall>u. map_option ValidatorShares (map_of (ValidatorInfos s') u)
              = map_option ValidatorShares (map_of (ValidatorInfos s) u)"
    using a6 sh1 by simp
  show ?case using c1 c2 c3 c4 c5 c6 by blast
qed

lemma RebalanceLoop_settled:
  assumes "\<forall>b\<in>set bvs.
           settledBond (fst (ExpectedBondLoop ctx N U (snd b) assets LegacyZeroDec s))
             (ModuleDelegated s (fst b))"
  shows "\<exists>q. RebalanceLoop k ctx assets N U bvs s = (None, s\<lparr>RebalanceQueued := q\<rparr>)"
  using assms
proof (induction bvs arbitrary: s)
  case Nil
  show ?case by (intro exI[of _ "RebalanceQueued s"]) simp
next
  case (Cons b rest)
  obtain v info where b: "b = (v, info)" by (cases b)
  obtain E s0 where eb: "ExpectedBondLoop ctx N U info assets LegacyZeroDec s = (E, s0)"
    by (cases "ExpectedBondLoop ctx N U info assets LegacyZeroDec s")
  obtain q0 where s0: "s0 = s\<lparr>RebalanceQueued := q0\<rparr>"
    using ExpectedBondLoop_store[of ctx N U info assets LegacyZeroDec s] eb by auto
  have se: "settledBond E (ModuleDelegated s v)" using Cons.prems eb by (simp add: b)
  have step: "RebalanceLoop k ctx assets N U (b # rest) s = RebalanceLoop k ctx assets N U rest s0"
    using se by (auto simp: b eb Let_def settledBond_def)
  have p: "\<forall>c\<in>set rest.
           settledBond (fst (ExpectedBondLoop ctx N U (snd c) assets LegacyZeroDec s0))
             (ModuleDelegated s0 (fst c))"
  proof
    fix c assume c: "c \<in> set rest"
    have "fst (ExpectedBondLoop ctx N U (snd c) assets LegacyZeroDec s0)
            = fst (ExpectedBondLoop ctx N U (snd c) assets LegacyZeroDec s)"
      by (rule ExpectedBondLoop_value[OF refl])
    then show "settledBond (fst (ExpectedBondLoop ctx N U (snd c) assets LegacyZeroDec s0))
             (ModuleDelegated s0 (fst c))"
      using Cons.prems c by (simp add: s0)
  qed
  from Cons.IH[OF p] obtain q where
    "RebalanceLoop k ctx assets N U rest s0 = (None, s0\<lparr>RebalanceQueued := q\<rparr>)" by blast
  then show ?case using step by (intro exI[of _ q]) (simp add: s0)
qed


lemma PartitionValidators_result:
  assumes "PartitionValidators s vs acc U = Inr (bvs, U')"
  shows "map fst bvs = map fst acc @ filter (\<lambda>v. Bonded s v = Some True) vs
     \<and> (\<forall>b\<in>set bvs. b \<in> set acc \<or> (fst b \<in> set vs \<and> snd b = ValidatorInfoOf s (fst b)))"
  using assms
proof (induction vs arbitrary: acc U)
  case Nil
  then show ?case by simp
next
  case (Cons v vs)
  from Cons.prems obtain b where bd: "Bonded s v = Some b"
    by (cases "Bonded s v") (simp_all add: GetAllianceValidator_def)
  have g: "GetAllianceValidator s v = Inr (b, ValidatorInfoOf s v)"
    using bd by (simp add: GetAllianceValidator_def ValidatorInfoOf_def split: option.splits)
  show ?case
  proof (cases b)
    case True
    then have "PartitionValidators s vs (acc @ [(v, ValidatorInfoOf s v)]) U = Inr (bvs, U')"
      using Cons.prems g by simp
    from Cons.IH[OF this] show ?thesis using bd True by auto
  next
    case False
    then have "PartitionValidators s vs acc (CoinsAddAll U (ValidatorShares (ValidatorInfoOf s v)))
                 = Inr (bvs, U')"
      using Cons.prems g by simp
    from Cons.IH[OF this] show ?thesis using bd False by auto
  qed
qed

lemma PartitionValidators_cong:
  assumes bo: "Bonded t = Bonded s"
    and sh: "\<forall>u. map_option ValidatorShares (map_of (ValidatorInfos t) u)
              = map_option ValidatorShares (map_of (ValidatorInfos s) u)"
    and run: "PartitionValidators s vs acc U = Inr (bvs, U')"
    and acc: "list_all2 (\<lambda>b c. fst b = fst c \<and> ValidatorShares (snd b) = ValidatorShares (snd c))
                acc acc1"
  shows "\<exists>bvs1. PartitionValidators t vs acc1 U = Inr (bvs1, U')
           \<and> list_all2 (\<lambda>b c. fst b = fst c \<and> ValidatorShares (snd b) = ValidatorShares (snd c))
                 bvs bvs1"
  using run acc
proof (induction vs arbitrary: acc acc1 U)
  case Nil
  then show ?case by simp
next
  case (Cons v vs)
  from Cons.prems(1) obtain b where bd: "Bonded s v = Some b"
    by (cases "Bonded s v") (simp_all add: GetAllianceValidator_def)
  have g: "GetAllianceValidator s v = Inr (b, ValidatorInfoOf s v)"
    using bd by (simp add: GetAllianceValidator_def ValidatorInfoOf_def split: option.splits)
  have g1: "GetAllianceValidator t v = Inr (b, ValidatorInfoOf t v)"
    using bd bo by (simp add: GetAllianceValidator_def ValidatorInfoOf_def split: option.splits)
  have vs: "ValidatorShares (ValidatorInfoOf t v) = ValidatorShares (ValidatorInfoOf s v)"
    using sh[rule_format, of v]
    by (cases "map_of (ValidatorInfos t) v"; cases "map_of (ValidatorInfos s) v")
       (simp_all add: ValidatorInfoOf_def)
  show ?case
  proof (cases b)
    case True
    then have r: "PartitionValidators s vs (acc @ [(v, ValidatorInfoOf s v)]) U = Inr (bvs, U')"
      using Cons.prems(1) g by simp
    have a: "list_all2 (\<lambda>b c. fst b = fst c \<and> ValidatorShares (snd b) = ValidatorShares (snd c))
                (acc @ [(v, ValidatorInfoOf s v)]) (acc1 @ [(v, ValidatorInfoOf t v)])"
      using Cons.prems(2) vs by (simp add: list_all2_appendI)
    from Cons.IH[OF r a] show ?thesis using g1 True by simp
  next
    case False
    then have r: "PartitionValidators s vs acc (CoinsAddAll U (ValidatorShares (ValidatorInfoOf s v)))
                 = Inr (bvs, U')"
      using Cons.prems(1) g by simp
    from Cons.IH[OF r Cons.prems(2)] show ?thesis using g1 False vs by simp
  qed
qed


lemma RebalanceBondTokenWeights_second_run:
  assumes d: "distinct (map fst (ValidatorInfos s))"
    and run: "RebalanceBondTokenWeights k ctx assets s = (None, s1)"
  shows "\<exists>q. RebalanceBondTokenWeights k ctx assets s1 = (None, s1\<lparr>RebalanceQueued := q\<rparr>)"
proof -
  let ?keys = "map fst (ValidatorInfos s)"
  let ?N = "TotalBonded s - GetAllianceBondedAmount s"
  let ?R = "\<lambda>b c. fst b = fst c \<and> ValidatorShares (snd b) = ValidatorShares (snd c)"
  obtain bvs U where
    part: "PartitionValidators s ?keys [] [] = Inr (bvs, U)"
    and loop: "RebalanceLoop k ctx assets ?N U bvs s = (None, s1)"
  proof (cases "PartitionValidators s ?keys [] []")
    case (Inl e)
    then have False using run by (simp add: RebalanceBondTokenWeights_def Let_def)
    then show ?thesis ..
  next
    case (Inr p)
    obtain bvs U where p: "p = (bvs, U)" by (cases p)
    have "RebalanceLoop k ctx assets ?N U bvs s = (None, s1)"
      using run Inr p by (simp add: RebalanceBondTokenWeights_def Let_def TotalBondedTokens_def)
    then show ?thesis using that Inr p by simp
  qed
  from PartitionValidators_result[OF part] have
    kb: "map fst bvs = filter (\<lambda>v. Bonded s v = Some True) ?keys"
    and ib: "\<forall>b\<in>set bvs. fst b \<in> set ?keys \<and> snd b = ValidatorInfoOf s (fst b)"
    by simp_all
  have db: "distinct (map fst bvs)" using d kb by simp
  have p3: "\<forall>b\<in>set bvs. \<exists>i. map_of (ValidatorInfos s) (fst b) = Some i
                            \<and> ValidatorShares i = ValidatorShares (snd b)"
  proof
    fix b assume b: "b \<in> set bvs"
    then have "fst b \<in> set ?keys" and sb: "snd b = ValidatorInfoOf s (fst b)" using ib by simp_all
    then obtain i where i: "map_of (ValidatorInfos s) (fst b) = Some i"
      by (metis map_of_eq_None_iff not_Some_eq set_map)
    then have "ValidatorInfoOf s (fst b) = i" by (simp add: ValidatorInfoOf_def)
    then show "\<exists>i. map_of (ValidatorInfos s) (fst b) = Some i
                            \<and> ValidatorShares i = ValidatorShares (snd b)"
      using i sb by simp
  qed
  from RebalanceLoop_effect[OF db loop p3] have
    bo: "Bonded s1 = Bonded s"
    and tb: "TotalBonded s1 - sum_list (map (\<lambda>b. ModuleDelegated s1 (fst b)) bvs)
         = TotalBonded s - sum_list (map (\<lambda>b. ModuleDelegated s (fst b)) bvs)"
    and st: "\<forall>b\<in>set bvs.
           settledBond (fst (ExpectedBondLoop ctx ?N U (snd b) assets LegacyZeroDec s))
             (ModuleDelegated s1 (fst b))"
    and keys: "map fst (ValidatorInfos s1) = ?keys"
    and sh: "\<forall>u. map_option ValidatorShares (map_of (ValidatorInfos s1) u)
              = map_option ValidatorShares (map_of (ValidatorInfos s) u)"
    by simp_all
  have sm: "sum_list (map (\<lambda>b. ModuleDelegated x (fst b)) bvs)
              = sum_list (map (ModuleDelegated x) (filter (\<lambda>v. Bonded s v = Some True) ?keys))"
    for x :: Store
  proof -
    have "sum_list (map (ModuleDelegated x) (filter (\<lambda>v. Bonded s v = Some True) ?keys))
            = sum_list (map (ModuleDelegated x) (map fst bvs))"
      by (simp only: kb)
    also have "\<dots> = sum_list (map (\<lambda>b. ModuleDelegated x (fst b)) bvs)"
      by (simp add: comp_def)
    finally show ?thesis by simp
  qed
  have N1: "TotalBonded s1 - GetAllianceBondedAmount s1 = ?N"
    using tb by (simp add: GetAllianceBondedAmount_def keys bo sm)
  from PartitionValidators_cong[OF bo sh part, of "[]"] obtain bvs1 where
    part1: "PartitionValidators s1 ?keys [] [] = Inr (bvs1, U)"
    and rel: "list_all2 ?R bvs bvs1"
    by auto
  have st1: "\<forall>c\<in>set bvs1.
           settledBond (fst (ExpectedBondLoop ctx ?N U (snd c) assets LegacyZeroDec s1))
             (ModuleDelegated s1 (fst c))"
  proof
    fix c assume "c \<in> set bvs1"
    then obtain j where j: "j < length bvs1" and c: "c = bvs1 ! j"
      by (metis in_set_conv_nth)
    have len: "length bvs = length bvs1" using rel by (rule list_all2_lengthD)
    have rj: "?R (bvs ! j) (bvs1 ! j)" using rel j len by (simp add: list_all2_conv_all_nth)
    have bj: "bvs ! j \<in> set bvs" using j len by simp
    have "settledBond (fst (ExpectedBondLoop ctx ?N U (snd (bvs ! j)) assets LegacyZeroDec s))
             (ModuleDelegated s1 (fst (bvs ! j)))"
      using st bj by blast
    moreover have "fst (ExpectedBondLoop ctx ?N U (snd (bvs ! j)) assets LegacyZeroDec s)
            = fst (ExpectedBondLoop ctx ?N U (snd c) assets LegacyZeroDec s1)"
      using rj c by (intro ExpectedBondLoop_value) simp
    ultimately show "settledBond (fst (ExpectedBondLoop ctx ?N U (snd c) assets LegacyZeroDec s1))
             (ModuleDelegated s1 (fst c))"
      using rj c by simp
  qed
  from RebalanceLoop_settled[OF st1, of k] obtain q where
    "RebalanceLoop k ctx assets ?N U bvs1 s1 = (None, s1\<lparr>RebalanceQueued := q\<rparr>)" by blast
  then have "RebalanceBondTokenWeights k ctx assets s1 = (None, s1\<lparr>RebalanceQueued := q\<rparr>)"
    using part1 N1 by (simp add: RebalanceBondTokenWeights_def Let_def TotalBondedTokens_def keys)
  then show ?thesis by blast
qed

lemma testReb_fields:
  "map fst (ValidatorInfos testRebStore) = [''val1'']"
  "ValidatorInfos testRebStore = [(''val1'', testRebInfo)]"
  "Bonded testRebStore ''val1'' = Some True"
  "TotalBonded testRebStore = 1000000"
  "ModuleDelegated testRebStore v = 0"
  "Minted testRebStore = 0" "Burned testRebStore = 0"
  by (simp_all add: testRebStore_def testStore_def)

lemma testReb_expected:
  "ExpectedBondLoop testCtx 1000000 [] testRebInfo [testRebAsset] LegacyZeroDec s
     = (2000000000000000000000000, s)"
  by (simp add: testCtx_def testRebAsset_def testAsset_def NewAllianceAsset_def RewardsStarted_def
      testRebInfo_def emptyValidatorInfo_def ValidatorSharesWithDenom_def AmountOf_def Let_def
      MulInt_def QuoRaw_def bigQuo_def Mul_def chopPrecisionAndRound_def chopRoundPos_def
      LegacyNewDec_def LegacyZeroDec_def precisionReuse_def fivePrecision_def)

lemma testReb_first_run:
  "\<exists>s1. RebalanceBondTokenWeights testKeeper testCtx [testRebAsset] testRebStore = (None, s1)
        \<and> Minted s1 = 2000000 \<and> Burned s1 = 0 \<and> TotalBonded s1 = 3000000
        \<and> ModuleDelegated s1 ''val1'' = 2000000"
proof -
  have n: "TotalBondedTokens testRebStore - GetAllianceBondedAmount testRebStore = 1000000"
    by (simp add: TotalBondedTokens_def GetAllianceBondedAmount_def testReb_fields)
  have p: "PartitionValidators testRebStore (map fst (ValidatorInfos testRebStore)) [] []
             = Inr ([(''val1'', testRebInfo)], [])"
    by (simp add: testReb_fields GetAllianceValidator_def)
  have t: "TruncateInt 2000000000000000000000000 = 2000000"
    by (simp add: TruncateInt_def bigQuo_def precisionReuse_def)
  have l: "\<exists>s1. RebalanceLoop testKeeper testCtx [testRebAsset] 1000000 [] [(''val1'', testRebInfo)]
             testRebStore = (None, s1)
        \<and> Minted s1 = 2000000 \<and> Burned s1 = 0 \<and> TotalBonded s1 = 3000000
        \<and> ModuleDelegated s1 ''val1'' = 2000000"
    by (simp add: testReb_expected testReb_fields LegacyNewDecFromInt_def t Let_def
        ClaimValidatorRewards_def testKeeper_def MintCoins_def StakingDelegate_def
        del: ExpectedBondLoop.simps)
  show ?thesis
    using l by (simp add: RebalanceBondTokenWeights_def Let_def n p del: RebalanceLoop.simps)
qed

text \<open>
  C7. On a store whose validator records are keyed by distinct addresses, when a run of the
  rebalancer has succeeded, a second run on the store it left, with the same assets at the
  same block time, succeeds as well and mints nothing, burns nothing, and leaves the total
  bonded amount and the module's delegation to every validator as the first run left them.
  The bonding ledger is the one of validators that were never slashed, where the module's
  delegations are whole tokens.
\<close>

theorem RebalanceBondTokenWeights_idempotent:
  assumes "distinct (map fst (ValidatorInfos s))"
    and "RebalanceBondTokenWeights k ctx assets s = (None, s1)"
  shows "\<exists>s2. RebalanceBondTokenWeights k ctx assets s1 = (None, s2)
           \<and> Minted s2 = Minted s1 \<and> Burned s2 = Burned s1
           \<and> TotalBonded s2 = TotalBonded s1
           \<and> ModuleDelegated s2 = ModuleDelegated s1"
proof -
  from RebalanceBondTokenWeights_second_run[OF assms] obtain q where
    "RebalanceBondTokenWeights k ctx assets s1 = (None, s1\<lparr>RebalanceQueued := q\<rparr>)" by blast
  then show ?thesis by (intro exI[of _ "s1\<lparr>RebalanceQueued := q\<rparr>"]) simp
qed

theorem RebalanceBondTokenWeights_idempotent_witness:
  "distinct (map fst (ValidatorInfos testRebStore))
   \<and> (\<exists>s1. RebalanceBondTokenWeights testKeeper testCtx [testRebAsset] testRebStore = (None, s1)
          \<and> Minted s1 = 2000000 \<and> Burned s1 = 0 \<and> TotalBonded s1 = 3000000
          \<and> ModuleDelegated s1 ''val1'' = 2000000
          \<and> (\<exists>s2. RebalanceBondTokenWeights testKeeper testCtx [testRebAsset] s1 = (None, s2)
                 \<and> Minted s2 = 2000000 \<and> Burned s2 = 0 \<and> TotalBonded s2 = 3000000
                 \<and> ModuleDelegated s2 ''val1'' = 2000000))"
proof -
  have d: "distinct (map fst (ValidatorInfos testRebStore))" by (simp add: testReb_fields)
  from testReb_first_run obtain s1 where
    r: "RebalanceBondTokenWeights testKeeper testCtx [testRebAsset] testRebStore = (None, s1)"
    and f: "Minted s1 = 2000000" "Burned s1 = 0" "TotalBonded s1 = 3000000"
       "ModuleDelegated s1 ''val1'' = 2000000"
    by blast
  from RebalanceBondTokenWeights_idempotent[OF d r] obtain s2 where
    "RebalanceBondTokenWeights testKeeper testCtx [testRebAsset] s1 = (None, s2)"
    "Minted s2 = Minted s1" "Burned s2 = Burned s1" "TotalBonded s2 = TotalBonded s1"
    "ModuleDelegated s2 = ModuleDelegated s1"
    by blast
  then have "\<exists>s2. RebalanceBondTokenWeights testKeeper testCtx [testRebAsset] s1 = (None, s2)
                 \<and> Minted s2 = 2000000 \<and> Burned s2 = 0 \<and> TotalBonded s2 = 3000000
                 \<and> ModuleDelegated s2 ''val1'' = 2000000"
    using f by (intro exI[of _ s2]) simp
  then show ?thesis using d r f by blast
qed

end
